(* ===== verification/Prelude.thy ===== *)
theory Prelude
  imports Main "HOL-Library.Multiset" "HOL-Library.AList" "HOL-Library.List_Lexorder" "HOL-Library.Char_ord"
begin

text \<open>
  What every component of the development shares: Go's integers, instants and durations,
  the loops of the Go standard library the sources call (binary search, sorting by a key),
  association lists as Go maps, and the interface of a machine that keeps an invariant.

  \<^item> \<open>time.Time\<close> is an integer number of nanoseconds; \<open>0\<close> is the zero time, for which
    Go's \<open>IsZero\<close> holds. \<open>time.Duration\<close> is an integer number of nanoseconds.
  \<^item> \<open>int64\<close> values are integers; where the sources can reach the end of the range the
    wrap-around is written out with \<open>wrap64\<close>.
  \<^item> A Go map is an association list, read with \<open>map_of\<close> and written with
    \<open>AList.update\<close>. The order of the list stands for one iteration order of the map.
\<close>

named_theorems go_defs \<open>definitions of the Go primitives\<close>
named_theorems alist_simps \<open>reading a Go map after a write\<close>

section \<open>Integers, instants and durations\<close>

type_synonym int64 = int
type_synonym instant = int
type_synonym duration = int

definition nanosecond :: duration where [go_defs]: "nanosecond = 1"
definition millisecond :: duration where [go_defs]: "millisecond = 1000000"
definition second :: duration where [go_defs]: "second = 1000000000"

definition max_int64 :: int where [go_defs]: "max_int64 = 9223372036854775807"
definition min_int64 :: int where [go_defs]: "min_int64 = - 9223372036854775808"

lemma unit_pos [simp]: "0 < nanosecond" "0 < millisecond" "0 < second"
  by (simp_all add: go_defs)

lemma int64_sign [simp]: "min_int64 \<le> 0" "0 \<le> max_int64"
  by (simp_all add: go_defs)

definition wrap64 :: "int \<Rightarrow> int64" where
  "wrap64 x = (x + 9223372036854775808) mod 18446744073709551616 - 9223372036854775808"

lemma wrap64_id [simp]: "min_int64 \<le> x \<Longrightarrow> x \<le> max_int64 \<Longrightarrow> wrap64 x = x"
  by (simp add: wrap64_def go_defs)

lemma wrap64_range: "min_int64 \<le> wrap64 x \<and> wrap64 x \<le> max_int64"
proof -
  have "0 \<le> (x + 9223372036854775808) mod 18446744073709551616"
    by (rule pos_mod_sign) simp
  moreover have "(x + 9223372036854775808) mod 18446744073709551616 < 18446744073709551616"
    by (rule pos_mod_bound) simp
  ultimately show ?thesis by (simp add: wrap64_def go_defs)
qed

lemma wrap64_overflow: "wrap64 (max_int64 + 1) = min_int64"
  by (simp add: wrap64_def go_defs)

text \<open>\<open>Time.Sub\<close> saturates at the ends of \<open>int64\<close>.\<close>

definition time_sub :: "instant \<Rightarrow> instant \<Rightarrow> duration" where
  "time_sub a b = max min_int64 (min max_int64 (a - b))"

lemma time_sub_gt: "min_int64 \<le> d \<Longrightarrow> d < max_int64 \<Longrightarrow> d < time_sub a b \<longleftrightarrow> d < a - b"
  by (auto simp: time_sub_def)

section \<open>Loops of the standard library\<close>

text \<open>\<open>sort.Search(n, f)\<close>: the binary search loop.\<close>

function search_loop :: "(nat \<Rightarrow> bool) \<Rightarrow> nat \<Rightarrow> nat \<Rightarrow> nat" where
  "search_loop f i j =
     (if i < j then
        (let h = (i + j) div 2
         in if \<not> f h then search_loop f (h + 1) j else search_loop f i h)
      else i)"
  by pat_completeness auto
termination
  by (relation "measure (\<lambda>(f, i, j). j - i)") auto

declare search_loop.simps [simp del]

definition sort_search :: "nat \<Rightarrow> (nat \<Rightarrow> bool) \<Rightarrow> nat" where
  "sort_search n f = search_loop f 0 n"

lemma search_loop_empty [simp]: "search_loop f j j = j"
  by (simp add: search_loop.simps)

lemma search_loop_bounds: "i \<le> j \<Longrightarrow> i \<le> search_loop f i j \<and> search_loop f i j \<le> j"
proof (induction f i j rule: search_loop.induct)
  case (1 f i j)
  define h where "h = (i + j) div 2"
  show ?case
  proof (cases "i < j")
    case False
    with "1.prems" show ?thesis by simp
  next
    case True
    then have "i \<le> h" "h < j" by (auto simp: h_def)
    then show ?thesis
      using "1.IH" [OF True h_def] True
      by (cases "f h") (auto simp: search_loop.simps [of f i j] h_def [symmetric] Let_def)
  qed
qed


lemma search_loop_below:
  "(\<And>a b. a \<le> b \<Longrightarrow> f a \<Longrightarrow> b < n \<Longrightarrow> f b) \<Longrightarrow> j \<le> n \<Longrightarrow> i \<le> k \<Longrightarrow>
   k < search_loop f i j \<Longrightarrow> \<not> f k"
proof (induction f i j rule: search_loop.induct)
  case (1 f i j)
  define h where "h = (i + j) div 2"
  show ?case
  proof (cases "i < j")
    case False
    with "1.prems" show ?thesis by (simp add: search_loop.simps [of f i j])
  next
    case True
    then have h: "i \<le> h" "h < j" by (auto simp: h_def)
    have eq: "search_loop f i j = (if \<not> f h then search_loop f (h + 1) j else search_loop f i h)"
      using True by (simp add: search_loop.simps [of f i j] h_def Let_def)
    show ?thesis
    proof (cases "f h")
      case f: True
      with "1.IH"(2) [OF True h_def] "1.prems" eq h show ?thesis by auto
    next
      case f: False
      show ?thesis
      proof (cases "k \<le> h")
        case True
        with f h "1.prems"(1,2) show ?thesis by (meson order_less_le_trans)
      next
        case False
        with "1.IH"(1) [OF True h_def f] "1.prems" eq f show ?thesis by simp
      qed
    qed
  qed
qed

lemma search_loop_at:
  "i \<le> j \<Longrightarrow> search_loop f i j < j \<Longrightarrow> f (search_loop f i j)"
proof (induction f i j rule: search_loop.induct)
  case (1 f i j)
  define h where "h = (i + j) div 2"
  show ?case
  proof (cases "i < j")
    case False
    with "1.prems" show ?thesis by simp
  next
    case True
    then have h: "i \<le> h" "h < j" by (auto simp: h_def)
    have eq: "search_loop f i j = (if \<not> f h then search_loop f (h + 1) j else search_loop f i h)"
      using True by (simp add: search_loop.simps [of f i j] h_def Let_def)
    show ?thesis
    proof (cases "f h")
      case f: True
      show ?thesis
        using "1.IH"(2) [OF True h_def] f eq h search_loop_bounds [of i h f]
        by (cases "search_loop f i h < h") auto
    next
      case f: False
      with "1.IH"(1) [OF True h_def f] "1.prems" eq h show ?thesis by simp
    qed
  qed
qed

text \<open>What \<open>sort.Search\<close> promises for a predicate that stays true: the least index at
  which it holds, or \<open>n\<close>.\<close>

lemma sort_search_spec:
  assumes "\<And>a b. a \<le> b \<Longrightarrow> f a \<Longrightarrow> b < n \<Longrightarrow> f b"
  shows "sort_search n f \<le> n"
    and "k < sort_search n f \<Longrightarrow> \<not> f k"
    and "sort_search n f < n \<Longrightarrow> f (sort_search n f)"
proof -
  show "sort_search n f \<le> n"
    using search_loop_bounds [of 0 n f] by (simp add: sort_search_def)
  show "k < sort_search n f \<Longrightarrow> \<not> f k"
    using search_loop_below [of f n n 0 k] assms by (auto simp: sort_search_def)
  show "sort_search n f < n \<Longrightarrow> f (sort_search n f)"
    using search_loop_at [of 0 n f] by (simp add: sort_search_def)
qed

section \<open>Maps\<close>

type_synonym 'v go_map = "(string \<times> 'v) list"

lemma map_of_alist_update [alist_simps]:
  "map_of (AList.update k v m) x = (if x = k then Some v else map_of m x)"
  by (simp add: update_conv')

lemma set_alist_update:
  "distinct (map fst m) \<Longrightarrow>
   set (AList.update k v m) = insert (k, v) {x \<in> set m. fst x \<noteq> k}"
  by (induction m) (auto simp: image_iff)

lemma set_alist_update_subset: "set (AList.update k v m) \<subseteq> insert (k, v) (set m)"
  by (induction m) auto

lemma alist_update_not_Nil [simp]: "AList.update k v m \<noteq> []"
  by (induction m) auto

lemma map_of_in_set: "distinct (map fst m) \<Longrightarrow> (k, v) \<in> set m \<longleftrightarrow> map_of m k = Some v"
  by (auto simp: map_of_is_SomeI dest: map_of_SomeD)

lemma find_SomeD: "find P xs = Some x \<Longrightarrow> x \<in> set xs \<and> P x"
  by (induction xs) (auto split: if_splits)

section \<open>Conditional append\<close>

text \<open>\<open>if b { out = append(out, x) }\<close> adds \<open>emit b x\<close> to the end of \<open>out\<close>.\<close>

definition emit :: "bool \<Rightarrow> 'a \<Rightarrow> 'a list" where
  "emit b x = (if b then [x] else [])"

lemma emit_simps [simp]: "emit True x = [x]" "emit False x = []"
  by (simp_all add: emit_def)

lemma in_set_emit [simp]: "y \<in> set (emit b x) \<longleftrightarrow> b \<and> y = x"
  by (cases b) auto

lemma ball_set_emit [simp]: "(\<forall>y \<in> set (emit b x). P y) \<longleftrightarrow> (b \<longrightarrow> P x)"
  by auto

lemma emit_Nil [simp]: "emit b x = [] \<longleftrightarrow> \<not> b" "[] = emit b x \<longleftrightarrow> \<not> b"
  by (simp_all add: emit_def)

lemma list_ex_emit [simp]: "list_ex P (emit b x) \<longleftrightarrow> b \<and> P x"
  by (simp add: emit_def)

lemma distinct_map_emit:
  "distinct (map f (emit b x @ ys)) \<longleftrightarrow> (b \<longrightarrow> (\<forall>y \<in> set ys. f x \<noteq> f y)) \<and> distinct (map f ys)"
  by (cases b) auto

section \<open>Sorting by a key\<close>

lemma sort_key_inj_unique:
  assumes "mset xs = mset ys" and "inj_on f (set xs)"
  shows "sort_key f xs = sort_key f ys"
proof (rule properties_for_sort_key)
  show "mset (sort_key f ys) = mset xs" using assms(1) by simp
  fix k assume "k \<in> set (sort_key f ys)"
  then have k: "k \<in> set xs" using mset_eq_setD [OF assms(1)] by simp
  have one: "filter (\<lambda>x. f k = f x) zs = filter (\<lambda>x. x = k) zs" if "set zs \<subseteq> set xs" for zs
    using that k assms(2) by (intro filter_cong) (auto dest: inj_onD)
  have rep: "filter (\<lambda>x. x = k) zs = replicate (count (mset zs) k) k" for zs
    by (induction zs) auto
  show "filter (\<lambda>x. f k = f x) (sort_key f ys) = filter (\<lambda>x. f k = f x) xs"
    using one [of "sort_key f ys"] one [of xs] mset_eq_setD [OF assms(1)] rep assms(1) by simp
next
  show "sorted (map f (sort_key f ys))" by simp
qed

section \<open>A machine that keeps an invariant\<close>

text \<open>
  The interface between a component's step function and what is proved of its runs: a step
  function, the events a state admits, and an invariant that an admitted event keeps. The
  provider discharges \<open>keeps\<close>; a client gets the facts about whole runs.
\<close>

primrec run :: "('s \<Rightarrow> 'e \<Rightarrow> 's) \<Rightarrow> 's \<Rightarrow> 'e list \<Rightarrow> 's" where
  "run step s [] = s"
| "run step s (e # es) = run step (step s e) es"

primrec admitted :: "('s \<Rightarrow> 'e \<Rightarrow> 's) \<Rightarrow> ('s \<Rightarrow> 'e \<Rightarrow> bool) \<Rightarrow> 's \<Rightarrow> 'e list \<Rightarrow> bool" where
  "admitted step ok s [] = True"
| "admitted step ok s (e # es) = (ok s e \<and> admitted step ok (step s e) es)"

lemma run_append: "run step s (es @ fs) = run step (run step s es) fs"
  by (induction es arbitrary: s) auto

lemma admitted_append:
  "admitted step ok s (es @ fs) \<longleftrightarrow> admitted step ok s es \<and> admitted step ok (run step s es) fs"
  by (induction es arbitrary: s) auto

locale machine =
  fixes step :: "'s \<Rightarrow> 'e \<Rightarrow> 's"
    and ok :: "'s \<Rightarrow> 'e \<Rightarrow> bool"
    and inv :: "'s \<Rightarrow> bool"
  assumes keeps: "inv s \<Longrightarrow> ok s e \<Longrightarrow> inv (step s e)"
begin

lemma run_keeps: "inv s \<Longrightarrow> admitted step ok s es \<Longrightarrow> inv (run step s es)"
  by (induction es arbitrary: s) (auto intro: keeps)

lemma prefix_keeps:
  assumes "inv s" and "admitted step ok s (es @ fs)"
  shows "inv (run step s es)"
  using assms by (simp add: admitted_append run_keeps)

text \<open>A reflexive and transitive relation that every admitted step establishes holds between
  the ends of a run.\<close>

lemma run_rel:
  assumes refl: "\<And>s. R s s" and trans: "\<And>a b c. R a b \<Longrightarrow> R b c \<Longrightarrow> R a c"
    and step: "\<And>s e. inv s \<Longrightarrow> ok s e \<Longrightarrow> R s (step s e)"
  shows "inv s \<Longrightarrow> admitted step ok s es \<Longrightarrow> R s (run step s es)"
proof (induction es arbitrary: s)
  case (Cons e es)
  then have "R s (step s e)" and "R (step s e) (run step (step s e) es)"
    by (auto intro: step keeps)
  then show ?case by (auto intro: trans)
qed (simp add: refl)

end

end
