(* ===== verification/Go_Text.thy ===== *)
theory Go_Text
  imports Prelude
begin

text \<open>
  The string functions of the Go standard library the sources call, on byte strings:
  \<open>strings.Split\<close> and \<open>strings.Join\<close> for a separator of one byte, \<open>strings.Fields\<close>,
  \<open>strings.ToLower\<close>, \<open>strings.TrimSpace\<close>, \<open>strconv.FormatInt\<close> and \<open>strconv.ParseInt\<close> in
  base ten. White space and letter case are those of ASCII, which is what the texts of the
  sources (GTID sets, file names) are made of.
\<close>

section \<open>Splitting and joining\<close>

fun split_on :: "char \<Rightarrow> string \<Rightarrow> string list" where
  "split_on c [] = [[]]"
| "split_on c (x # xs) =
     (if x = c then [] # split_on c xs
      else (case split_on c xs of (p # ps) \<Rightarrow> (x # p) # ps | [] \<Rightarrow> [[x]]))"

fun join_with :: "char \<Rightarrow> string list \<Rightarrow> string" where
  "join_with c [] = []"
| "join_with c [p] = p"
| "join_with c (p # ps) = p @ c # join_with c ps"

lemma split_on_not_Nil [simp]: "split_on c xs \<noteq> []"
  by (induction xs) (auto split: list.split)

lemma split_on_free: "c \<notin> set p \<Longrightarrow> split_on c p = [p]"
  by (induction p) auto

lemma split_on_append: "c \<notin> set p \<Longrightarrow> split_on c (p @ c # xs) = p # split_on c xs"
  by (induction p) auto

text \<open>Splitting undoes joining when no piece contains the separator.\<close>

lemma split_join: "ps \<noteq> [] \<Longrightarrow> \<forall>p \<in> set ps. c \<notin> set p \<Longrightarrow> split_on c (join_with c ps) = ps"
  by (induction c ps rule: join_with.induct) (auto simp: split_on_free split_on_append)

lemma set_join: "set (join_with c ps) \<subseteq> insert c (\<Union>p \<in> set ps. set p)"
  by (induction c ps rule: join_with.induct) auto

section \<open>White space and case\<close>

definition is_space :: "char \<Rightarrow> bool" where
  "is_space c \<longleftrightarrow> c \<in> {CHR 0x09, CHR 0x0A, CHR 0x0B, CHR 0x0C, CHR 0x0D, CHR '' ''}"

definition drop_space :: "string \<Rightarrow> string" where
  "drop_space s = filter (\<lambda>c. \<not> is_space c) s"

definition trim_space :: "string \<Rightarrow> string" where
  "trim_space s = rev (dropWhile is_space (rev (dropWhile is_space s)))"

definition lower_char :: "char \<Rightarrow> char" where
  "lower_char c = (if CHR ''A'' \<le> c \<and> c \<le> CHR ''Z'' then char_of (of_char c + 32 :: nat) else c)"

definition to_lower :: "string \<Rightarrow> string" where
  "to_lower s = map lower_char s"

lemma drop_space_id: "\<forall>c \<in> set s. \<not> is_space c \<Longrightarrow> drop_space s = s"
  by (simp add: drop_space_def filter_id_conv)

section \<open>Decimal numbers\<close>

definition is_digit :: "char \<Rightarrow> bool" where
  "is_digit c \<longleftrightarrow> CHR ''0'' \<le> c \<and> c \<le> CHR ''9''"

definition digit_char :: "nat \<Rightarrow> char" where
  "digit_char d = char_of (48 + d)"

definition digit_val :: "char \<Rightarrow> int" where
  "digit_val c = int (of_char c) - 48"

fun nat_digits :: "nat \<Rightarrow> string" where
  "nat_digits n = (if n < 10 then [digit_char n] else nat_digits (n div 10) @ [digit_char (n mod 10)])"

declare nat_digits.simps [simp del]

definition format_int :: "int \<Rightarrow> string" where
  "format_int n = (if n < 0 then CHR ''-'' # nat_digits (nat (- n)) else nat_digits (nat n))"

definition digits_val :: "string \<Rightarrow> int" where
  "digits_val ds = foldl (\<lambda>acc c. 10 * acc + digit_val c) 0 ds"

definition parse_int :: "string \<Rightarrow> int64 option" where
  "parse_int s =
     (let neg = (s \<noteq> [] \<and> hd s = CHR ''-'');
          ds = (if s \<noteq> [] \<and> (hd s = CHR ''-'' \<or> hd s = CHR ''+'') then tl s else s);
          v = (if neg then - digits_val ds else digits_val ds)
      in if ds = [] \<or> \<not> list_all is_digit ds then None
         else if min_int64 \<le> v \<and> v \<le> max_int64 then Some v else None)"

lemma digit_char_cases: "d < 10 \<Longrightarrow> d \<in> {0, 1, 2, 3, 4, 5, 6, 7, 8, 9}" for d :: nat
  by auto

lemma digit_char [simp]:
  "d < 10 \<Longrightarrow> is_digit (digit_char d)" "d < 10 \<Longrightarrow> digit_val (digit_char d) = int d"
proof -
  assume "d < 10"
  then have d: "d \<in> {0, 1, 2, 3, 4, 5, 6, 7, 8, 9}" by (rule digit_char_cases)
  then show "is_digit (digit_char d)"
    by (elim insertE emptyE) (simp_all add: digit_char_def is_digit_def less_eq_char_def)
  from d show "digit_val (digit_char d) = int d"
    by (elim insertE emptyE) (simp_all add: digit_char_def digit_val_def)
qed

lemma nat_digits_ok: "nat_digits n \<noteq> [] \<and> list_all is_digit (nat_digits n) \<and> digits_val (nat_digits n) = int n"
proof (induction n rule: nat_digits.induct)
  case (1 n)
  show ?case
  proof (cases "n < 10")
    case True
    then show ?thesis by (simp add: nat_digits.simps [of n] digits_val_def)
  next
    case False
    have "10 * int (n div 10) + int (n mod 10) = int n" by presburger
    with False "1" show ?thesis by (simp add: nat_digits.simps [of n] digits_val_def)
  qed
qed

lemma digit_not_sign: "is_digit c \<Longrightarrow> c \<noteq> CHR ''-'' \<and> c \<noteq> CHR ''+'' \<and> c \<noteq> CHR '':'' \<and> c \<noteq> CHR '','' \<and> \<not> is_space c"
  by (auto simp: is_digit_def is_space_def less_eq_char_def)

lemma format_int_digits:
  "0 \<le> n \<Longrightarrow> format_int n \<noteq> [] \<and> list_all is_digit (format_int n) \<and> digits_val (format_int n) = n"
  using nat_digits_ok [of "nat n"] by (simp add: format_int_def)

text \<open>Reading back a printed number.\<close>

lemma parse_format: "0 \<le> n \<Longrightarrow> n \<le> max_int64 \<Longrightarrow> parse_int (format_int n) = Some n"
proof -
  assume n: "0 \<le> n" "n \<le> max_int64"
  note f = format_int_digits [OF n(1)]
  then have "is_digit (hd (format_int n))" by (auto simp: list_all_iff)
  then have "hd (format_int n) \<noteq> CHR ''-''" "hd (format_int n) \<noteq> CHR ''+''"
    using digit_not_sign by auto
  then show ?thesis using f n by (simp add: parse_int_def Let_def min_int64_def)
qed

section \<open>Searching\<close>

text \<open>\<open>strings.LastIndex\<close>, \<open>strings.HasPrefix\<close>, \<open>strings.ToUpper\<close>, \<open>strings.EqualFold\<close>,
  \<open>filepath.Base\<close> on a slash-separated path, and \<open>strconv.ParseUint\<close> in base ten at 64 bits.\<close>

definition occurs_at :: "string \<Rightarrow> string \<Rightarrow> nat \<Rightarrow> bool" where
  "occurs_at s sub i \<longleftrightarrow> take (length sub) (drop i s) = sub"

definition last_index :: "string \<Rightarrow> string \<Rightarrow> int" where
  "last_index s sub =
     (let is = filter (occurs_at s sub) [0..<length s]
      in if is = [] then - 1 else int (last is))"

definition has_prefix :: "string \<Rightarrow> string \<Rightarrow> bool" where
  "has_prefix s p \<longleftrightarrow> take (length p) s = p"

definition upper_char :: "char \<Rightarrow> char" where
  "upper_char c = (if CHR ''a'' \<le> c \<and> c \<le> CHR ''z'' then char_of (of_char c - 32 :: nat) else c)"

definition to_upper :: "string \<Rightarrow> string" where
  "to_upper s = map upper_char s"

definition equal_fold :: "string \<Rightarrow> string \<Rightarrow> bool" where
  "equal_fold a b \<longleftrightarrow> to_lower a = to_lower b"

definition path_base :: "string \<Rightarrow> string" where
  "path_base path =
     (if path = [] then ''.''
      else (let p = rev (dropWhile (\<lambda>c. c = CHR ''/'') (rev path));
                b = rev (takeWhile (\<lambda>c. c \<noteq> CHR ''/'') (rev p))
            in if b = [] then ''/'' else b))"

definition max_uint64 :: int where
  "max_uint64 = 18446744073709551615"

definition parse_uint :: "string \<Rightarrow> int option" where
  "parse_uint s =
     (if s = [] \<or> \<not> list_all is_digit s then None
      else if digits_val s \<le> max_uint64 then Some (digits_val s) else None)"

lemma occurs_at_Nil [simp]: "sub \<noteq> [] \<Longrightarrow> length s \<le> i \<Longrightarrow> \<not> occurs_at s sub i"
  by (auto simp: occurs_at_def)

lemma last_index_eq:
  assumes "i < length s" and "occurs_at s sub i" and "\<And>j. i < j \<Longrightarrow> j < length s \<Longrightarrow> \<not> occurs_at s sub j"
  shows "last_index s sub = int i"
proof -
  have "[0..<length s] = [0..<i] @ i # [Suc i..<length s]"
    using assms(1) by (metis upt_add_eq_append upt_conv_Cons le_add_diff_inverse less_imp_le zero_le)
  moreover have "filter (occurs_at s sub) [Suc i..<length s] = []"
    using assms(3) by (simp add: filter_empty_conv)
  ultimately show ?thesis using assms(2) by (simp add: last_index_def Let_def)
qed

lemma last_index_none:
  "(\<And>j. j < length s \<Longrightarrow> \<not> occurs_at s sub j) \<Longrightarrow> last_index s sub = - 1"
  by (simp add: last_index_def filter_empty_conv)

lemma last_index_cases:
  "last_index s sub = - 1 \<and> (\<forall>j < length s. \<not> occurs_at s sub j)
   \<or> (\<exists>i < length s. last_index s sub = int i \<and> occurs_at s sub i)"
proof (cases "filter (occurs_at s sub) [0..<length s] = []")
  case False
  define l where "l = last (filter (occurs_at s sub) [0..<length s])"
  have "l \<in> set (filter (occurs_at s sub) [0..<length s])"
    unfolding l_def using False by (rule last_in_set)
  then have "l < length s" "occurs_at s sub l" by auto
  moreover have "last_index s sub = int l" using False by (simp add: last_index_def l_def Let_def)
  ultimately show ?thesis by blast
qed (auto simp: last_index_def filter_empty_conv)

lemma occurs_split: "occurs_at s sub i \<Longrightarrow> s = take i s @ sub @ drop (i + length sub) s"
  by (metis append_take_drop_id drop_drop add.commute occurs_at_def)

lemma occurs_at_free: "c \<notin> set s \<Longrightarrow> \<not> occurs_at s (c # rest) i"
  by (metis occurs_at_def in_set_takeD in_set_dropD list.set_intros(1))

lemma occurs_at_nth: "occurs_at s sub i \<Longrightarrow> k < length sub \<Longrightarrow> i + k < length s \<and> s ! (i + k) = sub ! k"
proof -
  assume o: "occurs_at s sub i" and k: "k < length sub"
  then have l: "length sub \<le> length (drop i s)" by (metis length_take min.cobounded1 occurs_at_def)
  have "sub ! k = drop i s ! k" using o k by (metis occurs_at_def nth_take)
  then show ?thesis using l k by simp
qed

lemma occurs_at_shift: "length a \<le> i \<Longrightarrow> occurs_at (a @ b) sub i \<longleftrightarrow> occurs_at b sub (i - length a)"
  by (simp add: occurs_at_def)

end
