(* ===== verification/Own_State.thy ===== *)
theory Own_State
  imports Prelude
begin

text \<open>
  The values of the ownership transition: \<open>internal/ownership/state.go\<close> and
  \<open>internal/ownership/event.go\<close>.

  Every Go string type with named constants is a datatype with one constructor per
  constant, and one more constructor for Go's zero value \<open>""\<close> where the code builds it
  (an erased row, an event without a cause). \<open>string(x)\<close> is the printing function beside
  the datatype. A Go struct is a record whose fields carry the first letter of the struct.
\<close>

section \<open>Enumerations\<close>

datatype Phase =
    PhaseCreated | PhaseStarting | PhaseRunning | PhaseLeaseDegraded | PhaseRetryBackoff
  | PhaseFailed | PhaseStopping | PhaseStopped | PhaseZero

fun phase_string :: "Phase \<Rightarrow> string" where
  "phase_string PhaseCreated = ''CREATED''"
| "phase_string PhaseStarting = ''STARTING''"
| "phase_string PhaseRunning = ''RUNNING''"
| "phase_string PhaseLeaseDegraded = ''LEASE_DEGRADED''"
| "phase_string PhaseRetryBackoff = ''RETRY_BACKOFF''"
| "phase_string PhaseFailed = ''FAILED''"
| "phase_string PhaseStopping = ''STOPPING''"
| "phase_string PhaseStopped = ''STOPPED''"
| "phase_string PhaseZero = ''''"

datatype Desired = DesiredRun | DesiredStop | DesiredZero

fun desired_string :: "Desired \<Rightarrow> string" where
  "desired_string DesiredRun = ''RUN''"
| "desired_string DesiredStop = ''STOP''"
| "desired_string DesiredZero = ''''"

datatype Storage = StoragePerNode | StorageShared | StorageZero

datatype FailedReason =
    ReasonSourceAuth | ReasonLogBinOff | ReasonSourceSwitchover | ReasonSourceUnreachable
  | ReasonStorageInconsistent | ReasonChainOwnerGone | ReasonLegacyUnknown | ReasonNone

fun reason_string :: "FailedReason \<Rightarrow> string" where
  "reason_string ReasonSourceAuth = ''SOURCE_AUTH''"
| "reason_string ReasonLogBinOff = ''LOG_BIN_OFF''"
| "reason_string ReasonSourceSwitchover = ''SOURCE_SWITCHOVER''"
| "reason_string ReasonSourceUnreachable = ''SOURCE_UNREACHABLE''"
| "reason_string ReasonStorageInconsistent = ''STORAGE_INCONSISTENT''"
| "reason_string ReasonChainOwnerGone = ''CHAIN_OWNER_GONE''"
| "reason_string ReasonLegacyUnknown = ''LEGACY_UNKNOWN''"
| "reason_string ReasonNone = ''''"

datatype RefusalReason = RefusalTail | RefusalEpochLost | RefusalZero

fun refusal_string :: "RefusalReason \<Rightarrow> string" where
  "refusal_string RefusalTail = ''TailUnreadable''"
| "refusal_string RefusalEpochLost = ''EpochLost''"
| "refusal_string RefusalZero = ''''"

definition RetryBudget :: int where "RetryBudget = 10"

datatype FindingName =
    FindingTail | FindingMissing | FindingUnreadable | FindingNoProgress | FindingFailed
  | FindingLockStalled | FindingEpochLost | FindingMixedVersion

fun finding_string :: "FindingName \<Rightarrow> string" where
  "finding_string FindingTail = ''SEGMENT_NOT_ON_WORKER''"
| "finding_string FindingMissing = ''SEGMENT_MISSING''"
| "finding_string FindingUnreadable = ''SEGMENT_UNREADABLE''"
| "finding_string FindingNoProgress = ''TASK_NO_PROGRESS''"
| "finding_string FindingFailed = ''TASK_FAILED''"
| "finding_string FindingLockStalled = ''META_LOCK_STALLED''"
| "finding_string FindingEpochLost = ''EPOCH_LOST''"
| "finding_string FindingMixedVersion = ''MIXED_VERSION''"

datatype Severity = SeverityCritical | SeverityWarning | SeverityZero

section \<open>The task row and its records\<close>

record Params =
  pStorage :: Storage
  pLeaseTTL :: duration
  pClaimInterval :: duration
  pRefusalRetryCap :: duration
  pSweep :: duration
  pLockWait :: duration
  pIdleKill :: duration
  pStartToReady :: duration
  pNodeGoneAfter :: duration
  pNoProgressAfter :: duration
  pStaleAfter :: duration
  pSideKill :: string
  pUploads :: bool

definition DefaultParams :: Params where
  "DefaultParams = \<lparr>
     pStorage = StoragePerNode,
     pLeaseTTL = 15 * second,
     pClaimInterval = 2 * second,
     pRefusalRetryCap = 600 * second,
     pSweep = 60 * second,
     pLockWait = 5 * second,
     pIdleKill = 5 * second,
     pStartToReady = 10 * second,
     pNodeGoneAfter = 0,
     pNoProgressAfter = 120 * second,
     pStaleAfter = 0,
     pSideKill = ''off'',
     pUploads = False\<rparr>"

record Lease =
  lPresent :: bool
  lOwner :: string
  lEpoch :: int64
  lExpireAt :: instant
  lAcquiredAt :: instant
  lRenewedAt :: instant

record Chain =
  cOwner :: string
  cVerifiedAt :: instant
  cVerifiedEpoch :: int64
  cMissingSealed :: bool
  cUnreadable :: bool

definition Verified :: "Chain \<Rightarrow> bool" where
  "Verified c \<longleftrightarrow> cVerifiedAt c \<noteq> 0 \<and> cOwner c \<noteq> ''''"

record Refusal =
  rfReason :: RefusalReason
  rfAttempts :: int
  rfUntil :: instant
  rfOpenEnded :: bool

record Finding =
  fName :: FindingName
  fSubject :: string
  fSeverity :: Severity
  fOnCluster :: bool

definition finding_key :: "Finding \<Rightarrow> string" where
  "finding_key f = finding_string (fName f) @ CHR 0x00 # fSubject f"

record Node =
  nID :: string
  nCanRead :: bool
  nStopped :: bool
  nHeartbeatAt :: instant

record Lock =
  kHeld :: bool
  kHeldBy :: string
  kSince :: instant

section \<open>Events\<close>

datatype Kind =
    EventOperatorStart | EventOperatorStop | EventOperatorDelete | EventStopConfirmed
  | EventStopExpired | EventAcquire | EventLeaseExpired | EventDumpReady
  | EventRetryableError | EventTerminalError | EventTailUnreadable | EventEpochLost
  | EventChainVerified | EventChainOwnerGone | EventChainOwnerBack | EventMetaLockTimeout
  | EventRenew | EventSweep | EventLock | EventEvalDirFailed | EventLegacyUpdate
  | EventUnknown

datatype Cause =
    CauseSourceAuth | CauseLogBinOff | CauseSourceSwitchover | CauseSourceUnreachable
  | CauseStorageInconsistent | CauseUnclassified | CauseENOENT | CauseENOSPC | CauseEROFS
  | CauseWriteFenced | CauseLeaseUnreadable | CauseLockWait | CauseIdleKilled
  | CauseSegmentNotOnWorker | CauseZero

fun cause_string :: "Cause \<Rightarrow> string" where
  "cause_string CauseSourceAuth = ''SOURCE_AUTH''"
| "cause_string CauseLogBinOff = ''LOG_BIN_OFF''"
| "cause_string CauseSourceSwitchover = ''SOURCE_SWITCHOVER''"
| "cause_string CauseSourceUnreachable = ''SOURCE_UNREACHABLE''"
| "cause_string CauseStorageInconsistent = ''STORAGE_INCONSISTENT''"
| "cause_string CauseUnclassified = ''UNCLASSIFIED''"
| "cause_string CauseENOENT = ''ENOENT''"
| "cause_string CauseENOSPC = ''ENOSPC''"
| "cause_string CauseEROFS = ''EROFS''"
| "cause_string CauseWriteFenced = ''WRITE_FENCED''"
| "cause_string CauseLeaseUnreadable = ''LEASE_UNREADABLE''"
| "cause_string CauseLockWait = ''1205''"
| "cause_string CauseIdleKilled = ''1927''"
| "cause_string CauseSegmentNotOnWorker = ''SEGMENT_NOT_ON_WORKER''"
| "cause_string CauseZero = ''''"

record Event =
  eKind :: Kind
  eNode :: string
  eEpoch :: int64
  eRowGeneration :: int64
  eChangesSpec :: bool
  eCause :: Cause
  eReadOK :: bool
  eMissingSealed :: bool
  eUnreadable :: bool
  eIncomplete :: bool
  eMetaDown :: bool
  eLostRace :: bool
  eLeaseUnreadable :: bool
  eOwnerless :: bool

text \<open>Go's struct literal \<open>Event{Kind: k, Node: n}\<close>: every other field is its zero value.\<close>

definition event_of :: "Kind \<Rightarrow> string \<Rightarrow> Event" where
  "event_of k n = \<lparr>eKind = k, eNode = n, eEpoch = 0, eRowGeneration = 0, eChangesSpec = False,
     eCause = CauseZero, eReadOK = False, eMissingSealed = False, eUnreadable = False,
     eIncomplete = False, eMetaDown = False, eLostRace = False, eLeaseUnreadable = False,
     eOwnerless = False\<rparr>"

record TraceEvent =
  tKind :: Kind
  tAt :: instant
  tPhase :: Phase
  tDesired :: Desired
  tDeleted :: bool
  tOwner :: string
  tExpire :: instant
  tAcquired :: instant
  tPresent :: bool
  tRetryAttempt :: int
  tRetryUntil :: instant

record State =
  sTaskID :: string
  sPhase :: Phase
  sDesired :: Desired
  sSpecRevision :: int64
  sRowGeneration :: int64
  sRunID :: string
  sLastError :: string
  sRetryAttempt :: int
  sRetryUntil :: instant
  sFailedReason :: FailedReason
  sFailedAt :: instant
  sFailedSpec :: int64
  sTailSince :: instant
  sPendingDelete :: bool
  sStoppedByOperator :: bool
  sLease :: Lease
  sChain :: Chain
  sRefusal :: "Refusal go_map"
  sFindings :: "Finding list"
  sNodes :: "Node list"
  sLock :: Lock
  sUnownedSince :: instant
  sProgressAt :: instant
  sNoProgress :: bool
  sEvaluatedAt :: instant
  sLastSweep :: instant
  sHealthStatus :: string
  sHealthBlocked :: bool
  sPartitioned :: bool
  sMetaLockStalled :: bool
  sLockObserver :: string
  sLockRecoveries :: int
  sMixedVersion :: bool
  sDeleted :: bool
  sRegistrationLive :: "bool go_map"
  sTrace :: "TraceEvent list"
  sParams :: Params

section \<open>Zero values and the initial row\<close>

definition zero_lease :: Lease where
  "zero_lease = \<lparr>lPresent = False, lOwner = '''', lEpoch = 0, lExpireAt = 0, lAcquiredAt = 0,
     lRenewedAt = 0\<rparr>"

definition zero_chain :: Chain where
  "zero_chain = \<lparr>cOwner = '''', cVerifiedAt = 0, cVerifiedEpoch = 0, cMissingSealed = False,
     cUnreadable = False\<rparr>"

definition zero_lock :: Lock where
  "zero_lock = \<lparr>kHeld = False, kHeldBy = '''', kSince = 0\<rparr>"

definition zero_refusal :: Refusal where
  "zero_refusal = \<lparr>rfReason = RefusalZero, rfAttempts = 0, rfUntil = 0, rfOpenEnded = False\<rparr>"

definition zero_params :: Params where
  "zero_params = \<lparr>pStorage = StorageZero, pLeaseTTL = 0, pClaimInterval = 0,
     pRefusalRetryCap = 0, pSweep = 0, pLockWait = 0, pIdleKill = 0, pStartToReady = 0,
     pNodeGoneAfter = 0, pNoProgressAfter = 0, pStaleAfter = 0, pSideKill = '''',
     pUploads = False\<rparr>"

definition zero_state :: State where
  "zero_state = \<lparr>sTaskID = '''', sPhase = PhaseZero, sDesired = DesiredZero,
     sSpecRevision = 0, sRowGeneration = 0, sRunID = '''', sLastError = '''',
     sRetryAttempt = 0, sRetryUntil = 0, sFailedReason = ReasonNone, sFailedAt = 0,
     sFailedSpec = 0, sTailSince = 0, sPendingDelete = False, sStoppedByOperator = False,
     sLease = zero_lease, sChain = zero_chain, sRefusal = [], sFindings = [], sNodes = [],
     sLock = zero_lock, sUnownedSince = 0, sProgressAt = 0, sNoProgress = False,
     sEvaluatedAt = 0, sLastSweep = 0, sHealthStatus = '''', sHealthBlocked = False,
     sPartitioned = False, sMetaLockStalled = False, sLockObserver = '''',
     sLockRecoveries = 0, sMixedVersion = False, sDeleted = False, sRegistrationLive = [],
     sTrace = [], sParams = zero_params\<rparr>"

definition New :: State where
  "New = zero_state\<lparr>sTaskID := ''task'', sPhase := PhaseCreated, sDesired := DesiredRun,
     sHealthStatus := ''HEALTHY'', sLease := zero_lease\<lparr>lPresent := True\<rparr>,
     sRefusal := [], sParams := DefaultParams\<rparr>"

definition Held :: "State \<Rightarrow> Kind \<Rightarrow> string \<Rightarrow> Event" where
  "Held s k node =
     (event_of k node)\<lparr>eEpoch := lEpoch (sLease s), eRowGeneration := sRowGeneration s\<rparr>"

definition node :: "State \<Rightarrow> string \<Rightarrow> Node option" where
  "node s i = find (\<lambda>n. nID n = i) (sNodes s)"

lemmas zero_defs = zero_lease_def zero_chain_def zero_lock_def zero_refusal_def
  zero_params_def zero_state_def

section \<open>Finding keys\<close>

text \<open>A key is the name, a NUL byte and the subject. No name contains a NUL byte, so the
  key determines both.\<close>

lemma finding_string_no_nul: "CHR 0x00 \<notin> set (finding_string n)"
  by (cases n) auto

lemma finding_string_inj: "finding_string a = finding_string b \<longleftrightarrow> a = b"
  by (cases a; cases b; simp)

lemma append_nul_eq:
  "c \<notin> set xs \<Longrightarrow> c \<notin> set ys \<Longrightarrow> xs @ c # us = ys @ c # vs \<longleftrightarrow> xs = ys \<and> us = vs"
proof (induction xs arbitrary: ys)
  case Nil
  then show ?case by (cases ys) auto
next
  case (Cons x xs)
  then show ?case by (cases ys) auto
qed

lemma finding_key_eq:
  "finding_key f = finding_key g \<longleftrightarrow> fName f = fName g \<and> fSubject f = fSubject g"
  by (simp add: finding_key_def append_nul_eq finding_string_no_nul finding_string_inj)

end
