(* ===== verification/Own_Spec.thy ===== *)
theory Own_Spec
  imports Own_State
begin

text \<open>
  The formulas of \<open>internal/ownership/spec.go\<close> that are not themselves transitions: the
  defaults filled into the parameters, the recovery-time bound, the stale and node-gone
  thresholds, the refusal back-off, the migration gate and the side-kill plan. The back-off
  is the one place where a shift could leave the range of \<open>int64\<close>, so it is computed with
  the wrap-around written out.
\<close>

section \<open>Parameters\<close>

definition fill :: "Params \<Rightarrow> Params" where
  "fill p = p\<lparr>
     pStorage := (if pStorage p = StorageZero then pStorage DefaultParams else pStorage p),
     pLeaseTTL := (if pLeaseTTL p \<le> 0 then pLeaseTTL DefaultParams else pLeaseTTL p),
     pClaimInterval := (if pClaimInterval p \<le> 0 then pClaimInterval DefaultParams else pClaimInterval p),
     pRefusalRetryCap := (if pRefusalRetryCap p = 0 then pRefusalRetryCap DefaultParams else pRefusalRetryCap p),
     pSweep := (if pSweep p \<le> 0 then pSweep DefaultParams else pSweep p),
     pLockWait := (if pLockWait p \<le> 0 then pLockWait DefaultParams else pLockWait p),
     pIdleKill := (if pIdleKill p \<le> 0 then pIdleKill DefaultParams else pIdleKill p),
     pStartToReady := (if pStartToReady p \<le> 0 then pStartToReady DefaultParams else pStartToReady p),
     pNoProgressAfter := (if pNoProgressAfter p \<le> 0 then pNoProgressAfter DefaultParams else pNoProgressAfter p),
     pSideKill := (if pSideKill p = '''' then pSideKill DefaultParams else pSideKill p)\<rparr>"

definition SessionKillBound :: "duration \<Rightarrow> duration" where
  "SessionKillBound leaseTTL =
     (let leaseTTL = (if leaseTTL \<le> 0 then pLeaseTTL DefaultParams else leaseTTL);
          half = leaseTTL div 2;
          cap = 5 * second;
          half = (if cap < half then cap else half)
      in if half < second then second else half)"

definition RTOBound :: "Params \<Rightarrow> duration" where
  "RTOBound p =
     (let p = fill p;
          idle = pIdleKill p;
          idle = (if idle < pLockWait p then pLockWait p else idle)
      in pLeaseTTL p + idle + pClaimInterval p + pStartToReady p)"

definition SameNodeRestartBound :: "Params \<Rightarrow> duration \<Rightarrow> duration" where
  "SameNodeRestartBound p registrationTTL =
     RTOBound p + (if registrationTTL < 0 then 0 else registrationTTL)"

definition RTOStart :: "Lease \<Rightarrow> instant" where
  "RTOStart l = (if lRenewedAt l \<noteq> 0 then lRenewedAt l else lAcquiredAt l)"

definition EffectiveStaleAfter :: "Params \<Rightarrow> duration" where
  "EffectiveStaleAfter p =
     (let p = fill p;
          s = pStaleAfter p;
          s = (if s \<le> 0 then 5 * pSweep p else s);
          rto = RTOBound p;
          s = (if rto < s then rto else s);
          flr = 2 * pSweep p + pLockWait p
      in if s < flr then flr else s)"

definition EffectiveNodeGone :: "Params \<Rightarrow> duration" where
  "EffectiveNodeGone p =
     (let p = fill p
      in if 0 < pNodeGoneAfter p then pNodeGoneAfter p
         else (let a = 3 * pSweep p; b = pLeaseTTL p + 2 * pSweep p
               in if a < b then b else a))"

definition NodeGoneRejectsStart :: "Params \<Rightarrow> bool" where
  "NodeGoneRejectsStart p =
     (let p = fill p
      in if pNodeGoneAfter p \<le> 0 then False
         else pNodeGoneAfter p < pLeaseTTL p + 2 * pSweep p)"

definition RefusalCapRejectsStart :: "Params \<Rightarrow> bool" where
  "RefusalCapRejectsStart p \<longleftrightarrow> pRefusalRetryCap p < 0"

section \<open>The refusal back-off\<close>

definition maxRefusalShift :: int where "maxRefusalShift = 20"

definition maxRefusalAttempts :: int where "maxRefusalAttempts = maxRefusalShift + 1"

definition RefusalDelay :: "int \<Rightarrow> duration \<Rightarrow> duration \<Rightarrow> duration" where
  "RefusalDelay attempts claim cap =
     (let attempts = (if attempts < 1 then 1 else attempts);
          claim = (if claim \<le> 0 then 2 * second else claim);
          cap = (if cap \<le> 0 then 600 * second else cap);
          shift = attempts - 1
      in if shift > maxRefusalShift \<or> claim > cap div 2 ^ nat shift then cap
         else wrap64 (claim * 2 ^ nat shift))"

section \<open>The migration gate and the side-kill plan\<close>

record Precheck =
  pcLiveRegistration :: bool
  pcLongTransaction :: bool
  pcLogBin :: bool
  pcSuperOrTrust :: bool

definition MigrationAllowed :: "Precheck \<Rightarrow> bool" where
  "MigrationAllowed p = (if pcLiveRegistration p \<or> pcLongTransaction p then False else True)"

definition BackfillChain :: "Chain \<Rightarrow> bool \<Rightarrow> string \<Rightarrow> int64 \<Rightarrow> Chain \<times> bool" where
  "BackfillChain existing haveExisting owner epoch =
     (if haveExisting then (existing, False)
      else if owner = '''' then (zero_chain, False)
      else (zero_chain\<lparr>cOwner := owner, cVerifiedEpoch := epoch\<rparr>, True))"

definition GenerationBumped :: "int64 \<Rightarrow> int64 \<Rightarrow> bool" where
  "GenerationBumped oldGen newGen \<longleftrightarrow> newGen = wrap64 (oldGen + 1)"

record SideKillInput =
  skMode :: string
  skDirect :: bool
  skProcedure :: bool
  skCanaryPassed :: bool
  skFlavor :: string
  skMariaDBWaiter :: bool
  skProcessPrivilege :: bool
  skDataLocksPrivilege :: bool

record KillPlan =
  kpMode :: string
  kpCallProcedure :: bool
  kpClientSendsKill :: bool

definition PlanSideKill :: "SideKillInput \<Rightarrow> KillPlan" where
  "PlanSideKill i =
     (let mode = (if skMode i = '''' then ''off'' else skMode i);
          plan = \<lparr>kpMode = mode, kpCallProcedure = False, kpClientSendsKill = False\<rparr>
      in if mode \<noteq> ''auto'' \<or> \<not> skDirect i \<or> \<not> skProcedure i \<or> \<not> skCanaryPassed i
            \<or> \<not> skProcessPrivilege i then plan
         else if skFlavor i = ''mariadb'' \<and> \<not> skMariaDBWaiter i then plan
         else if skFlavor i \<noteq> ''mariadb'' \<and> \<not> skDataLocksPrivilege i then plan
         else plan\<lparr>kpCallProcedure := True\<rparr>)"

section \<open>Lemmas\<close>

lemma fill_pos [simp]:
  "0 < pLeaseTTL (fill p)" "0 < pClaimInterval (fill p)" "0 < pSweep (fill p)"
  "0 < pLockWait (fill p)" "0 < pIdleKill (fill p)" "0 < pStartToReady (fill p)"
  "0 < pNoProgressAfter (fill p)"
  by (simp_all add: fill_def DefaultParams_def go_defs Let_def)

lemma fill_keeps [simp]:
  "pNodeGoneAfter (fill p) = pNodeGoneAfter p"
  "pStaleAfter (fill p) = pStaleAfter p"
  by (simp_all add: fill_def Let_def)

lemma fill_storage: "pStorage (fill p) = (if pStorage p = StorageZero then StoragePerNode else pStorage p)"
  by (simp add: fill_def DefaultParams_def Let_def)

lemma fill_idem [simp]: "fill (fill p) = fill p"
  by (simp add: fill_def DefaultParams_def go_defs Let_def)

lemma int_le_div_iff:
  assumes k: "0 < (k :: int)"
  shows "a \<le> b div k \<longleftrightarrow> a * k \<le> b"
proof
  assume "a \<le> b div k"
  then have "a * k \<le> b div k * k" using k by (intro mult_right_mono) auto
  also have "\<dots> = b - b mod k" by (rule minus_mod_eq_div_mult [symmetric])
  also have "\<dots> \<le> b" using k by simp
  finally show "a * k \<le> b" .
next
  assume "a * k \<le> b"
  then have "a * k div k \<le> b div k" using k by (rule zdiv_mono1)
  then show "a \<le> b div k" using k by simp
qed

lemma RefusalDelay_exact:
  assumes "1 \<le> attempts" "attempts \<le> maxRefusalAttempts" "0 < claim" "0 < cap" "cap \<le> max_int64"
  shows "RefusalDelay attempts claim cap = min cap (claim * 2 ^ nat (attempts - 1))"
proof -
  let ?k = "2 ^ nat (attempts - 1) :: int"
  have k: "0 < ?k" by simp
  have iff: "claim > cap div ?k \<longleftrightarrow> claim * ?k > cap"
    using int_le_div_iff [OF k, of claim cap] by auto
  show ?thesis
  proof (cases "claim * ?k > cap")
    case True
    with iff assms show ?thesis by (simp add: RefusalDelay_def Let_def)
  next
    case False
    have "min_int64 \<le> claim * ?k"
      using assms by (intro order_trans [OF int64_sign(1)]) simp
    then have "wrap64 (claim * ?k) = claim * ?k"
      using False assms by (intro wrap64_id) auto
    with False iff assms show ?thesis
      by (simp add: RefusalDelay_def Let_def maxRefusalAttempts_def)
  qed
qed

lemma RefusalDelay_saturated:
  "maxRefusalAttempts < attempts \<Longrightarrow> 0 < cap \<Longrightarrow> RefusalDelay attempts claim cap = cap"
  by (simp add: RefusalDelay_def Let_def maxRefusalAttempts_def maxRefusalShift_def)

lemma RefusalDelay_normal:
  "RefusalDelay attempts claim cap =
   RefusalDelay (max 1 attempts) (if claim \<le> 0 then 2 * second else claim)
     (if cap \<le> 0 then 600 * second else cap)"
  unfolding RefusalDelay_def Let_def
  by (cases "attempts < 1"; cases "claim \<le> 0"; cases "cap \<le> 0") (simp_all add: max_def)

lemma RefusalDelay_bounds:
  assumes "cap \<le> max_int64"
  shows "0 < RefusalDelay attempts claim cap
    \<and> RefusalDelay attempts claim cap \<le> (if cap \<le> 0 then 600 * second else cap)"
proof -
  define a where "a = max 1 attempts"
  define c where "c = (if claim \<le> 0 then 2 * second else claim)"
  define m where "m = (if cap \<le> 0 then 600 * second else cap)"
  have a: "1 \<le> a" and c: "0 < c" and m: "0 < m" "m \<le> max_int64"
    using assms by (auto simp: a_def c_def m_def go_defs)
  have "0 < RefusalDelay a c m \<and> RefusalDelay a c m \<le> m"
  proof (cases "a \<le> maxRefusalAttempts")
    case True
    then show ?thesis using RefusalDelay_exact [OF a True c m] c m by (simp add: min_def)
  next
    case False
    then show ?thesis using RefusalDelay_saturated [of a m c] m by simp
  qed
  then show ?thesis using RefusalDelay_normal [of attempts claim cap]
    by (simp add: a_def c_def m_def)
qed

lemma RefusalDelay_pos: "cap \<le> max_int64 \<Longrightarrow> 0 < RefusalDelay attempts claim cap"
  using RefusalDelay_bounds by blast

lemma RefusalDelay_mono:
  assumes "cap \<le> max_int64" and "a \<le> b"
  shows "RefusalDelay a claim cap \<le> RefusalDelay b claim cap"
proof -
  define a' where "a' = max 1 a"
  define b' where "b' = max 1 b"
  define c where "c = (if claim \<le> 0 then 2 * second else claim)"
  define m where "m = (if cap \<le> 0 then 600 * second else cap)"
  have ab: "1 \<le> a'" "a' \<le> b'" and c: "0 < c" and m: "0 < m" "m \<le> max_int64"
    using assms by (auto simp: a'_def b'_def c_def m_def go_defs)
  have "RefusalDelay a' c m \<le> RefusalDelay b' c m"
  proof (cases "b' \<le> maxRefusalAttempts")
    case True
    have "(2::int) ^ nat (a' - 1) \<le> 2 ^ nat (b' - 1)" using ab by (intro power_increasing) auto
    then have "c * 2 ^ nat (a' - 1) \<le> c * 2 ^ nat (b' - 1)" using c by simp
    then show ?thesis
      using RefusalDelay_exact [of a' c m] RefusalDelay_exact [of b' c m] True ab c m
      by (simp add: min.coboundedI2 del: power_increasing_iff)
  next
    case False
    then show ?thesis
      using RefusalDelay_saturated [of b' m c] RefusalDelay_bounds [of m a' c] m by auto
  qed
  then show ?thesis
    using RefusalDelay_normal [of a claim cap] RefusalDelay_normal [of b claim cap]
    by (simp add: a'_def b'_def c_def m_def)
qed

end
