(* ===== verification/Own_Pred.thy ===== *)
theory Own_Pred
  imports Own_Spec
begin

text \<open>
  The predicates the transition and the checker both read
  (\<open>internal/ownership/invariant.go\<close>): a live lease, a legal retry, a blocking refusal,
  the claim set and the stop set; and the findings derived from the facts of the row
  (\<open>internal/ownership/finding.go\<close>), with the difference of two finding sets.
\<close>

section \<open>Leases, retries, refusals\<close>

definition LeaseLive :: "State \<Rightarrow> instant \<Rightarrow> bool" where
  "LeaseLive s now \<longleftrightarrow>
     lPresent (sLease s) \<and> lOwner (sLease s) \<noteq> '''' \<and> lExpireAt (sLease s) > now"

definition LegalRetry :: "State \<Rightarrow> instant \<Rightarrow> bool" where
  "LegalRetry s now =
     (if sPhase s \<noteq> PhaseRetryBackoff \<or> sDeleted s then False
      else if sRetryAttempt s \<ge> RetryBudget \<or> sRetryUntil s = 0 then False
      else now < sRetryUntil s)"

definition RefusalBlocks :: "State \<Rightarrow> string \<Rightarrow> instant \<Rightarrow> bool" where
  "RefusalBlocks s nd now =
     (case map_of (sRefusal s) nd of
        None \<Rightarrow> False
      | Some r \<Rightarrow>
          if rfOpenEnded r then
            (case node s nd of
               Some n \<Rightarrow> if nCanRead n then False else True
             | None \<Rightarrow> True)
          else rfUntil r > now)"

definition failedSpecClaimable :: "State \<Rightarrow> bool" where
  "failedSpecClaimable s =
     (if sFailedReason s \<in> {ReasonSourceAuth, ReasonLogBinOff, ReasonSourceSwitchover,
           ReasonSourceUnreachable, ReasonStorageInconsistent, ReasonLegacyUnknown}
      then sSpecRevision s > sFailedSpec s
      else False)"

definition InClaimSet :: "State \<Rightarrow> instant \<Rightarrow> bool" where
  "InClaimSet s now =
     (if sDeleted s \<or> sPendingDelete s \<or> sDesired s \<noteq> DesiredRun \<or> LeaseLive s now then False
      else if sPhase s = PhaseFailed then failedSpecClaimable s
      else (case sPhase s of
              PhaseStarting \<Rightarrow> True
            | PhaseLeaseDegraded \<Rightarrow> True
            | PhaseRunning \<Rightarrow> True
            | PhaseRetryBackoff \<Rightarrow> \<not> LegalRetry s now
            | PhaseStopped \<Rightarrow> lOwner (sLease s) = ''''
            | _ \<Rightarrow> False))"

definition InStopSet :: "State \<Rightarrow> instant \<Rightarrow> bool" where
  "InStopSet s now \<longleftrightarrow>
     \<not> sDeleted s \<and> sDesired s = DesiredStop \<and> sPhase s = PhaseStopping \<and> \<not> LeaseLive s now"

definition Covered :: "State \<Rightarrow> instant \<Rightarrow> bool" where
  "Covered s now =
     (if sDeleted s then True
      else if sPhase s = PhaseFailed \<or> sPhase s = PhaseCreated then True
      else if sPhase s = PhaseStopped \<and> sDesired s = DesiredStop then True
      else if LeaseLive s now \<or> LegalRetry s now \<or> InClaimSet s now \<or> InStopSet s now then True
      else False)"

definition criticalOpen :: "State \<Rightarrow> bool" where
  "criticalOpen s \<longleftrightarrow> list_ex (\<lambda>f. fSeverity f = SeverityCritical) (sFindings s)"

definition hasFinding :: "State \<Rightarrow> FindingName \<Rightarrow> string \<Rightarrow> bool" where
  "hasFinding s name subject \<longleftrightarrow>
     list_ex (\<lambda>f. fName f = name \<and> fSubject f = subject) (sFindings s)"

definition HealthCode :: "State \<Rightarrow> instant \<Rightarrow> int" where
  "HealthCode s now =
     (if sHealthBlocked s \<or> sPartitioned s \<or> criticalOpen s then 503
      else if sDesired s = DesiredRun \<and> sEvaluatedAt s \<noteq> 0
              \<and> time_sub now (sEvaluatedAt s) > EffectiveStaleAfter (sParams s) then 503
      else 200)"

section \<open>The lost chain directory\<close>

definition ownerDirGone :: "State \<Rightarrow> bool" where
  "ownerDirGone s =
     (if \<not> Verified (sChain s) then False
      else case node s (cOwner (sChain s)) of
             Some n \<Rightarrow> \<not> nCanRead n
           | None \<Rightarrow> False)"

definition lostChainRow :: "State \<Rightarrow> bool" where
  "lostChainRow s \<longleftrightarrow>
     cOwner (sChain s) \<noteq> '''' \<and> sPhase s = PhaseLeaseDegraded \<and> sTailSince s \<noteq> 0"

definition stoppedSweepDue :: "State \<Rightarrow> instant \<Rightarrow> instant option" where
  "stoppedSweepDue s now =
     (if \<not> lostChainRow s then None
      else case node s (cOwner (sChain s)) of
             None \<Rightarrow> None
           | Some n \<Rightarrow>
               if \<not> nStopped n then None
               else if nHeartbeatAt n = 0 then Some now
               else (let due = nHeartbeatAt n + (EffectiveNodeGone (sParams s) + nanosecond)
                     in if due < now then Some now else Some due))"

definition chainGoneStep :: "State \<Rightarrow> instant \<Rightarrow> bool" where
  "chainGoneStep s now =
     (if \<not> lostChainRow s then False
      else if ownerDirGone s then True
      else stoppedSweepDue s now \<noteq> None)"

section \<open>Findings derived from facts\<close>

definition finding :: "FindingName \<Rightarrow> string \<Rightarrow> Severity \<Rightarrow> bool \<Rightarrow> Finding" where
  "finding n sub sev oc = \<lparr>fName = n, fSubject = sub, fSeverity = sev, fOnCluster = oc\<rparr>"

definition epoch_lost_nodes :: "Refusal go_map \<Rightarrow> string list" where
  "epoch_lost_nodes m = sort (map fst (filter (\<lambda>(k, r). rfReason r = RefusalEpochLost) m))"

definition epoch_lost_finding :: "Refusal go_map \<Rightarrow> string \<Rightarrow> Finding" where
  "epoch_lost_finding m k =
     (let r = (case map_of m k of Some r \<Rightarrow> r | None \<Rightarrow> zero_refusal)
      in finding FindingEpochLost k
           (if rfAttempts r \<ge> 3 then SeverityCritical else SeverityWarning) False)"

definition derive_unsorted :: "State \<Rightarrow> Finding list" where
  "derive_unsorted s =
     emit (sDesired s = DesiredRun \<and> sTailSince s \<noteq> 0)
       (finding FindingTail (sTaskID s) SeverityCritical False)
     @ emit (Verified (sChain s) \<and> cMissingSealed (sChain s))
       (finding FindingMissing (sTaskID s) SeverityCritical False)
     @ emit (Verified (sChain s) \<and> cUnreadable (sChain s))
       (finding FindingUnreadable (sTaskID s) SeverityCritical False)
     @ emit (sNoProgress s) (finding FindingNoProgress (sTaskID s) SeverityCritical False)
     @ emit (sPhase s = PhaseFailed \<and> sFailedReason s \<noteq> ReasonNone)
       (finding FindingFailed (reason_string (sFailedReason s)) SeverityCritical False)
     @ emit (sMetaLockStalled s)
       (finding FindingLockStalled (sTaskID s) SeverityCritical True)
     @ emit (sMixedVersion s)
       (finding FindingMixedVersion ''_cluster'' SeverityCritical True)
     @ map (epoch_lost_finding (sRefusal s)) (epoch_lost_nodes (sRefusal s))"

definition derive :: "State \<Rightarrow> Finding list" where
  "derive s = (if sDeleted s then [] else sort_key finding_key (derive_unsorted s))"

definition by_key :: "Finding list \<Rightarrow> Finding go_map" where
  "by_key fs = fold (\<lambda>f m. AList.update (finding_key f) f m) fs []"

definition diffFindings :: "Finding list \<Rightarrow> Finding list \<Rightarrow> Finding list \<times> Finding list" where
  "diffFindings before after =
     (let prev = by_key before; nxt = by_key after;
          opened = map snd (filter (\<lambda>(k, f). map_of prev k = None) nxt);
          closed = map snd (filter (\<lambda>(k, f). map_of nxt k = None) prev)
      in (sort_key finding_key opened, sort_key finding_key closed))"

section \<open>Lemmas on findings\<close>

lemma finding_sel [simp]:
  "fName (finding n sub sev oc) = n" "fSubject (finding n sub sev oc) = sub"
  "fSeverity (finding n sub sev oc) = sev" "fOnCluster (finding n sub sev oc) = oc"
  by (simp_all add: finding_def)

lemma epoch_lost_finding_sel [simp]:
  "fName (epoch_lost_finding m k) = FindingEpochLost"
  "fSubject (epoch_lost_finding m k) = k"
  by (simp_all add: epoch_lost_finding_def Let_def)

lemma hasFinding_set:
  "hasFinding s n sub \<longleftrightarrow> (\<exists>f \<in> set (sFindings s). fName f = n \<and> fSubject f = sub)"
  by (auto simp: hasFinding_def list_ex_iff)

lemma hasFinding_derive:
  assumes "sFindings s = derive s" and "\<not> sDeleted s"
  shows "hasFinding s FindingTail (sTaskID s) \<longleftrightarrow> sDesired s = DesiredRun \<and> sTailSince s \<noteq> 0"
    and "hasFinding s FindingMissing (sTaskID s) \<longleftrightarrow> Verified (sChain s) \<and> cMissingSealed (sChain s)"
    and "hasFinding s FindingUnreadable (sTaskID s) \<longleftrightarrow> Verified (sChain s) \<and> cUnreadable (sChain s)"
    and "hasFinding s FindingNoProgress (sTaskID s) \<longleftrightarrow> sNoProgress s"
proof -
  have "hasFinding s n sub \<longleftrightarrow> list_ex (\<lambda>f. fName f = n \<and> fSubject f = sub) (derive_unsorted s)"
    for n sub
    using assms by (simp add: hasFinding_def derive_def list_ex_iff)
  note this [simp]
  show "hasFinding s FindingTail (sTaskID s) \<longleftrightarrow> sDesired s = DesiredRun \<and> sTailSince s \<noteq> 0"
    and "hasFinding s FindingMissing (sTaskID s) \<longleftrightarrow> Verified (sChain s) \<and> cMissingSealed (sChain s)"
    and "hasFinding s FindingUnreadable (sTaskID s) \<longleftrightarrow> Verified (sChain s) \<and> cUnreadable (sChain s)"
    and "hasFinding s FindingNoProgress (sTaskID s) \<longleftrightarrow> sNoProgress s"
    by (simp_all add: derive_unsorted_def list_ex_iff [of _ "map _ _"])
qed

lemma distinct_map_fst_filter: "distinct (map fst m) \<Longrightarrow> distinct (map fst (filter P m))"
  by (rule distinct_map_filter)

lemma distinct_derive_keys:
  assumes "distinct (map fst (sRefusal s))"
  shows "distinct (map finding_key (derive_unsorted s))"
proof -
  have nodes: "distinct (epoch_lost_nodes (sRefusal s))"
    using assms by (simp add: epoch_lost_nodes_def distinct_map_fst_filter)
  have inj: "inj_on (\<lambda>k. finding_key (epoch_lost_finding (sRefusal s) k)) A" for A
    by (rule inj_onI) (simp add: finding_key_eq)
  have lost: "distinct (map finding_key (map (epoch_lost_finding (sRefusal s)) (epoch_lost_nodes (sRefusal s))))"
    using nodes inj by (simp add: distinct_map comp_def)
  show ?thesis
    unfolding derive_unsorted_def distinct_map_emit
    using lost by (simp add: ball_Un finding_key_eq)
qed

lemma by_key_fold_map_of:
  "map_of (fold (\<lambda>f m. AList.update (finding_key f) f m) fs m) k =
   (case find (\<lambda>f. finding_key f = k) (rev fs) of Some f \<Rightarrow> Some f | None \<Rightarrow> map_of m k)"
proof (induction fs arbitrary: m)
  case (Cons f fs)
  have "find P (xs @ [x]) = (case find P xs of Some y \<Rightarrow> Some y | None \<Rightarrow> if P x then Some x else None)"
    for P xs and x :: Finding
    by (induction xs) auto
  with Cons show ?case by (auto simp: alist_simps split: option.splits)
qed simp

lemma by_key_None: "map_of (by_key fs) k = None \<longleftrightarrow> k \<notin> finding_key ` set fs"
proof (cases "find (\<lambda>f. finding_key f = k) (rev fs)")
  case None
  then have "k \<notin> finding_key ` set fs" by (auto simp: find_None_iff)
  with None show ?thesis by (simp add: by_key_def by_key_fold_map_of)
next
  case (Some f)
  then show ?thesis using find_SomeD [OF Some] by (auto simp: by_key_def by_key_fold_map_of)
qed

lemma by_key_pairs: "(k, f) \<in> set (by_key fs) \<Longrightarrow> f \<in> set fs \<and> finding_key f = k"
proof -
  have "(k, f) \<in> set (fold (\<lambda>f m. AList.update (finding_key f) f m) fs m) \<Longrightarrow>
      f \<in> set fs \<and> finding_key f = k \<or> (k, f) \<in> set m" for m :: "Finding go_map"
  proof (induction fs arbitrary: m)
    case (Cons g fs)
    then have "f \<in> set fs \<and> finding_key f = k \<or> (k, f) \<in> set (AList.update (finding_key g) g m)"
      by simp
    then show ?case using set_alist_update_subset [of "finding_key g" g m] by auto
  qed simp
  from this [of "[]"] show "(k, f) \<in> set (by_key fs) \<Longrightarrow> f \<in> set fs \<and> finding_key f = k"
    by (auto simp: by_key_def)
qed

lemma by_key_keys: "fst ` set (by_key fs) = finding_key ` set fs"
proof -
  have "fst ` set (by_key fs) = {k. map_of (by_key fs) k \<noteq> None}"
    by (auto simp: map_of_eq_None_iff)
  then show ?thesis by (auto simp: by_key_None)
qed

text \<open>The difference is exact: what is opened is new, what is closed is gone, and no key is
  in both.\<close>

lemma diffFindings_keys:
  assumes "diffFindings before after = (opened, closed)"
  shows "finding_key ` set opened = finding_key ` set after - finding_key ` set before"
    and "finding_key ` set closed = finding_key ` set before - finding_key ` set after"
proof -
  have gen: "finding_key ` snd ` {x \<in> set (by_key xs). map_of (by_key ys) (fst x) = None}
      = finding_key ` set xs - finding_key ` set ys" (is "?L = ?R") for xs ys
  proof
    show "?L \<subseteq> ?R"
      by (auto simp: by_key_None dest: by_key_pairs)
    show "?R \<subseteq> ?L"
    proof
      fix k assume k: "k \<in> ?R"
      then obtain f where f: "(k, f) \<in> set (by_key xs)"
        using by_key_keys [of xs] by (metis DiffD1 imageE prod.collapse)
      then have "finding_key f = k" using by_key_pairs by blast
      moreover have "map_of (by_key ys) k = None" using k by (simp add: by_key_None)
      ultimately show "k \<in> ?L" using f by (intro image_eqI [of _ _ f] image_eqI [of _ _ "(k, f)"]) auto
    qed
  qed
  have "set opened = snd ` {x \<in> set (by_key after). map_of (by_key before) (fst x) = None}"
    and "set closed = snd ` {x \<in> set (by_key before). map_of (by_key after) (fst x) = None}"
    using assms [symmetric] by (simp_all add: diffFindings_def Let_def case_prod_unfold)
  then show "finding_key ` set opened = finding_key ` set after - finding_key ` set before"
    and "finding_key ` set closed = finding_key ` set before - finding_key ` set after"
    using gen [of after before] gen [of before after] by simp_all
qed

end
