(* ===== verification/Own_Step.thy ===== *)
theory Own_Step
  imports Own_Pred
begin

text \<open>
  The transition function of \<open>internal/ownership/step.go\<close> and
  \<open>internal/ownership/step_ownerless.go\<close>: one handler per event, the epoch fence in front
  of the runner's events, and \<open>finish\<close>, which re-derives the clocks and the findings of
  an applied event. Go's \<open>partial\<close> is the pair of the next state and the result; methods
  that mutate a copy of the state return it.
\<close>

section \<open>Results\<close>

datatype Decision =
    DecisionApplied | DecisionIdempotent | DecisionRejected | DecisionDiscarded | DecisionReread

datatype IntentKind =
    IntentAcquire | IntentRelease | IntentStopLocal | IntentDeleteTask | IntentTombstone
  | IntentDeleteRefusals | IntentClusterFinding | IntentOpenFinding | IntentRollback
  | IntentReread

record Intent =
  iKind :: IntentKind
  iNode :: string
  iFinding :: "Finding option"
  iDetail :: string
  iLocksTaskLease :: bool

definition intent :: "IntentKind \<Rightarrow> Intent" where
  "intent k = \<lparr>iKind = k, iNode = '''', iFinding = None, iDetail = '''', iLocksTaskLease = False\<rparr>"

record Result =
  rState :: State
  rDecision :: Decision
  rHTTP :: int
  rDetail :: string
  rIntents :: "Intent list"
  rOpened :: "Finding list"
  rClosed :: "Finding list"
  rLocksTaskLease :: bool
  rZeroRow :: bool

definition result :: "Decision \<Rightarrow> Result" where
  "result d = \<lparr>rState = zero_state, rDecision = d, rHTTP = 0, rDetail = '''', rIntents = [],
     rOpened = [], rClosed = [], rLocksTaskLease = False, rZeroRow = False\<rparr>"

type_synonym partial = "State \<times> Result"

definition appliedPair :: "State \<Rightarrow> Result \<Rightarrow> partial" where
  "appliedPair s r = (s, r)"

section \<open>State updates\<close>

definition bump :: "State \<Rightarrow> State" where
  "bump s = s\<lparr>sRowGeneration := sRowGeneration s + 1\<rparr>"

definition release :: "State \<Rightarrow> instant \<Rightarrow> State" where
  "release s now = s\<lparr>sLease := (sLease s)\<lparr>lOwner := '''', lExpireAt := now\<rparr>, sRunID := ''''\<rparr>"

definition takeLease :: "State \<Rightarrow> string \<Rightarrow> instant \<Rightarrow> State" where
  "takeLease s nd now =
     (let same = (lOwner (sLease s) = nd \<and> nd \<noteq> '''');
          s = (if \<not> same then
                 s\<lparr>sLease := (sLease s)\<lparr>lEpoch := lEpoch (sLease s) + 1, lAcquiredAt := now,
                     lRenewedAt := 0\<rparr>, sProgressAt := 0\<rparr>
               else s\<lparr>sLease := (sLease s)\<lparr>lRenewedAt := now\<rparr>\<rparr>)
      in s\<lparr>sLease := (sLease s)\<lparr>lPresent := True, lOwner := nd,
             lExpireAt := now + pLeaseTTL (sParams s)\<rparr>, sRunID := ''''\<rparr>)"

definition clearRefusals :: "State \<Rightarrow> State" where
  "clearRefusals s = (if sRefusal s = [] then s else s\<lparr>sRefusal := []\<rparr>)"

definition erase :: "State \<Rightarrow> State \<times> Intent list" where
  "erase s =
     (let perNode = (pStorage (sParams s) = StoragePerNode)
      in (zero_state\<lparr>sTaskID := sTaskID s, sDeleted := True, sParams := sParams s,
            sRefusal := [], sHealthStatus := ''HEALTHY''\<rparr>,
          intent IntentDeleteTask # emit perNode (intent IntentTombstone)))"

section \<open>After an applied event\<close>

definition noteOwnership :: "State \<Rightarrow> instant \<Rightarrow> State" where
  "noteOwnership s now =
     (let unowned = (sDesired s = DesiredRun \<and> \<not> LeaseLive s now \<and> \<not> LegalRetry s now
            \<and> sPhase s \<noteq> PhaseCreated \<and> sPhase s \<noteq> PhaseStopped \<and> \<not> sDeleted s)
      in if unowned then
           (if sUnownedSince s = 0 then s\<lparr>sUnownedSince := now\<rparr> else s)
         else s\<lparr>sUnownedSince := 0\<rparr>)"

definition traceSnap :: "Event \<Rightarrow> State \<Rightarrow> instant \<Rightarrow> TraceEvent" where
  "traceSnap e s now = \<lparr>tKind = eKind e, tAt = now, tPhase = sPhase s, tDesired = sDesired s,
     tDeleted = sDeleted s, tOwner = lOwner (sLease s), tExpire = lExpireAt (sLease s),
     tAcquired = lAcquiredAt (sLease s), tPresent = lPresent (sLease s),
     tRetryAttempt = sRetryAttempt s, tRetryUntil = sRetryUntil s\<rparr>"

definition noProgressFact :: "State \<Rightarrow> instant \<Rightarrow> bool" where
  "noProgressFact s now =
     (if sDeleted s \<or> sDesired s \<noteq> DesiredRun \<or> sPhase s = PhaseFailed \<or> sPhase s = PhaseCreated
      then False
      else if \<not> LeaseLive s now \<and> \<not> LegalRetry s now \<and> sPhase s \<noteq> PhaseStopped
      then sUnownedSince s \<noteq> 0 \<and> \<not> now < sUnownedSince s + pSweep (sParams s)
      else if LeaseLive s now then
        (let anchor = (if sProgressAt s = 0 then lAcquiredAt (sLease s) else sProgressAt s)
         in anchor \<noteq> 0 \<and> time_sub now anchor > pNoProgressAfter (sParams s))
      else False)"

definition opened_intent :: "Finding \<Rightarrow> Intent" where
  "opened_intent f =
     (if \<not> fOnCluster f
      then (intent IntentOpenFinding)\<lparr>iFinding := Some f, iNode := fSubject f, iLocksTaskLease := True\<rparr>
      else (intent IntentClusterFinding)\<lparr>iFinding := Some f, iNode := fSubject f\<rparr>)"

definition settle :: "Event \<Rightarrow> State \<Rightarrow> instant \<Rightarrow> State" where
  "settle e s now =
     (let s = noteOwnership s now;
          s = s\<lparr>sNoProgress := noProgressFact s now\<rparr>;
          s = s\<lparr>sTrace := sTrace s @ [traceSnap e s now]\<rparr>
      in s\<lparr>sFindings := derive s\<rparr>)"

definition finish :: "State \<Rightarrow> Event \<Rightarrow> instant \<Rightarrow> partial \<Rightarrow> Result" where
  "finish before e now p =
     (case p of (next, res) \<Rightarrow>
        if rDecision res = DecisionApplied then
          (let next' = settle e next now;
               (opened, closed) = diffFindings (sFindings before) (sFindings next')
           in res\<lparr>rOpened := opened, rClosed := closed,
                  rIntents := rIntents res @ map opened_intent opened, rState := next'\<rparr>)
        else res\<lparr>rState := next\<rparr>)"

section \<open>The epoch fence\<close>

datatype fenceKind = fenceOK | fenceDiscard | fenceReread | fenceZero

definition fence :: "State \<Rightarrow> Event \<Rightarrow> fenceKind" where
  "fence s e =
     (if sDeleted s \<or> \<not> lPresent (sLease s) then fenceZero
      else if lEpoch (sLease s) \<noteq> eEpoch e then fenceDiscard
      else if lOwner (sLease s) = '''' then fenceZero
      else if lOwner (sLease s) \<noteq> eNode e then fenceDiscard
      else if eRowGeneration e \<noteq> sRowGeneration s then fenceReread
      else fenceOK)"

definition dropped :: "State \<Rightarrow> fenceKind \<Rightarrow> partial" where
  "dropped s k =
     (case k of
        fenceReread \<Rightarrow> appliedPair s ((result DecisionReread)\<lparr>rIntents := [intent IntentReread]\<rparr>)
      | fenceZero \<Rightarrow> appliedPair s ((result DecisionDiscarded)\<lparr>rZeroRow := True, rDetail := ''noop''\<rparr>)
      | _ \<Rightarrow> appliedPair s ((result DecisionDiscarded)\<lparr>rIntents := [intent IntentStopLocal],
               rDetail := ''epoch''\<rparr>))"

section \<open>Operator events\<close>

definition rejected :: "int \<Rightarrow> string \<Rightarrow> Result" where
  "rejected http detail = (result DecisionRejected)\<lparr>rHTTP := http, rDetail := detail\<rparr>"

definition ownerlessStart :: "State \<Rightarrow> Event \<Rightarrow> instant \<Rightarrow> partial" where
  "ownerlessStart s e now =
     (let next = bump s;
          next = next\<lparr>sPhase := PhaseStarting, sDesired := DesiredRun, sStoppedByOperator := False,
                   sSpecRevision := sSpecRevision next + 1, sRetryAttempt := 0, sRetryUntil := 0,
                   sLastError := '''', sRunID := '''', sFailedReason := ReasonNone,
                   sFailedAt := 0, sFailedSpec := 0\<rparr>;
          mine = (LeaseLive s now \<and> lOwner (sLease s) = eNode e);
          next = (if mine then release next now
                  else next\<lparr>sLease := (sLease next)\<lparr>lOwner := ''''\<rparr>\<rparr>);
          had = (sRefusal next \<noteq> []);
          next = clearRefusals next
      in (next, (result DecisionApplied)\<lparr>rHTTP := 204, rDetail := ''STARTING'',
            rLocksTaskLease := True,
            rIntents := emit mine ((intent IntentRelease)\<lparr>iNode := eNode e\<rparr>)
                        @ emit had (intent IntentDeleteRefusals)\<rparr>))"

definition ownerlessRestartWhileStopping :: "State \<Rightarrow> partial" where
  "ownerlessRestartWhileStopping s =
     (let next = bump s;
          next = next\<lparr>sDesired := DesiredRun, sStoppedByOperator := False,
                   sSpecRevision := sSpecRevision next + 1, sRetryAttempt := 0, sRetryUntil := 0,
                   sLastError := '''', sFailedReason := ReasonNone, sFailedAt := 0,
                   sFailedSpec := 0\<rparr>
      in (next, (result DecisionApplied)\<lparr>rHTTP := 204, rDetail := ''STOPPING'',
            rLocksTaskLease := True\<rparr>))"

definition advancingStart :: "State \<Rightarrow> Event \<Rightarrow> instant \<Rightarrow> partial" where
  "advancingStart s e now =
     (let next = bump (takeLease s (eNode e) now);
          next = next\<lparr>sPhase := PhaseStarting, sDesired := DesiredRun, sStoppedByOperator := False,
                   sSpecRevision := sSpecRevision next + 1, sRetryAttempt := 0, sRetryUntil := 0,
                   sLastError := '''', sRunID := '''', sFailedReason := ReasonNone,
                   sFailedAt := 0, sFailedSpec := 0\<rparr>;
          hadRefusal = (sRefusal next \<noteq> []);
          next = clearRefusals next
      in (next, (result DecisionApplied)\<lparr>rHTTP := 204, rDetail := ''STARTING'',
            rLocksTaskLease := True,
            rIntents := (intent IntentAcquire)\<lparr>iNode := eNode e, iLocksTaskLease := True\<rparr>
                        # emit hadRefusal (intent IntentDeleteRefusals)\<rparr>))"

definition operatorStart :: "State \<Rightarrow> Event \<Rightarrow> instant \<Rightarrow> partial" where
  "operatorStart s e now =
     (if eMetaDown e then appliedPair s (rejected 503 ''meta down'')
      else if eLostRace e then
        appliedPair s ((rejected 409 ''desired STOP'')\<lparr>rIntents := [intent IntentRollback]\<rparr>)
      else if sPendingDelete s then
        appliedPair s (rejected 409 (phase_string (sPhase s) @ '' pending_delete''))
      else if (sPhase s = PhaseStarting \<or> sPhase s = PhaseRunning) \<and> \<not> eChangesSpec e then
        appliedPair s ((result DecisionIdempotent)\<lparr>rHTTP := 204, rDetail := phase_string (sPhase s)\<rparr>)
      else if sPhase s = PhaseStopping \<and> eOwnerless e \<and> \<not> sPendingDelete s then
        ownerlessRestartWhileStopping s
      else if sPhase s = PhaseStopping
              \<or> ((sPhase s = PhaseStarting \<or> sPhase s = PhaseRunning) \<and> eChangesSpec e) then
        appliedPair s (rejected 409 (phase_string (sPhase s)))
      else if sPhase s \<notin> {PhaseCreated, PhaseStopped, PhaseFailed, PhaseRetryBackoff,
                           PhaseLeaseDegraded} then
        appliedPair s (rejected 409 (phase_string (sPhase s)))
      else if eNode e = '''' then appliedPair s (rejected 409 ''no node'')
      else if LeaseLive s now \<and> lOwner (sLease s) \<noteq> eNode e then
        appliedPair s (rejected 409 (phase_string (sPhase s) @ '' lease_held''))
      else if eOwnerless e then ownerlessStart s e now
      else advancingStart s e now)"

definition operatorStop :: "State \<Rightarrow> Event \<Rightarrow> instant \<Rightarrow> partial" where
  "operatorStop s e now =
     (if eMetaDown e then appliedPair s (rejected 503 ''meta down'')
      else if sPhase s = PhaseStopping \<and> \<not> eChangesSpec e then
        appliedPair s ((result DecisionIdempotent)\<lparr>rHTTP := 204, rDetail := ''STOPPING''\<rparr>)
      else if sPhase s = PhaseStopped \<and> sDesired s = DesiredStop \<and> \<not> eChangesSpec e then
        appliedPair s ((result DecisionIdempotent)\<lparr>rHTTP := 204, rDetail := ''STOPPED''\<rparr>)
      else if \<not> (sPhase s = PhaseLeaseDegraded \<or> sPhase s = PhaseStarting
                 \<or> sPhase s = PhaseRunning \<or> sPhase s = PhaseRetryBackoff
                 \<or> sPhase s = PhaseStopping \<or> (sPhase s = PhaseStopped \<and> sDesired s = DesiredRun)) then
        appliedPair s (rejected 409 (phase_string (sPhase s)))
      else
        (let next = bump s;
             next = next\<lparr>sDesired := DesiredStop, sStoppedByOperator := True,
                      sPhase := PhaseStopping, sSpecRevision := sSpecRevision next + 1\<rparr>
         in (next, (result DecisionApplied)\<lparr>rHTTP := 204, rDetail := ''STOPPING'',
               rLocksTaskLease := True\<rparr>)))"

definition operatorDelete :: "State \<Rightarrow> Event \<Rightarrow> instant \<Rightarrow> partial" where
  "operatorDelete s e now =
     (if eMetaDown e then appliedPair s (rejected 503 ''meta down'')
      else
        (let next = bump s;
             next = next\<lparr>sDesired := DesiredStop, sStoppedByOperator := True,
                      sPhase := PhaseStopping, sPendingDelete := True\<rparr>
         in if LeaseLive s now then
              (next, (result DecisionApplied)\<lparr>rHTTP := 204, rDetail := ''STOPPING pending_delete'',
                 rLocksTaskLease := True\<rparr>)
            else
              (let (gone, intents) = erase next
               in (gone, (result DecisionApplied)\<lparr>rHTTP := 204, rDetail := ''deleted'',
                     rLocksTaskLease := True, rIntents := intents\<rparr>))))"

section \<open>Stopping\<close>

definition finishStop :: "State \<Rightarrow> instant \<Rightarrow> partial" where
  "finishStop s now =
     (let next = bump s
      in if sPendingDelete s then
           (let (gone, intents) = erase next
            in (gone, (result DecisionApplied)\<lparr>rIntents := intents, rLocksTaskLease := True\<rparr>))
         else
           (let next = next\<lparr>sPhase := PhaseStopped, sDesired := DesiredStop,
                         sStoppedByOperator := True\<rparr>
            in (release next now, (result DecisionApplied)\<lparr>rIntents := [intent IntentRelease],
                  rLocksTaskLease := True\<rparr>)))"

definition stopConfirmed :: "State \<Rightarrow> Event \<Rightarrow> instant \<Rightarrow> partial" where
  "stopConfirmed s e now =
     (if fence s e \<noteq> fenceOK then dropped s (fence s e)
      else if sDesired s \<noteq> DesiredStop \<and> sPhase s \<noteq> PhaseStopping then
        appliedPair s ((result DecisionDiscarded)\<lparr>rDetail := ''not stopping'',
          rIntents := [intent IntentStopLocal]\<rparr>)
      else finishStop s now)"

definition stopExpired :: "State \<Rightarrow> Event \<Rightarrow> instant \<Rightarrow> partial" where
  "stopExpired s e now =
     (if \<not> InStopSet s now then appliedPair s (rejected 0 ''not in stop set'')
      else finishStop s now)"

section \<open>Claiming and running\<close>

definition acquire :: "State \<Rightarrow> Event \<Rightarrow> instant \<Rightarrow> partial" where
  "acquire s e now =
     (if eNode e = '''' then appliedPair s (rejected 0 ''no node'')
      else if sDesired s \<noteq> DesiredRun \<or> sPendingDelete s \<or> eLostRace e then
        appliedPair s ((rejected 0 ''rollback'')\<lparr>rIntents := [intent IntentRollback]\<rparr>)
      else if RefusalBlocks s (eNode e) now \<or> \<not> InClaimSet s now then
        appliedPair s (rejected 0 ''not claimable'')
      else if chainGoneStep s now \<and> ownerDirGone s \<and> eNode e \<noteq> cOwner (sChain s) then
        appliedPair s (rejected 0 ''chain owner directory gone'')
      else
        (let fromFailed = (sPhase s = PhaseFailed);
             next = bump (takeLease s (eNode e) now);
             next = next\<lparr>sPhase := PhaseStarting, sRunID := '''', sLastError := ''''\<rparr>;
             next = (if fromFailed then
                       next\<lparr>sFailedReason := ReasonNone, sFailedAt := 0, sFailedSpec := 0\<rparr>
                     else next)
         in (next, (result DecisionApplied)\<lparr>rLocksTaskLease := True,
               rIntents := [(intent IntentAcquire)\<lparr>iNode := eNode e\<rparr>]\<rparr>)))"

definition yield :: "State \<Rightarrow> string \<Rightarrow> instant \<Rightarrow> bool \<Rightarrow> RefusalReason \<Rightarrow> State" where
  "yield s nd now openEnded reason =
     (let next = bump s;
          next = next\<lparr>sPhase := PhaseLeaseDegraded, sDesired := DesiredRun, sRunID := ''''\<rparr>;
          next = release next now;
          next = (if reason = RefusalTail \<and> sTailSince next = 0 then next\<lparr>sTailSince := now\<rparr> else next);
          r = (case map_of (sRefusal next) nd of Some r \<Rightarrow> r | None \<Rightarrow> zero_refusal);
          attempts = (if rfAttempts r + 1 > maxRefusalAttempts then maxRefusalAttempts
                      else rfAttempts r + 1);
          r = r\<lparr>rfReason := reason, rfAttempts := attempts\<rparr>;
          r = (if openEnded then r\<lparr>rfOpenEnded := True, rfUntil := 0\<rparr>
               else r\<lparr>rfOpenEnded := False,
                      rfUntil := now + RefusalDelay attempts (pClaimInterval (sParams next))
                                         (pRefusalRetryCap (sParams next))\<rparr>)
      in next\<lparr>sRefusal := AList.update nd r (sRefusal next), sLastError := refusal_string reason\<rparr>)"

definition epochLost :: "State \<Rightarrow> Event \<Rightarrow> instant \<Rightarrow> partial" where
  "epochLost s e now =
     (if fence s e \<noteq> fenceOK then dropped s (fence s e)
      else if sDesired s = DesiredStop \<or> sPhase s = PhaseStopping then finishStop s now
      else
        (let next = yield s (eNode e) now False RefusalEpochLost;
             next = next\<lparr>sLastError := cause_string (eCause e)\<rparr>;
             next = (if Verified (sChain s) \<and> cOwner (sChain s) = eNode e \<and> ownerDirGone s
                        \<and> sTailSince next = 0 then next\<lparr>sTailSince := now\<rparr> else next)
         in (next, (result DecisionApplied)\<lparr>rLocksTaskLease := True,
               rIntents := [(intent IntentRelease)\<lparr>iNode := eNode e\<rparr>]\<rparr>)))"

definition dumpReady :: "State \<Rightarrow> Event \<Rightarrow> instant \<Rightarrow> partial" where
  "dumpReady s e now =
     (if fence s e \<noteq> fenceOK then dropped s (fence s e)
      else if eLeaseUnreadable e then epochLost s e now
      else if sDesired s \<noteq> DesiredRun then
        appliedPair s ((result DecisionDiscarded)\<lparr>rDetail := ''desired STOP'',
          rIntents := [intent IntentStopLocal]\<rparr>)
      else
        (let next = bump s;
             next = next\<lparr>sPhase := PhaseRunning, sRetryAttempt := 0, sRetryUntil := 0,
                      sLastError := '''', sFailedReason := ReasonNone, sFailedAt := 0,
                      sTailSince := 0, sProgressAt := now\<rparr>;
             had = (sRefusal next \<noteq> []);
             next = clearRefusals next
         in (next, (result DecisionApplied)\<lparr>rLocksTaskLease := True,
               rIntents := emit had (intent IntentDeleteRefusals)\<rparr>)))"

definition retryable :: "State \<Rightarrow> Event \<Rightarrow> instant \<Rightarrow> partial" where
  "retryable s e now =
     (if fence s e \<noteq> fenceOK then dropped s (fence s e)
      else if sDesired s = DesiredStop \<or> sPhase s = PhaseStopping then finishStop s now
      else if eLeaseUnreadable e \<or> \<not> LeaseLive s now then epochLost s e now
      else if sRetryAttempt s \<ge> RetryBudget then epochLost s e now
      else
        (let next = bump s;
             next = next\<lparr>sPhase := PhaseRetryBackoff, sRetryAttempt := sRetryAttempt next + 1\<rparr>;
             next = next\<lparr>sRetryUntil := now + RefusalDelay (sRetryAttempt next)
                           (pClaimInterval (sParams next)) (16 * 3600 * second),
                         sLastError := cause_string (eCause e)\<rparr>
         in (next, (result DecisionApplied)\<lparr>rLocksTaskLease := True\<rparr>)))"

definition terminal_reason :: "Cause \<Rightarrow> FailedReason option" where
  "terminal_reason c =
     (case c of
        CauseSourceAuth \<Rightarrow> Some ReasonSourceAuth
      | CauseLogBinOff \<Rightarrow> Some ReasonLogBinOff
      | CauseSourceSwitchover \<Rightarrow> Some ReasonSourceSwitchover
      | CauseSourceUnreachable \<Rightarrow> Some ReasonSourceUnreachable
      | CauseStorageInconsistent \<Rightarrow> Some ReasonStorageInconsistent
      | _ \<Rightarrow> None)"

definition terminal :: "State \<Rightarrow> Event \<Rightarrow> instant \<Rightarrow> partial" where
  "terminal s e now =
     (if fence s e \<noteq> fenceOK then dropped s (fence s e)
      else if eLeaseUnreadable e then epochLost s e now
      else case terminal_reason (eCause e) of
        None \<Rightarrow> appliedPair s (rejected 0 ''not on the terminal allowlist'')
      | Some reason \<Rightarrow>
          if sDesired s = DesiredStop \<or> sPhase s = PhaseStopping then finishStop s now
          else
            (let next = bump s;
                 next = next\<lparr>sPhase := PhaseFailed, sFailedReason := reason, sFailedAt := now,
                          sFailedSpec := sSpecRevision s, sLastError := reason_string reason,
                          sDesired := DesiredRun\<rparr>
             in (release next now, (result DecisionApplied)\<lparr>rLocksTaskLease := True,
                   rIntents := [intent IntentRelease]\<rparr>)))"

definition tailUnreadable :: "State \<Rightarrow> Event \<Rightarrow> instant \<Rightarrow> partial" where
  "tailUnreadable s e now =
     (if fence s e \<noteq> fenceOK then dropped s (fence s e)
      else if sDesired s = DesiredStop \<or> sPhase s = PhaseStopping then finishStop s now
      else if eLeaseUnreadable e then epochLost s e now
      else if Verified (sChain s) \<and> cOwner (sChain s) = eNode e then
        appliedPair s (rejected 0 ''verified chain owner'')
      else
        (let openEnded = (pStorage (sParams s) = StoragePerNode)
         in (yield s (eNode e) now openEnded RefusalTail,
             (result DecisionApplied)\<lparr>rLocksTaskLease := True,
               rIntents := [(intent IntentRelease)\<lparr>iNode := eNode e\<rparr>]\<rparr>)))"

section \<open>The chain owner\<close>

definition cannotRead :: "State \<Rightarrow> string \<Rightarrow> bool" where
  "cannotRead s nd =
     (case node s nd of None \<Rightarrow> True | Some n \<Rightarrow> nStopped n \<or> \<not> nCanRead n)"

definition heartbeat :: "State \<Rightarrow> string \<Rightarrow> instant" where
  "heartbeat s nd = (case node s nd of Some n \<Rightarrow> nHeartbeatAt n | None \<Rightarrow> 0)"

definition chainVerified :: "State \<Rightarrow> Event \<Rightarrow> instant \<Rightarrow> partial" where
  "chainVerified s e now =
     (if eNode e = '''' \<or> eIncomplete e \<or> \<not> eReadOK e then
        appliedPair s (rejected 0 ''directory not read'')
      else if cannotRead s (eNode e) then appliedPair s (rejected 0 ''directory not read'')
      else
        (let holder = (LeaseLive s now \<and> lOwner (sLease s) = eNode e);
             delegated = (cOwner (sChain s) = eNode e \<and> \<not> LeaseLive s now)
         in if \<not> holder \<and> \<not> delegated then appliedPair s (rejected 0 ''not the reader'')
            else
              (s\<lparr>sChain := \<lparr>cOwner = eNode e, cVerifiedAt = now, cVerifiedEpoch = lEpoch (sLease s),
                   cMissingSealed = eMissingSealed e, cUnreadable = eUnreadable e\<rparr>\<rparr>,
               (result DecisionApplied)\<lparr>rDetail := ''chain''\<rparr>)))"

definition failChainOwner :: "State \<Rightarrow> instant \<Rightarrow> partial" where
  "failChainOwner s now =
     (let next = bump s;
          next = next\<lparr>sPhase := PhaseFailed, sFailedReason := ReasonChainOwnerGone,
                   sFailedAt := now, sDesired := DesiredRun\<rparr>;
          next = (if sTailSince next = 0 then next\<lparr>sTailSince := now\<rparr> else next)
      in (next, (result DecisionApplied)\<lparr>rDetail := reason_string ReasonChainOwnerGone\<rparr>))"

definition chainOwnerGone :: "State \<Rightarrow> Event \<Rightarrow> instant \<Rightarrow> partial" where
  "chainOwnerGone s e now =
     (if cOwner (sChain s) = '''' \<or> sPhase s \<noteq> PhaseLeaseDegraded \<or> sTailSince s = 0 then
        appliedPair s (rejected 0 ''guard'')
      else if ownerDirGone s then failChainOwner s now
      else
        (let hb = heartbeat s (cOwner (sChain s));
             gone = (hb = 0 \<or> time_sub now hb > EffectiveNodeGone (sParams s))
         in if \<not> gone then appliedPair s (rejected 0 ''heartbeat fresh'')
            else failChainOwner s now))"

definition chainOwnerBack :: "State \<Rightarrow> Event \<Rightarrow> instant \<Rightarrow> partial" where
  "chainOwnerBack s e now =
     (if sPhase s \<noteq> PhaseFailed \<or> sFailedReason s \<noteq> ReasonChainOwnerGone
         \<or> sDesired s \<noteq> DesiredRun then appliedPair s (rejected 0 ''guard'')
      else if eNode e \<noteq> cOwner (sChain s) \<or> \<not> Verified (sChain s)
              \<or> \<not> cVerifiedAt (sChain s) > sFailedAt s then
        appliedPair s (rejected 0 ''directory not verified after failed_at'')
      else if cannotRead s (eNode e) then appliedPair s (rejected 0 ''directory not read'')
      else
        (let hb = heartbeat s (eNode e)
         in if hb = 0 \<or> time_sub now hb > EffectiveNodeGone (sParams s) then
              appliedPair s (rejected 0 ''heartbeat'')
            else
              (let next = bump s
               in (next\<lparr>sPhase := PhaseLeaseDegraded, sFailedReason := ReasonNone,
                     sFailedAt := 0, sUnownedSince := 0\<rparr>,
                   (result DecisionApplied)\<lparr>rDetail := ''LEASE_DEGRADED''\<rparr>))))"

section \<open>Locks, renewals, sweeps\<close>

definition metaLockTimeout :: "State \<Rightarrow> Event \<Rightarrow> instant \<Rightarrow> partial" where
  "metaLockTimeout s e now =
     (s\<lparr>sMetaLockStalled := True, sHealthBlocked := True, sLockObserver := eNode e,
        sLockRecoveries := 0\<rparr>,
      (result DecisionApplied)\<lparr>rIntents := [(intent IntentClusterFinding)\<lparr>
          iFinding := Some (finding FindingLockStalled (sTaskID s) SeverityZero True)\<rparr>],
        rDetail := ''META_LOCK_STALLED''\<rparr>)"

definition renew :: "State \<Rightarrow> Event \<Rightarrow> instant \<Rightarrow> partial" where
  "renew s e now =
     (if \<not> lPresent (sLease s) \<or> lOwner (sLease s) \<noteq> eNode e \<or> lEpoch (sLease s) \<noteq> eEpoch e then
        appliedPair s ((result DecisionDiscarded)\<lparr>rDetail := ''renew''\<rparr>)
      else
        (s\<lparr>sLease := (sLease s)\<lparr>lExpireAt := now + pLeaseTTL (sParams s), lRenewedAt := now\<rparr>\<rparr>,
         (result DecisionApplied)\<lparr>rDetail := ''renew''\<rparr>))"

definition sweep :: "State \<Rightarrow> Event \<Rightarrow> instant \<Rightarrow> partial" where
  "sweep s e now =
     (s\<lparr>sEvaluatedAt := now, sLastSweep := now\<rparr>, (result DecisionApplied)\<lparr>rDetail := ''sweep''\<rparr>)"

definition recoverLock :: "State \<Rightarrow> Event \<Rightarrow> instant \<Rightarrow> State" where
  "recoverLock s e now =
     (if sMetaLockStalled s \<and> eNode e = sLockObserver s then
        (let within = (sLockRecoveries s > 0 \<and> kHeldBy (sLock s) = eNode e
               \<and> \<not> now > kSince (sLock s) + pLockWait (sParams s));
             s = (if within then s\<lparr>sLockRecoveries := sLockRecoveries s + 1\<rparr>
                  else s\<lparr>sLockRecoveries := 1\<rparr>)
         in if sLockRecoveries s \<ge> 2 then
              s\<lparr>sMetaLockStalled := False, sHealthBlocked := False, sLockRecoveries := 0\<rparr>
            else s)
      else s)"

definition takeLock :: "State \<Rightarrow> Event \<Rightarrow> instant \<Rightarrow> partial" where
  "takeLock s e now =
     (if kHeld (sLock s) \<and> kHeldBy (sLock s) \<noteq> '''' \<and> kHeldBy (sLock s) \<noteq> eNode e then
        appliedPair s (rejected 0 ''lock held'')
      else
        ((recoverLock s e now)\<lparr>sLock := \<lparr>kHeld = True, kHeldBy = eNode e, kSince = now\<rparr>\<rparr>,
         (result DecisionApplied)\<lparr>rDetail := ''lock'', rLocksTaskLease := True\<rparr>))"

definition legacyUpdate :: "State \<Rightarrow> partial" where
  "legacyUpdate s =
     (s\<lparr>sMixedVersion := True\<rparr>, (result DecisionApplied)\<lparr>rDetail := ''MIXED_VERSION''\<rparr>)"

section \<open>The transition\<close>

definition prepare :: "State \<Rightarrow> instant \<Rightarrow> State" where
  "prepare s now =
     (let s = s\<lparr>sParams := fill (sParams s)\<rparr>;
          s = (if kHeld (sLock s) \<and> kSince (sLock s) \<noteq> 0
                  \<and> \<not> now < kSince (sLock s) + pIdleKill (sParams s)
               then s\<lparr>sLock := zero_lock\<rparr> else s)
      in if sTaskID s = '''' then s\<lparr>sTaskID := ''task''\<rparr> else s)"

definition handle :: "State \<Rightarrow> Event \<Rightarrow> instant \<Rightarrow> partial" where
  "handle s e now =
     (case eKind e of
        EventOperatorStart \<Rightarrow> operatorStart s e now
      | EventOperatorStop \<Rightarrow> operatorStop s e now
      | EventOperatorDelete \<Rightarrow> operatorDelete s e now
      | EventStopConfirmed \<Rightarrow> stopConfirmed s e now
      | EventStopExpired \<Rightarrow> stopExpired s e now
      | EventAcquire \<Rightarrow> acquire s e now
      | EventLeaseExpired \<Rightarrow> acquire s e now
      | EventDumpReady \<Rightarrow> dumpReady s e now
      | EventRetryableError \<Rightarrow> retryable s e now
      | EventTerminalError \<Rightarrow> terminal s e now
      | EventTailUnreadable \<Rightarrow> tailUnreadable s e now
      | EventEpochLost \<Rightarrow> epochLost s e now
      | EventChainVerified \<Rightarrow> chainVerified s e now
      | EventChainOwnerGone \<Rightarrow> chainOwnerGone s e now
      | EventChainOwnerBack \<Rightarrow> chainOwnerBack s e now
      | EventMetaLockTimeout \<Rightarrow> metaLockTimeout s e now
      | EventRenew \<Rightarrow> renew s e now
      | EventSweep \<Rightarrow> sweep s e now
      | EventLock \<Rightarrow> takeLock s e now
      | EventEvalDirFailed \<Rightarrow> appliedPair s (rejected 0 ''directory not read'')
      | EventLegacyUpdate \<Rightarrow> legacyUpdate s
      | EventUnknown \<Rightarrow> appliedPair s (rejected 0 ''unknown event''))"

definition Step :: "State \<Rightarrow> Event \<Rightarrow> instant \<Rightarrow> Result" where
  "Step s e now =
     (let s = prepare s now
      in if sDeleted s \<and> eKind e \<noteq> EventSweep then
           (result DecisionDiscarded)\<lparr>rState := s, rZeroRow := True, rDetail := ''deleted''\<rparr>
         else finish s e now (handle s e now))"

end
