(* ===== verification/Own_Check.thy ===== *)
theory Own_Check
  imports Own_Step
begin

text \<open>
  The checker of \<open>internal/ownership/invariant.go\<close>: the state predicate \<open>Check\<close>
  (invariants 1, 2, 4, 5, 6, 7, 9 and 10), the transition predicate \<open>CheckStep\<close>, the
  progress clock replayed from the applied-event trace, and the liveness end states. A
  violation is a value; a state is accepted when the list is empty.
\<close>

record Violation =
  vInvariant :: string
  vDetail :: string

definition viol :: "bool \<Rightarrow> string \<Rightarrow> string \<Rightarrow> Violation list" where
  "viol fail i msg = emit fail \<lparr>vInvariant = i, vDetail = msg\<rparr>"

definition dropInv :: "Violation list \<Rightarrow> string \<Rightarrow> Violation list" where
  "dropInv v i = filter (\<lambda>x. vInvariant x \<noteq> i) v"

definition epochFenced :: "Kind \<Rightarrow> bool" where
  "epochFenced k \<longleftrightarrow> k \<in> {EventDumpReady, EventRetryableError, EventTerminalError,
     EventTailUnreadable, EventEpochLost, EventStopConfirmed, EventRenew}"

section \<open>The progress clock replayed from the trace\<close>

record Replay =
  rpAnchor :: instant
  rpUnownedSince :: instant
  rpPrevAcquired :: instant
  rpHavePrev :: bool

definition zero_trace :: TraceEvent where
  "zero_trace = \<lparr>tKind = EventUnknown, tAt = 0, tPhase = PhaseZero, tDesired = DesiredZero,
     tDeleted = False, tOwner = '''', tExpire = 0, tAcquired = 0, tPresent = False,
     tRetryAttempt = 0, tRetryUntil = 0\<rparr>"

definition trace_live :: "TraceEvent \<Rightarrow> instant \<Rightarrow> bool" where
  "trace_live ev now \<longleftrightarrow> tPresent ev \<and> tOwner ev \<noteq> '''' \<and> tExpire ev > now"

definition trace_legal :: "TraceEvent \<Rightarrow> instant \<Rightarrow> bool" where
  "trace_legal ev now \<longleftrightarrow> tPhase ev = PhaseRetryBackoff \<and> \<not> tDeleted ev
     \<and> tRetryAttempt ev < RetryBudget \<and> tRetryUntil ev \<noteq> 0 \<and> tRetryUntil ev > now"

definition replay_event :: "TraceEvent \<Rightarrow> Replay \<Rightarrow> Replay" where
  "replay_event ev r =
     (let live = trace_live ev (tAt ev);
          legal = trace_legal ev (tAt ev);
          unowned = (tDesired ev = DesiredRun \<and> \<not> live \<and> \<not> legal \<and> tPhase ev \<noteq> PhaseCreated
             \<and> tPhase ev \<noteq> PhaseStopped \<and> tPhase ev \<noteq> PhaseFailed \<and> \<not> tDeleted ev);
          since = (if unowned then (if rpUnownedSince r = 0 then tAt ev else rpUnownedSince r)
                   else 0);
          anchor = (if tKind ev = EventDumpReady \<and> tPhase ev = PhaseRunning then tAt ev
                    else rpAnchor r);
          acquiredChanged = (\<not> rpHavePrev r \<or> tAcquired ev \<noteq> rpPrevAcquired r);
          anchor = (if acquiredChanged \<and> (tKind ev = EventAcquire \<or> tKind ev = EventLeaseExpired
                        \<or> tKind ev = EventOperatorStart) then 0 else anchor)
      in \<lparr>rpAnchor = anchor, rpUnownedSince = since, rpPrevAcquired = tAcquired ev,
          rpHavePrev = True\<rparr>)"

definition replay_start :: Replay where
  "replay_start = \<lparr>rpAnchor = 0, rpUnownedSince = 0, rpPrevAcquired = 0, rpHavePrev = False\<rparr>"

definition replayProgress :: "TraceEvent list \<Rightarrow> instant \<times> instant \<times> TraceEvent" where
  "replayProgress trace =
     (let r = fold replay_event trace replay_start
      in (rpAnchor r, rpUnownedSince r, if trace = [] then zero_trace else last trace))"

definition ProgressOverdue :: "State \<Rightarrow> instant \<Rightarrow> bool" where
  "ProgressOverdue s now =
     (if sTrace s = [] then False
      else
        (let (anchor, unownedSince, snap) = replayProgress (sTrace s);
             p = fill (sParams s);
             live = trace_live snap now;
             legal = trace_legal snap now
         in if tDeleted snap \<or> tDesired snap \<noteq> DesiredRun \<or> tPhase snap = PhaseFailed
               \<or> tPhase snap = PhaseCreated then False
            else if \<not> live \<and> \<not> legal \<and> tPhase snap \<noteq> PhaseStopped then
              (if unownedSince = 0 then False else \<not> now < unownedSince + pSweep p)
            else if live then
              (let anchor = (if anchor = 0 then tAcquired snap else anchor)
               in anchor \<noteq> 0 \<and> time_sub now anchor > pNoProgressAfter p)
            else False))"

section \<open>The state predicate\<close>

definition failed_allowed :: "FailedReason \<Rightarrow> bool" where
  "failed_allowed r \<longleftrightarrow> r \<in> {ReasonSourceAuth, ReasonLogBinOff, ReasonSourceSwitchover,
     ReasonSourceUnreachable, ReasonChainOwnerGone, ReasonLegacyUnknown}"

definition failed_spec_bad :: "State \<Rightarrow> bool" where
  "failed_spec_bad s \<longleftrightarrow>
     sFailedReason s \<in> {ReasonSourceAuth, ReasonLogBinOff, ReasonSourceSwitchover,
       ReasonSourceUnreachable, ReasonLegacyUnknown}
     \<and> sSpecRevision s > 0 \<and> (sFailedSpec s = 0 \<or> sFailedSpec s > sSpecRevision s)"

definition check_failed :: "State \<Rightarrow> Violation list" where
  "check_failed s =
     (if sPhase s = PhaseFailed then
        viol (\<not> failed_allowed (sFailedReason s)) ''2''
          (''FAILED reason '' @ reason_string (sFailedReason s) @ '' is outside the allowlist'')
        @ viol (failed_spec_bad s) ''2'' ''terminal FAILED did not record failed_spec_revision''
      else viol (sFailedSpec s \<noteq> 0) ''2'' ''failed_spec_revision set outside FAILED'')"

definition check_refusal :: "Storage \<Rightarrow> string \<times> Refusal \<Rightarrow> Violation list" where
  "check_refusal st x =
     (case x of (nd, r) \<Rightarrow>
        if rfOpenEnded r then
          viol (rfReason r \<noteq> RefusalTail \<or> st \<noteq> StoragePerNode) ''2''
            (''NULL refusal on '' @ nd @ '' is not per_node TailUnreadable'')
          @ viol (rfUntil r \<noteq> 0) ''10'' (''NULL refusal on '' @ nd @ '' also has a deadline'')
        else viol (rfUntil r = 0) ''10''
               (''refusal on '' @ nd @ '' has neither a deadline nor NULL''))"

definition check_chain :: "State \<Rightarrow> Violation list" where
  "check_chain s =
     viol (Verified (sChain s) \<and> cOwner (sChain s) = '''') ''4'' ''verified chain has an empty owner''
     @ viol (cVerifiedAt (sChain s) = 0 \<and> (cMissingSealed (sChain s) \<or> cUnreadable (sChain s)))
         ''4'' ''unverified chain carries a directory finding fact''"

fun check_dups :: "string list \<Rightarrow> Finding list \<Rightarrow> Violation list" where
  "check_dups seen [] = []"
| "check_dups seen (f # fs) =
     viol (finding_key f \<in> set seen) ''5'' (''duplicate finding '' @ finding_key f)
     @ check_dups (finding_key f # seen) fs"

definition check_findings :: "State \<Rightarrow> Violation list" where
  "check_findings s =
     viol ((sDesired s = DesiredRun \<and> sTailSince s \<noteq> 0) \<noteq> hasFinding s FindingTail (sTaskID s))
       ''5'' ''tail finding does not match tail_unreadable_since''
     @ viol (Verified (sChain s)
             \<and> cMissingSealed (sChain s) \<noteq> hasFinding s FindingMissing (sTaskID s))
       ''5'' ''SEGMENT_MISSING does not match the verified directory''
     @ viol (Verified (sChain s)
             \<and> cUnreadable (sChain s) \<noteq> hasFinding s FindingUnreadable (sTaskID s))
       ''5'' ''SEGMENT_UNREADABLE does not match the verified directory''
     @ check_dups [] (sFindings s)"

definition Check :: "State \<Rightarrow> instant \<Rightarrow> Violation list" where
  "Check s now =
     (if sDeleted s then []
      else
        viol (sDesired s \<noteq> DesiredRun \<and> sDesired s \<noteq> DesiredStop) ''1''
          ''desired is neither RUN nor STOP''
        @ viol ((sDesired s = DesiredStop) \<noteq> sStoppedByOperator s) ''1''
          ''desired STOP is not exactly the operator stop flag''
        @ check_failed s
        @ concat (map (check_refusal (pStorage (sParams s))) (sRefusal s))
        @ check_chain s
        @ check_findings s
        @ viol (\<not> Covered s now) ''9''
            (''phase '' @ phase_string (sPhase s) @ '' desired '' @ desired_string (sDesired s)
             @ '' is outside both unions'')
        @ viol (criticalOpen s \<and> HealthCode s now \<noteq> 503) ''7''
            ''open CRITICAL finding but /api/health is not 503''
        @ viol (sMetaLockStalled s \<and> HealthCode s now \<noteq> 503) ''6''
            ''META_LOCK_STALLED but /api/health is not 503''
        @ viol (ProgressOverdue s now \<noteq> hasFinding s FindingNoProgress (sTaskID s)) ''7''
            ''TASK_NO_PROGRESS does not match the sweep and no_progress_after clocks'')"

section \<open>The transition predicate\<close>

definition row_moved :: "State \<Rightarrow> State \<Rightarrow> bool" where
  "row_moved before after \<longleftrightarrow>
     lEpoch (sLease before) \<noteq> lEpoch (sLease after) \<or> sRowGeneration before \<noteq> sRowGeneration after"

definition moved :: "State \<Rightarrow> State \<Rightarrow> bool" where
  "moved before after \<longleftrightarrow>
     sPhase before \<noteq> sPhase after \<or> sDesired before \<noteq> sDesired after \<or> row_moved before after"

definition local_cause :: "Cause \<Rightarrow> bool" where
  "local_cause c \<longleftrightarrow> c \<in> {CauseENOENT, CauseENOSPC, CauseEROFS, CauseUnclassified,
     CauseWriteFenced, CauseLeaseUnreadable}"

definition check_desired_failed :: "State \<Rightarrow> State \<Rightarrow> Event \<Rightarrow> Result \<Rightarrow> Violation list" where
  "check_desired_failed before after e res =
     (let becameFailed = (sPhase after = PhaseFailed \<and> sPhase before \<noteq> PhaseFailed)
      in viol (sDesired before \<noteq> DesiredStop \<and> sDesired after = DesiredStop
               \<and> eKind e \<noteq> EventOperatorStop \<and> eKind e \<noteq> EventOperatorDelete)
           ''1'' ''non-operator event wrote desired STOP''
         @ viol (sDesired before = DesiredStop \<and> sDesired after = DesiredRun
               \<and> rDecision res = DecisionApplied \<and> eKind e \<noteq> EventOperatorStart)
           ''1'' ''event cleared desired STOP''
         @ viol (becameFailed \<and> eKind e \<noteq> EventTerminalError \<and> eKind e \<noteq> EventChainOwnerGone)
           ''2'' ''event entered FAILED''
         @ viol (becameFailed \<and> local_cause (eCause e)) ''2''
             (''local cause '' @ cause_string (eCause e) @ '' became FAILED''))"

definition check_fence :: "State \<Rightarrow> State \<Rightarrow> Event \<Rightarrow> Result \<Rightarrow> instant \<Rightarrow> Violation list" where
  "check_fence before after e res now =
     (let was_dropped = (rDecision res = DecisionDiscarded \<or> rDecision res = DecisionReread
            \<or> rDecision res = DecisionRejected);
          becameFailed = (sPhase after = PhaseFailed \<and> sPhase before \<noteq> PhaseFailed)
      in viol (was_dropped \<and> moved before after) ''3'' ''a dropped event wrote the task row''
         @ viol (LeaseLive before now \<and> lOwner (sLease after) \<noteq> ''''
                 \<and> lOwner (sLease after) \<noteq> lOwner (sLease before))
             ''3'' ''another node took a live lease''
         @ viol (eKind e = EventStopExpired \<and> rDecision res = DecisionApplied \<and> LeaseLive before now)
             ''3'' ''StopExpired applied while the lease was live''
         @ viol (rDecision res = DecisionApplied \<and> epochFenced (eKind e)
                 \<and> (eNode e \<noteq> lOwner (sLease before) \<or> eEpoch e \<noteq> lEpoch (sLease before)))
             ''3'' ''runner event applied without the current owner and epoch''
         @ viol (becameFailed \<and> eKind e = EventChainOwnerGone
                 \<and> (sPhase before \<noteq> PhaseLeaseDegraded \<or> sTailSince before = 0))
             ''2'' ''ChainOwnerGone entered FAILED outside LEASE_DEGRADED with a tail'')"

definition check_chain_write :: "State \<Rightarrow> State \<Rightarrow> Event \<Rightarrow> Result \<Rightarrow> Violation list" where
  "check_chain_write before after e res =
     (let chainMoved = (cOwner (sChain before) \<noteq> cOwner (sChain after)
            \<or> cVerifiedAt (sChain before) \<noteq> cVerifiedAt (sChain after))
      in viol (chainMoved \<and> \<not> (eKind e = EventChainVerified \<and> eReadOK e \<and> \<not> eIncomplete e
                 \<and> rDecision res = DecisionApplied) \<and> \<not> sDeleted after)
           ''4'' ''chain changed without ChainVerified'')"

definition check_reopen :: "Result \<Rightarrow> Violation list" where
  "check_reopen res =
     concat (map (\<lambda>f. viol (list_ex (\<lambda>g. finding_key g = finding_key f) (rOpened res)) ''5''
       (''finding '' @ finding_string (fName f) @ '' closed and opened in one step'')) (rClosed res))"

definition check_http :: "State \<Rightarrow> State \<Rightarrow> Result \<Rightarrow> Violation list" where
  "check_http before after res =
     viol (rHTTP res \<ge> 400 \<and> (moved before after
             \<or> lOwner (sLease before) \<noteq> lOwner (sLease after)
             \<or> sPendingDelete before \<noteq> sPendingDelete after))
       ''8'' ''HTTP error still changed the row''
     @ viol (rHTTP res = 400) ''8'' ''operator HTTP is 400''"

definition check_start :: "State \<Rightarrow> State \<Rightarrow> Event \<Rightarrow> Result \<Rightarrow> Violation list" where
  "check_start before after e res =
     (if eKind e = EventOperatorStart then
        (if rHTTP res = 204 \<and> rDecision res = DecisionApplied then
           (let keptStop = (eOwnerless e \<and> sPhase before = PhaseStopping \<and> \<not> sPendingDelete before)
            in viol (keptStop \<and> (sPhase after \<noteq> PhaseStopping \<or> sDesired after \<noteq> DesiredRun
                      \<or> lOwner (sLease after) \<noteq> lOwner (sLease before)
                      \<or> lEpoch (sLease after) \<noteq> lEpoch (sLease before)
                      \<or> sSpecRevision after \<noteq> sSpecRevision before + 1))
                 ''8'' ''ownerless Start during STOPPING did not keep the lease''
               @ viol (\<not> keptStop \<and> (sPhase after \<noteq> PhaseStarting \<or> sDesired after \<noteq> DesiredRun
                      \<or> sRunID after \<noteq> ''''))
                 ''8'' ''advancing Start did not commit STARTING''
               @ viol (eOwnerless e \<and> \<not> keptStop \<and> (lOwner (sLease after) \<noteq> ''''
                      \<or> lEpoch (sLease after) \<noteq> lEpoch (sLease before)))
                 ''8'' ''ownerless Start took a lease''
               @ viol (\<not> eOwnerless e \<and> lOwner (sLease after) = '''')
                 ''8'' ''advancing Start did not commit STARTING with an owner''
               @ viol (sTailSince after \<noteq> sTailSince before)
                 ''5'' ''OperatorStart cleared tail_unreadable_since'')
         else [])
        @ viol (rDecision res = DecisionIdempotent
                \<and> (sSpecRevision before \<noteq> sSpecRevision after \<or> row_moved before after))
            ''8'' ''idempotent Start wrote the row''
      else [])"

definition CheckStep :: "State \<Rightarrow> State \<Rightarrow> Event \<Rightarrow> Result \<Rightarrow> instant \<Rightarrow> Violation list" where
  "CheckStep before after e res now =
     (if rDecision res \<noteq> DecisionApplied then dropInv (Check after now) ''7''
      else Check after now)
     @ check_desired_failed before after e res
     @ check_fence before after e res now
     @ check_chain_write before after e res
     @ check_reopen res
     @ check_http before after res
     @ check_start before after e res"

section \<open>Liveness end states\<close>

definition nodeReady :: "State \<Rightarrow> string \<Rightarrow> bool" where
  "nodeReady s i = (case node s i of Some n \<Rightarrow> nCanRead n \<and> \<not> nStopped n | None \<Rightarrow> False)"

definition fairRunning :: "State \<Rightarrow> instant \<Rightarrow> bool" where
  "fairRunning s now =
     (if kHeld (sLock s) \<or> sPhase s \<noteq> PhaseRunning \<or> sDesired s \<noteq> DesiredRun then False
      else if \<not> LeaseLive s now then False
      else nodeReady s (lOwner (sLease s)))"

definition FairTerminal :: "State \<Rightarrow> instant \<Rightarrow> bool" where
  "FairTerminal s now =
     (if fairRunning s now then True
      else if sPhase s \<noteq> PhaseFailed then False
      else if sFailedReason s \<in> {ReasonSourceAuth, ReasonLogBinOff, ReasonSourceSwitchover,
                ReasonSourceUnreachable, ReasonStorageInconsistent, ReasonLegacyUnknown}
      then \<not> InClaimSet s now
      else if sFailedReason s = ReasonChainOwnerGone then
        (case node s (cOwner (sChain s)) of
           None \<Rightarrow> True
         | Some n \<Rightarrow> nStopped n \<or> \<not> nCanRead n)
      else False)"

definition fairReader :: "State \<Rightarrow> instant \<Rightarrow> string" where
  "fairReader s now =
     (if lPresent (sLease s) \<and> lOwner (sLease s) \<noteq> '''' \<and> lExpireAt (sLease s) > now
         \<and> nodeReady s (lOwner (sLease s))
      then lOwner (sLease s)
      else case find (\<lambda>n. nodeReady s (nID n)) (sNodes s) of
             Some n \<Rightarrow> nID n
           | None \<Rightarrow> '''')"

definition operatorFailed :: "FailedReason \<Rightarrow> bool" where
  "operatorFailed r \<longleftrightarrow> r \<in> {ReasonSourceAuth, ReasonLogBinOff, ReasonSourceSwitchover,
     ReasonSourceUnreachable, ReasonStorageInconsistent, ReasonLegacyUnknown,
     ReasonChainOwnerGone}"

end
