(* ===== verification/Own_Inv.thy ===== *)
theory Own_Inv
  imports Own_Check
begin

text \<open>
  The inductive invariant of the ownership transition and that every handler keeps it. The
  invariant is the part of \<open>Check\<close> that is a fact of the row (\<open>row_ok\<close>), the findings
  being the ones derived from the row (\<open>findings_ok\<close>), and the clocks of the row agreeing
  with the clocks replayed from the applied-event trace (\<open>clock_ok\<close>).
\<close>

named_theorems own_handlers \<open>the handlers of the transition\<close>

section \<open>What the bookkeeping leaves alone\<close>

lemma bump_sel [simp]:
  "sTaskID (bump s) = sTaskID s" "sPhase (bump s) = sPhase s" "sDesired (bump s) = sDesired s"
  "sSpecRevision (bump s) = sSpecRevision s" "sRowGeneration (bump s) = sRowGeneration s + 1"
  "sRetryAttempt (bump s) = sRetryAttempt s" "sRetryUntil (bump s) = sRetryUntil s"
  "sFailedReason (bump s) = sFailedReason s" "sFailedAt (bump s) = sFailedAt s"
  "sFailedSpec (bump s) = sFailedSpec s" "sTailSince (bump s) = sTailSince s"
  "sPendingDelete (bump s) = sPendingDelete s"
  "sStoppedByOperator (bump s) = sStoppedByOperator s" "sLease (bump s) = sLease s"
  "sChain (bump s) = sChain s" "sRefusal (bump s) = sRefusal s" "sFindings (bump s) = sFindings s"
  "sNodes (bump s) = sNodes s" "sUnownedSince (bump s) = sUnownedSince s"
  "sProgressAt (bump s) = sProgressAt s" "sNoProgress (bump s) = sNoProgress s"
  "sHealthBlocked (bump s) = sHealthBlocked s" "sMetaLockStalled (bump s) = sMetaLockStalled s"
  "sDeleted (bump s) = sDeleted s" "sTrace (bump s) = sTrace s" "sParams (bump s) = sParams s"
  "sRunID (bump s) = sRunID s"
  by (simp_all add: bump_def)

lemma release_sel [simp]:
  "sTaskID (release s now) = sTaskID s" "sPhase (release s now) = sPhase s"
  "sDesired (release s now) = sDesired s" "sSpecRevision (release s now) = sSpecRevision s"
  "sRowGeneration (release s now) = sRowGeneration s"
  "sRetryAttempt (release s now) = sRetryAttempt s" "sRetryUntil (release s now) = sRetryUntil s"
  "sFailedReason (release s now) = sFailedReason s" "sFailedAt (release s now) = sFailedAt s"
  "sFailedSpec (release s now) = sFailedSpec s" "sTailSince (release s now) = sTailSince s"
  "sPendingDelete (release s now) = sPendingDelete s"
  "sStoppedByOperator (release s now) = sStoppedByOperator s"
  "sLease (release s now) = (sLease s)\<lparr>lOwner := '''', lExpireAt := now\<rparr>"
  "sChain (release s now) = sChain s" "sRefusal (release s now) = sRefusal s"
  "sNodes (release s now) = sNodes s" "sUnownedSince (release s now) = sUnownedSince s"
  "sProgressAt (release s now) = sProgressAt s"
  "sHealthBlocked (release s now) = sHealthBlocked s"
  "sMetaLockStalled (release s now) = sMetaLockStalled s"
  "sDeleted (release s now) = sDeleted s" "sTrace (release s now) = sTrace s"
  "sParams (release s now) = sParams s" "sRunID (release s now) = ''''"
  by (simp_all add: release_def)

lemma takeLease_sel [simp]:
  "sTaskID (takeLease s nd now) = sTaskID s" "sPhase (takeLease s nd now) = sPhase s"
  "sDesired (takeLease s nd now) = sDesired s"
  "sSpecRevision (takeLease s nd now) = sSpecRevision s"
  "sRowGeneration (takeLease s nd now) = sRowGeneration s"
  "sRetryAttempt (takeLease s nd now) = sRetryAttempt s"
  "sRetryUntil (takeLease s nd now) = sRetryUntil s"
  "sFailedReason (takeLease s nd now) = sFailedReason s"
  "sFailedAt (takeLease s nd now) = sFailedAt s"
  "sFailedSpec (takeLease s nd now) = sFailedSpec s" "sTailSince (takeLease s nd now) = sTailSince s"
  "sPendingDelete (takeLease s nd now) = sPendingDelete s"
  "sStoppedByOperator (takeLease s nd now) = sStoppedByOperator s"
  "sChain (takeLease s nd now) = sChain s" "sRefusal (takeLease s nd now) = sRefusal s"
  "sNodes (takeLease s nd now) = sNodes s" "sUnownedSince (takeLease s nd now) = sUnownedSince s"
  "sHealthBlocked (takeLease s nd now) = sHealthBlocked s"
  "sMetaLockStalled (takeLease s nd now) = sMetaLockStalled s"
  "sDeleted (takeLease s nd now) = sDeleted s" "sTrace (takeLease s nd now) = sTrace s"
  "sParams (takeLease s nd now) = sParams s" "sRunID (takeLease s nd now) = ''''"
  by (simp_all add: takeLease_def Let_def)

lemma takeLease_lease [simp]:
  "lPresent (sLease (takeLease s nd now))" "lOwner (sLease (takeLease s nd now)) = nd"
  "lExpireAt (sLease (takeLease s nd now)) = now + pLeaseTTL (sParams s)"
  "lEpoch (sLease (takeLease s nd now)) =
     (if lOwner (sLease s) = nd \<and> nd \<noteq> '''' then lEpoch (sLease s) else lEpoch (sLease s) + 1)"
  "lAcquiredAt (sLease (takeLease s nd now)) =
     (if lOwner (sLease s) = nd \<and> nd \<noteq> '''' then lAcquiredAt (sLease s) else now)"
  "sProgressAt (takeLease s nd now) =
     (if lOwner (sLease s) = nd \<and> nd \<noteq> '''' then sProgressAt s else 0)"
  by (simp_all add: takeLease_def Let_def)

lemma clearRefusals_eq [simp]: "clearRefusals s = s\<lparr>sRefusal := []\<rparr>"
  by (simp add: clearRefusals_def)

lemma erase_sel [simp]:
  "sDeleted (fst (erase s))" "sTaskID (fst (erase s)) = sTaskID s"
  "sParams (fst (erase s)) = sParams s" "sDesired (fst (erase s)) = DesiredZero"
  "sPhase (fst (erase s)) = PhaseZero" "lOwner (sLease (fst (erase s))) = ''''"
  "sTrace (fst (erase s)) = []" "sRefusal (fst (erase s)) = []"
  by (simp_all add: erase_def Let_def zero_state_def zero_lease_def)

lemma yield_sel [simp]:
  "sTaskID (yield s nd now oe r) = sTaskID s" "sPhase (yield s nd now oe r) = PhaseLeaseDegraded"
  "sDesired (yield s nd now oe r) = DesiredRun"
  "sSpecRevision (yield s nd now oe r) = sSpecRevision s"
  "sRowGeneration (yield s nd now oe r) = sRowGeneration s + 1"
  "sRetryAttempt (yield s nd now oe r) = sRetryAttempt s"
  "sRetryUntil (yield s nd now oe r) = sRetryUntil s"
  "sFailedReason (yield s nd now oe r) = sFailedReason s"
  "sFailedSpec (yield s nd now oe r) = sFailedSpec s"
  "sTailSince (yield s nd now oe r) =
     (if r = RefusalTail \<and> sTailSince s = 0 then now else sTailSince s)"
  "sPendingDelete (yield s nd now oe r) = sPendingDelete s"
  "sStoppedByOperator (yield s nd now oe r) = sStoppedByOperator s"
  "sLease (yield s nd now oe r) = (sLease s)\<lparr>lOwner := '''', lExpireAt := now\<rparr>"
  "sChain (yield s nd now oe r) = sChain s" "sNodes (yield s nd now oe r) = sNodes s"
  "sUnownedSince (yield s nd now oe r) = sUnownedSince s"
  "sProgressAt (yield s nd now oe r) = sProgressAt s"
  "sHealthBlocked (yield s nd now oe r) = sHealthBlocked s"
  "sMetaLockStalled (yield s nd now oe r) = sMetaLockStalled s"
  "sDeleted (yield s nd now oe r) = sDeleted s" "sTrace (yield s nd now oe r) = sTrace s"
  "sParams (yield s nd now oe r) = sParams s"
  by (simp_all add: yield_def Let_def)

lemma recoverLock_sel [simp]:
  "sTaskID (recoverLock s e now) = sTaskID s" "sPhase (recoverLock s e now) = sPhase s"
  "sDesired (recoverLock s e now) = sDesired s"
  "sSpecRevision (recoverLock s e now) = sSpecRevision s"
  "sRowGeneration (recoverLock s e now) = sRowGeneration s"
  "sRetryAttempt (recoverLock s e now) = sRetryAttempt s"
  "sRetryUntil (recoverLock s e now) = sRetryUntil s"
  "sFailedReason (recoverLock s e now) = sFailedReason s"
  "sFailedSpec (recoverLock s e now) = sFailedSpec s"
  "sTailSince (recoverLock s e now) = sTailSince s"
  "sPendingDelete (recoverLock s e now) = sPendingDelete s"
  "sStoppedByOperator (recoverLock s e now) = sStoppedByOperator s"
  "sLease (recoverLock s e now) = sLease s" "sChain (recoverLock s e now) = sChain s"
  "sRefusal (recoverLock s e now) = sRefusal s" "sNodes (recoverLock s e now) = sNodes s"
  "sUnownedSince (recoverLock s e now) = sUnownedSince s"
  "sProgressAt (recoverLock s e now) = sProgressAt s"
  "sDeleted (recoverLock s e now) = sDeleted s" "sTrace (recoverLock s e now) = sTrace s"
  "sParams (recoverLock s e now) = sParams s"
  by (simp_all add: recoverLock_def Let_def)

lemma settle_sel [simp]:
  "sTaskID (settle e s now) = sTaskID s" "sPhase (settle e s now) = sPhase s"
  "sDesired (settle e s now) = sDesired s" "sSpecRevision (settle e s now) = sSpecRevision s"
  "sRowGeneration (settle e s now) = sRowGeneration s" "sRunID (settle e s now) = sRunID s"
  "sRetryAttempt (settle e s now) = sRetryAttempt s" "sRetryUntil (settle e s now) = sRetryUntil s"
  "sFailedReason (settle e s now) = sFailedReason s" "sFailedAt (settle e s now) = sFailedAt s"
  "sFailedSpec (settle e s now) = sFailedSpec s" "sTailSince (settle e s now) = sTailSince s"
  "sPendingDelete (settle e s now) = sPendingDelete s"
  "sStoppedByOperator (settle e s now) = sStoppedByOperator s"
  "sLease (settle e s now) = sLease s" "sChain (settle e s now) = sChain s"
  "sRefusal (settle e s now) = sRefusal s" "sNodes (settle e s now) = sNodes s"
  "sLock (settle e s now) = sLock s" "sProgressAt (settle e s now) = sProgressAt s"
  "sHealthBlocked (settle e s now) = sHealthBlocked s"
  "sMetaLockStalled (settle e s now) = sMetaLockStalled s"
  "sMixedVersion (settle e s now) = sMixedVersion s"
  "sDeleted (settle e s now) = sDeleted s" "sParams (settle e s now) = sParams s"
  by (simp_all add: settle_def noteOwnership_def Let_def)

lemma prepare_sel [simp]:
  "sPhase (prepare s now) = sPhase s" "sDesired (prepare s now) = sDesired s"
  "sSpecRevision (prepare s now) = sSpecRevision s"
  "sRowGeneration (prepare s now) = sRowGeneration s" "sRunID (prepare s now) = sRunID s"
  "sRetryAttempt (prepare s now) = sRetryAttempt s" "sRetryUntil (prepare s now) = sRetryUntil s"
  "sFailedReason (prepare s now) = sFailedReason s" "sFailedAt (prepare s now) = sFailedAt s"
  "sFailedSpec (prepare s now) = sFailedSpec s" "sTailSince (prepare s now) = sTailSince s"
  "sPendingDelete (prepare s now) = sPendingDelete s"
  "sStoppedByOperator (prepare s now) = sStoppedByOperator s"
  "sLease (prepare s now) = sLease s" "sChain (prepare s now) = sChain s"
  "sRefusal (prepare s now) = sRefusal s" "sFindings (prepare s now) = sFindings s"
  "sNodes (prepare s now) = sNodes s" "sUnownedSince (prepare s now) = sUnownedSince s"
  "sProgressAt (prepare s now) = sProgressAt s" "sNoProgress (prepare s now) = sNoProgress s"
  "sHealthBlocked (prepare s now) = sHealthBlocked s"
  "sMetaLockStalled (prepare s now) = sMetaLockStalled s"
  "sMixedVersion (prepare s now) = sMixedVersion s"
  "sDeleted (prepare s now) = sDeleted s" "sTrace (prepare s now) = sTrace s"
  "sParams (prepare s now) = fill (sParams s)"
  "sTaskID (prepare s now) = (if sTaskID s = '''' then ''task'' else sTaskID s)"
  by (simp_all add: prepare_def Let_def)

lemma result_sel [simp]:
  "rDecision (result d) = d" "rHTTP (result d) = 0" "rOpened (result d) = []"
  "rClosed (result d) = []" "rIntents (result d) = []"
  by (simp_all add: result_def)

lemma rejected_sel [simp]:
  "rDecision (rejected h d) = DecisionRejected" "rHTTP (rejected h d) = h"
  "rOpened (rejected h d) = []" "rClosed (rejected h d) = []"
  by (simp_all add: rejected_def)

lemma appliedPair_sel [simp]: "fst (appliedPair s r) = s" "snd (appliedPair s r) = r"
  by (simp_all add: appliedPair_def)

lemma dropped_sel [simp]:
  "fst (dropped s k) = s" "rDecision (snd (dropped s k)) \<noteq> DecisionApplied"
  "rHTTP (snd (dropped s k)) = 0" "rDecision (snd (dropped s k)) \<noteq> DecisionIdempotent"
  "rOpened (snd (dropped s k)) = []" "rClosed (snd (dropped s k)) = []"
  by (cases k; simp add: dropped_def)+

lemma fence_ok:
  "fence s e = fenceOK \<longleftrightarrow> \<not> sDeleted s \<and> lPresent (sLease s) \<and> lEpoch (sLease s) = eEpoch e
     \<and> lOwner (sLease s) \<noteq> '''' \<and> lOwner (sLease s) = eNode e \<and> eRowGeneration e = sRowGeneration s"
  by (auto simp: fence_def)

section \<open>The invariant of the row\<close>

text \<open>The wish is a function of the phase; a failed or degraded row has no owner; only a
  stopping row can be waiting for its deletion.\<close>

fun desired_of :: "Phase \<Rightarrow> Desired" where
  "desired_of PhaseStopping = DesiredStop"
| "desired_of PhaseStopped = DesiredStop"
| "desired_of PhaseZero = DesiredZero"
| "desired_of _ = DesiredRun"

definition phase_ok :: "State \<Rightarrow> bool" where
  "phase_ok s \<longleftrightarrow>
     sPhase s \<noteq> PhaseZero
     \<and> sDesired s = desired_of (sPhase s)
     \<and> sStoppedByOperator s = (sDesired s = DesiredStop)
     \<and> (sPhase s = PhaseFailed \<or> sPhase s = PhaseLeaseDegraded \<longrightarrow> lOwner (sLease s) = '''')
     \<and> (sPendingDelete s \<longrightarrow> sPhase s = PhaseStopping)"

text \<open>A failed row names an allowed reason and the spec revision it failed at.\<close>

definition failed_ok :: "State \<Rightarrow> bool" where
  "failed_ok s \<longleftrightarrow>
     0 \<le> sSpecRevision s
     \<and> (if sPhase s = PhaseFailed then
          failed_allowed (sFailedReason s)
          \<and> (if sFailedReason s = ReasonChainOwnerGone then sFailedSpec s = 0
             else sFailedSpec s = sSpecRevision s)
        else sFailedSpec s = 0)"

definition refusal_ok :: "Storage \<Rightarrow> Refusal \<Rightarrow> bool" where
  "refusal_ok st r \<longleftrightarrow>
     (if rfOpenEnded r then rfReason r = RefusalTail \<and> st = StoragePerNode \<and> rfUntil r = 0
      else rfUntil r \<noteq> 0)"

definition refusals_ok :: "State \<Rightarrow> bool" where
  "refusals_ok s \<longleftrightarrow>
     distinct (map fst (sRefusal s))
     \<and> (\<forall>x \<in> set (sRefusal s). refusal_ok (pStorage (fill (sParams s))) (snd x))"

definition facts_ok :: "State \<Rightarrow> bool" where
  "facts_ok s \<longleftrightarrow>
     sTaskID s \<noteq> ''''
     \<and> pRefusalRetryCap (fill (sParams s)) \<le> max_int64
     \<and> (cVerifiedAt (sChain s) \<noteq> 0 \<longrightarrow> cOwner (sChain s) \<noteq> '''')
     \<and> (cVerifiedAt (sChain s) = 0 \<longrightarrow> \<not> cMissingSealed (sChain s) \<and> \<not> cUnreadable (sChain s))
     \<and> (sMetaLockStalled s \<longrightarrow> sHealthBlocked s)"

definition row_ok :: "State \<Rightarrow> bool" where
  "row_ok s \<longleftrightarrow> \<not> sDeleted s \<longrightarrow> phase_ok s \<and> failed_ok s \<and> refusals_ok s \<and> facts_ok s"

lemmas row_defs = row_ok_def phase_ok_def failed_ok_def refusals_ok_def facts_ok_def

lemma row_ok_settle [simp]: "row_ok (settle e s now) \<longleftrightarrow> row_ok s"
  by (simp add: row_defs)

lemma parts_ok_prepare [simp]:
  "phase_ok (prepare s now) \<longleftrightarrow> phase_ok s" "failed_ok (prepare s now) \<longleftrightarrow> failed_ok s"
  "refusals_ok (prepare s now) \<longleftrightarrow> refusals_ok s" "facts_ok s \<Longrightarrow> facts_ok (prepare s now)"
  by (simp_all add: row_defs)

lemma row_ok_prepare: "row_ok s \<Longrightarrow> row_ok (prepare s now)"
  by (simp add: row_ok_def)

text \<open>What the refusal written by \<open>yield\<close> looks like.\<close>

lemma yield_refusal:
  obtains q n where "sRefusal (yield s nd now oe r) = AList.update nd q (sRefusal s)"
    and "rfReason q = r" and "rfOpenEnded q = oe" and "rfAttempts q \<le> maxRefusalAttempts"
    and "rfUntil q = (if oe then 0 else
           now + RefusalDelay n (pClaimInterval (sParams s)) (pRefusalRetryCap (sParams s)))"
proof -
  define q0 where "q0 = (case map_of (sRefusal s) nd of Some r \<Rightarrow> r | None \<Rightarrow> zero_refusal)"
  define n where "n = (if rfAttempts q0 + 1 > maxRefusalAttempts then maxRefusalAttempts
                       else rfAttempts q0 + 1)"
  define q where "q = q0\<lparr>rfReason := r, rfAttempts := n, rfOpenEnded := oe,
    rfUntil := (if oe then 0 else
       now + RefusalDelay n (pClaimInterval (sParams s)) (pRefusalRetryCap (sParams s)))\<rparr>"
  have "sRefusal (yield s nd now oe r) = AList.update nd q (sRefusal s)"
    by (cases "r = RefusalTail \<and> sTailSince s = 0"; cases oe)
      (simp_all add: yield_def Let_def q_def n_def q0_def)
  then show thesis by (rule that [of q n]) (simp_all add: q_def n_def)
qed

lemma refusals_ok_yield:
  assumes "refusals_ok s" and "pRefusalRetryCap (fill (sParams s)) \<le> max_int64" and "0 < now"
    and fill: "fill (sParams s) = sParams s"
    and "oe \<Longrightarrow> r = RefusalTail \<and> pStorage (sParams s) = StoragePerNode"
  shows "refusals_ok (yield s nd now oe r)"
proof -
  obtain q n where q: "sRefusal (yield s nd now oe r) = AList.update nd q (sRefusal s)"
    and f: "rfReason q = r" "rfOpenEnded q = oe"
      "rfUntil q = (if oe then 0 else
           now + RefusalDelay n (pClaimInterval (sParams s)) (pRefusalRetryCap (sParams s)))"
    by (rule yield_refusal)
  have "0 < RefusalDelay n (pClaimInterval (sParams s)) (pRefusalRetryCap (sParams s))"
    using assms(2) unfolding fill by (rule RefusalDelay_pos)
  then have "refusal_ok (pStorage (fill (sParams s))) q"
    using assms(3,5) f unfolding fill by (simp add: refusal_ok_def)
  then show ?thesis
    using assms(1) set_alist_update_subset [of nd q "sRefusal s"]
    by (auto simp: refusals_ok_def q distinct_update dest!: subsetD)
qed

section \<open>Every handler keeps the invariant of the row\<close>

definition clean_event :: "State \<Rightarrow> Event \<Rightarrow> bool" where
  "clean_event s e \<longleftrightarrow>
     \<not> (eKind e = EventOperatorStart \<and> eOwnerless e \<and> sPhase s \<in> {PhaseStopping, PhaseFailed})
     \<and> \<not> (eKind e = EventTerminalError \<and> eCause e = CauseStorageInconsistent)
     \<and> \<not> (eKind e = EventChainOwnerGone \<and> local_cause (eCause e))"

definition ready :: "State \<Rightarrow> instant \<Rightarrow> bool" where
  "ready s now \<longleftrightarrow> phase_ok s \<and> failed_ok s \<and> refusals_ok s \<and> facts_ok s \<and> \<not> sDeleted s
     \<and> fill (sParams s) = sParams s \<and> 0 < now"

lemma row_ok_deleted: "sDeleted s \<Longrightarrow> row_ok s"
  by (simp add: row_ok_def)

lemma ready_row: "ready s now \<Longrightarrow> row_ok s"
  by (simp add: ready_def row_ok_def)

lemma desired_of_stop [simp]: "desired_of p = DesiredStop \<longleftrightarrow> p = PhaseStopping \<or> p = PhaseStopped"
  by (cases p) auto

lemma desired_of_run [simp]:
  "desired_of p = DesiredRun \<longleftrightarrow> p \<noteq> PhaseStopping \<and> p \<noteq> PhaseStopped \<and> p \<noteq> PhaseZero"
  by (cases p) auto

lemma ready_desired: "ready s now \<Longrightarrow> sDesired s = desired_of (sPhase s) \<and> sPhase s \<noteq> PhaseZero"
  by (simp add: ready_def phase_ok_def)

lemma ready_pending: "ready s now \<Longrightarrow> sDesired s \<noteq> DesiredStop \<Longrightarrow> \<not> sPendingDelete s"
  by (auto simp: ready_def phase_ok_def)

lemma row_okI:
  "phase_ok s \<Longrightarrow> failed_ok s \<Longrightarrow> refusals_ok s \<Longrightarrow> facts_ok s \<Longrightarrow> row_ok s"
  by (simp add: row_ok_def)

lemma row_ok_if [simp]:
  "row_ok (fst (if b then p else q)) \<longleftrightarrow> (if b then row_ok (fst p) else row_ok (fst q))"
  by simp

lemma finishStop_row:
  assumes "ready s now" and "sPhase s = PhaseStopping \<or> sPhase s = PhaseStopped"
  shows "row_ok (fst (finishStop s now))"
proof (cases "sPendingDelete s")
  case True
  then show ?thesis by (simp add: finishStop_def Let_def case_prod_unfold row_ok_deleted)
next
  case False
  show ?thesis
    unfolding finishStop_def Let_def using assms False
    by (intro row_okI; fastforce simp: ready_def row_defs)
qed

lemma ownerlessStart_row:
  assumes "ready s now" and "\<not> sPendingDelete s"
  shows "row_ok (fst (ownerlessStart s e now))" "row_ok (fst (advancingStart s e now))"
  using assms unfolding ownerlessStart_def advancingStart_def Let_def
  by (intro row_okI; simp add: ready_def row_defs)+

lemma operatorStart_row:
  assumes "ready s now" and "\<not> (eOwnerless e \<and> sPhase s = PhaseStopping)"
  shows "row_ok (fst (operatorStart s e now))"
  using assms ready_row [OF assms(1)] ownerlessStart_row [OF assms(1), of e]
  by (simp add: operatorStart_def)

lemma operatorStop_row:
  assumes "ready s now" shows "row_ok (fst (operatorStop s e now))"
proof -
  have "row_ok (fst (bump s\<lparr>sDesired := DesiredStop, sStoppedByOperator := True,
      sPhase := PhaseStopping, sSpecRevision := sSpecRevision (bump s) + 1\<rparr>, x))"
    if "sPhase s \<noteq> PhaseFailed" for x :: Result
    using assms that by (intro row_okI; simp add: ready_def row_defs)
  then show ?thesis
    using ready_row [OF assms] by (simp add: operatorStop_def Let_def)
qed

lemma operatorDelete_row:
  assumes "ready s now" shows "row_ok (fst (operatorDelete s e now))"
proof -
  have "LeaseLive s now \<Longrightarrow> sPhase s \<noteq> PhaseFailed"
    using assms by (auto simp: ready_def phase_ok_def LeaseLive_def)
  then have "row_ok (fst (bump s\<lparr>sDesired := DesiredStop, sStoppedByOperator := True,
      sPhase := PhaseStopping, sPendingDelete := True\<rparr>, x))" if "LeaseLive s now" for x :: Result
    using assms that by (intro row_okI; simp add: ready_def row_defs)
  then show ?thesis
    using ready_row [OF assms]
    by (simp add: operatorDelete_def Let_def case_prod_unfold row_ok_deleted)
qed

lemma stopConfirmed_row: "ready s now \<Longrightarrow> row_ok (fst (stopConfirmed s e now))"
  using finishStop_row [of s now] ready_row [of s now] ready_desired [of s now]
  by (simp add: stopConfirmed_def)

lemma stopExpired_row: "ready s now \<Longrightarrow> row_ok (fst (stopExpired s e now))"
  using finishStop_row [of s now] ready_row [of s now] by (simp add: stopExpired_def InStopSet_def)

lemma InClaimSet_D:
  "InClaimSet s now \<Longrightarrow> \<not> LeaseLive s now \<and> sDesired s = DesiredRun \<and> \<not> sPendingDelete s
     \<and> \<not> sDeleted s"
  by (simp add: InClaimSet_def split: if_splits)

lemma acquire_row:
  assumes "ready s now" shows "row_ok (fst (acquire s e now))"
proof -
  define t where "t = bump (takeLease s (eNode e) now)\<lparr>sPhase := PhaseStarting, sRunID := '''',
      sLastError := ''''\<rparr>"
  have "row_ok (if sPhase s = PhaseFailed then t\<lparr>sFailedReason := ReasonNone, sFailedAt := 0,
      sFailedSpec := 0\<rparr> else t)" if "InClaimSet s now"
    using assms InClaimSet_D [OF that] by (intro row_okI; simp add: ready_def row_defs t_def)
  then show ?thesis
    using ready_row [OF assms] by (auto simp: acquire_def Let_def simp flip: t_def)
qed

lemma yield_row:
  assumes "ready s now" and "sPhase s \<notin> {PhaseStopping, PhaseStopped, PhaseFailed}"
    and "oe \<Longrightarrow> r = RefusalTail \<and> pStorage (sParams s) = StoragePerNode"
  shows "row_ok (yield s nd now oe r)"
proof -
  have "refusals_ok (yield s nd now oe r)"
    using assms by (intro refusals_ok_yield) (auto simp: ready_def facts_ok_def)
  with assms show ?thesis
    by (intro row_okI; simp add: ready_def phase_ok_def failed_ok_def facts_ok_def)
qed

lemma row_ok_cong:
  "row_ok (s\<lparr>sLastError := x\<rparr>) \<longleftrightarrow> row_ok s" "row_ok (s\<lparr>sTailSince := t\<rparr>) \<longleftrightarrow> row_ok s"
  by (simp_all add: row_defs)

text \<open>The events of the runner reach \<open>yield\<close> only on a row that wants to run, and the row of a
  runner that passes the fence has an owner, so it is not failed.\<close>

lemma fenced_phase:
  "ready s now \<Longrightarrow> fence s e = fenceOK \<Longrightarrow> sPhase s \<noteq> PhaseFailed \<and> sPhase s \<noteq> PhaseLeaseDegraded"
  by (auto simp: ready_def phase_ok_def fence_ok)

lemma epochLost_row:
  assumes "ready s now" shows "row_ok (fst (epochLost s e now))"
proof (cases "fence s e = fenceOK")
  case True
  have "row_ok (yield s (eNode e) now False RefusalEpochLost)"
    if "sPhase s \<notin> {PhaseStopping, PhaseStopped}"
    using assms that fenced_phase [OF assms True] by (intro yield_row) simp_all
  then show ?thesis
    using True finishStop_row [OF assms] ready_desired [OF assms]
    by (simp add: epochLost_def Let_def row_ok_cong)
qed (simp add: epochLost_def ready_row [OF assms])

lemma dumpReady_row:
  assumes "ready s now" shows "row_ok (fst (dumpReady s e now))"
proof (cases "fence s e = fenceOK")
  case True
  have "row_ok (fst (bump s\<lparr>sPhase := PhaseRunning, sRetryAttempt := 0, sRetryUntil := 0,
      sLastError := '''', sFailedReason := ReasonNone, sFailedAt := 0, sTailSince := 0,
      sProgressAt := now, sRefusal := []\<rparr>, x))" if "sDesired s = DesiredRun" for x :: Result
    using assms that fenced_phase [OF assms True] ready_pending [OF assms]
    by (intro row_okI; simp add: ready_def row_defs)
  then show ?thesis
    using True epochLost_row [OF assms, of e] ready_row [OF assms]
    by (auto simp: dumpReady_def Let_def)
qed (simp add: dumpReady_def ready_row [OF assms])

lemma retryable_row:
  assumes "ready s now" shows "row_ok (fst (retryable s e now))"
proof (cases "fence s e = fenceOK")
  case True
  have "row_ok (fst (bump s\<lparr>sPhase := PhaseRetryBackoff, sRetryAttempt := a, sRetryUntil := u,
      sLastError := l\<rparr>, x))" if "sDesired s \<noteq> DesiredStop" for a u l and x :: Result
    using assms that fenced_phase [OF assms True] ready_pending [OF assms]
    by (intro row_okI; simp add: ready_def row_defs)
  then show ?thesis
    using True epochLost_row [OF assms, of e] finishStop_row [OF assms] ready_desired [OF assms]
    by (simp add: retryable_def Let_def)
qed (simp add: retryable_def ready_row [OF assms])

lemma terminal_reason_allowed:
  "terminal_reason c = Some r \<Longrightarrow> c \<noteq> CauseStorageInconsistent \<Longrightarrow>
   failed_allowed r \<and> r \<noteq> ReasonChainOwnerGone"
  by (cases c) (auto simp: terminal_reason_def failed_allowed_def)

lemma terminal_row:
  assumes "ready s now" and "eCause e \<noteq> CauseStorageInconsistent"
  shows "row_ok (fst (terminal s e now))"
proof (cases "fence s e = fenceOK")
  case True
  have "row_ok (fst (release (bump s\<lparr>sPhase := PhaseFailed, sFailedReason := r, sFailedAt := now,
      sFailedSpec := sSpecRevision s, sLastError := l, sDesired := DesiredRun\<rparr>) now, x))"
    if "sDesired s \<noteq> DesiredStop" "terminal_reason (eCause e) = Some r" for r l and x :: Result
    using assms(1) that(1) terminal_reason_allowed [OF that(2) assms(2)] ready_pending [OF assms(1)]
    by (intro row_okI; simp add: ready_def row_defs)
  then show ?thesis
    using True epochLost_row [OF assms(1), of e] finishStop_row [OF assms(1)]
      ready_row [OF assms(1)] ready_desired [OF assms(1)]
    by (auto simp: terminal_def Let_def split: option.split)
qed (simp add: terminal_def ready_row [OF assms(1)])

lemma tailUnreadable_row:
  assumes "ready s now" shows "row_ok (fst (tailUnreadable s e now))"
proof (cases "fence s e = fenceOK")
  case True
  have "row_ok (yield s (eNode e) now (pStorage (sParams s) = StoragePerNode) RefusalTail)"
    if "sPhase s \<notin> {PhaseStopping, PhaseStopped}"
    using assms that fenced_phase [OF assms True] by (intro yield_row) simp_all
  then show ?thesis
    using True epochLost_row [OF assms, of e] finishStop_row [OF assms] ready_row [OF assms]
      ready_desired [OF assms] by (auto simp: tailUnreadable_def Let_def)
qed (simp add: tailUnreadable_def ready_row [OF assms])

lemma chainVerified_row:
  assumes "ready s now" shows "row_ok (fst (chainVerified s e now))"
proof -
  have "row_ok (fst (s\<lparr>sChain := \<lparr>cOwner = eNode e, cVerifiedAt = now, cVerifiedEpoch = n,
      cMissingSealed = a, cUnreadable = b\<rparr>\<rparr>, x))" if "eNode e \<noteq> ''''" for n a b and x :: Result
    using assms that by (intro row_okI; simp add: ready_def row_defs)
  then show ?thesis using ready_row [OF assms] by (simp add: chainVerified_def Let_def)
qed

lemma failChainOwner_row:
  assumes "ready s now" and "sPhase s = PhaseLeaseDegraded"
  shows "row_ok (fst (failChainOwner s now))"
  using assms unfolding failChainOwner_def Let_def
  by (intro row_okI; simp add: ready_def row_defs failed_allowed_def)

lemma chainOwnerGone_row:
  assumes "ready s now" shows "row_ok (fst (chainOwnerGone s e now))"
  using ready_row [OF assms] failChainOwner_row [OF assms] by (auto simp: chainOwnerGone_def Let_def)

lemma chainOwnerBack_row:
  assumes "ready s now" shows "row_ok (fst (chainOwnerBack s e now))"
proof -
  have "row_ok (fst (bump s\<lparr>sPhase := PhaseLeaseDegraded, sFailedReason := ReasonNone,
      sFailedAt := 0, sUnownedSince := 0\<rparr>, x))"
    if "sPhase s = PhaseFailed" "sFailedReason s = ReasonChainOwnerGone" for x :: Result
    using assms that by (intro row_okI; simp add: ready_def row_defs)
  then show ?thesis using ready_row [OF assms] by (auto simp: chainOwnerBack_def Let_def)
qed

lemma metaLockTimeout_row:
  assumes "ready s now" shows "row_ok (fst (metaLockTimeout s e now))"
  using assms unfolding metaLockTimeout_def by (intro row_okI; simp add: ready_def row_defs)

lemma renew_row:
  assumes "ready s now" shows "row_ok (fst (renew s e now))"
proof -
  have "row_ok (fst (s\<lparr>sLease := (sLease s)\<lparr>lExpireAt := x, lRenewedAt := y\<rparr>\<rparr>, z))" for x y and z :: Result
    using assms by (intro row_okI; simp add: ready_def row_defs)
  then show ?thesis using ready_row [OF assms] by (auto simp: renew_def)
qed

lemma sweep_row: "row_ok s \<Longrightarrow> row_ok (fst (sweep s e now))"
  unfolding sweep_def by (simp add: row_defs)

lemma legacyUpdate_row: "row_ok s \<Longrightarrow> row_ok (fst (legacyUpdate s))"
  unfolding legacyUpdate_def by (simp add: row_defs)

lemma recoverLock_stall:
  "(sMetaLockStalled s \<longrightarrow> sHealthBlocked s) \<Longrightarrow>
   sMetaLockStalled (recoverLock s e now) \<longrightarrow> sHealthBlocked (recoverLock s e now)"
  by (simp add: recoverLock_def Let_def)

lemma takeLock_row:
  assumes "ready s now" shows "row_ok (fst (takeLock s e now))"
proof -
  have "row_ok (fst ((recoverLock s e now)\<lparr>sLock := l\<rparr>, x))" for l and x :: Result
    using assms recoverLock_stall [of s e now] by (intro row_okI; simp add: ready_def row_defs)
  then show ?thesis using ready_row [OF assms] by (simp add: takeLock_def)
qed

lemma handle_row:
  assumes "ready s now" and "clean_event s e"
  shows "row_ok (fst (handle s e now))"
  using assms(2) ready_row [OF assms(1)]
  by (cases "eKind e") (auto simp: handle_def clean_event_def intro: operatorStart_row
      operatorStop_row operatorDelete_row stopConfirmed_row stopExpired_row acquire_row
      dumpReady_row retryable_row terminal_row tailUnreadable_row epochLost_row chainVerified_row
      chainOwnerGone_row chainOwnerBack_row metaLockTimeout_row renew_row sweep_row takeLock_row
      legacyUpdate_row assms(1))

end
