(* ===== verification/Own_Trans.thy ===== *)
theory Own_Trans
  imports Own_Inv
begin

text \<open>
  What one transition may do: an event that is not applied leaves the row alone, an applied
  event of a runner passed the epoch fence, and an applied event writes the wish, the lease,
  the chain and the failed phase only the ways listed in \<open>effect_ok\<close>.
\<close>

section \<open>An event that is not applied changes nothing\<close>

definition answered :: "State \<Rightarrow> partial \<Rightarrow> bool" where
  "answered s p \<longleftrightarrow>
     (if rDecision (snd p) = DecisionApplied then rHTTP (snd p) \<in> {0, 204}
      else fst p = s \<and> rHTTP (snd p) \<in> {0, 204, 409, 503} \<and> rOpened (snd p) = []
           \<and> rClosed (snd p) = [])"

lemma answered_simps [simp]:
  "answered s (dropped s k)" 
  "rDecision r \<noteq> DecisionApplied \<Longrightarrow> rHTTP r \<in> {0, 204, 409, 503} \<Longrightarrow> rOpened r = [] \<Longrightarrow>
   rClosed r = [] \<Longrightarrow> answered s (appliedPair s r)"
  by (simp_all add: answered_def)

lemma answered_applied [simp]:
  "rDecision r = DecisionApplied \<Longrightarrow> rHTTP r \<in> {0, 204} \<Longrightarrow> answered s (t, r)"
  by (simp add: answered_def)

lemma answered_finishStop [simp]: "answered s (finishStop s now)"
  by (simp add: finishStop_def Let_def case_prod_unfold)

lemma answered_epochLost [simp]: "answered s (epochLost s e now)"
  by (simp add: epochLost_def Let_def)

lemma answered_operator [simp]:
  "answered s (operatorStart s e now)" "answered s (operatorStop s e now)"
  "answered s (operatorDelete s e now)"
  by (simp_all add: operatorStart_def operatorStop_def operatorDelete_def ownerlessStart_def
      ownerlessRestartWhileStopping_def advancingStart_def Let_def case_prod_unfold)

lemma answered_runner [simp]:
  "answered s (stopConfirmed s e now)" "answered s (stopExpired s e now)"
  "answered s (acquire s e now)" "answered s (dumpReady s e now)" "answered s (retryable s e now)"
  "answered s (tailUnreadable s e now)"
  by (simp_all add: stopConfirmed_def stopExpired_def acquire_def dumpReady_def retryable_def
      tailUnreadable_def Let_def)

lemma answered_terminal [simp]: "answered s (terminal s e now)"
  by (simp add: terminal_def Let_def split: option.split)

lemma answered_rest [simp]:
  "answered s (chainVerified s e now)" "answered s (chainOwnerGone s e now)"
  "answered s (chainOwnerBack s e now)" "answered s (metaLockTimeout s e now)"
  "answered s (renew s e now)" "answered s (sweep s e now)" "answered s (takeLock s e now)"
  "answered s (legacyUpdate s)"
  by (simp_all add: chainVerified_def chainOwnerGone_def chainOwnerBack_def failChainOwner_def
      metaLockTimeout_def renew_def sweep_def takeLock_def legacyUpdate_def Let_def)

lemma handle_answered: "answered s (handle s e now)"
  by (cases "eKind e") (simp_all add: handle_def)

section \<open>What an applied event may do\<close>

text \<open>An event the fence admits is sent by the current owner under the current epoch.\<close>

lemma applied_fenced:
  assumes "rDecision (snd (handle s e now)) = DecisionApplied" and "epochFenced (eKind e)"
  shows "eNode e = lOwner (sLease s) \<and> eEpoch e = lEpoch (sLease s) \<and> lPresent (sLease s)"
proof (cases "eKind e = EventRenew")
  case True
  then show ?thesis using assms(1) by (auto simp: handle_def renew_def split: if_splits)
next
  case False
  have "fence s e = fenceOK"
  proof (rule ccontr)
    assume "fence s e \<noteq> fenceOK"
    then have "handle s e now = dropped s (fence s e)"
      using assms(2) False
      by (auto simp: epochFenced_def handle_def dumpReady_def retryable_def terminal_def
          tailUnreadable_def epochLost_def stopConfirmed_def)
    then show False using assms(1) by simp
  qed
  then show ?thesis by (simp add: fence_ok)
qed

definition chain_kept :: "State \<Rightarrow> Event \<Rightarrow> State \<Rightarrow> bool" where
  "chain_kept s e s' \<longleftrightarrow> sChain s' = sChain s \<or> eKind e = EventChainVerified \<and> eReadOK e \<and> \<not> eIncomplete e"

definition lease_kept :: "State \<Rightarrow> Event \<Rightarrow> instant \<Rightarrow> State \<Rightarrow> bool" where
  "lease_kept s e now s' \<longleftrightarrow>
     (if lOwner (sLease s') = '''' \<or> lOwner (sLease s') = lOwner (sLease s)
      then lEpoch (sLease s') = lEpoch (sLease s)
      else lEpoch (sLease s') = lEpoch (sLease s) + 1 \<and> \<not> LeaseLive s now
           \<and> lOwner (sLease s') = eNode e
           \<and> eKind e \<in> {EventOperatorStart, EventAcquire, EventLeaseExpired})"

definition wish_kept :: "State \<Rightarrow> Event \<Rightarrow> State \<Rightarrow> bool" where
  "wish_kept s e s' \<longleftrightarrow>
     (sDesired s' = DesiredStop \<longrightarrow> sDesired s = DesiredStop
        \<or> eKind e \<in> {EventOperatorStop, EventOperatorDelete})
     \<and> (sDesired s = DesiredStop \<and> sDesired s' = DesiredRun \<longrightarrow> eKind e = EventOperatorStart)"

definition failed_kept :: "State \<Rightarrow> Event \<Rightarrow> State \<Rightarrow> bool" where
  "failed_kept s e s' \<longleftrightarrow>
     (sPhase s' = PhaseFailed \<and> sPhase s \<noteq> PhaseFailed \<longrightarrow>
        \<not> local_cause (eCause e)
        \<and> (eKind e = EventTerminalError
           \<or> eKind e = EventChainOwnerGone \<and> sPhase s = PhaseLeaseDegraded \<and> sTailSince s \<noteq> 0))"

definition effect_ok :: "State \<Rightarrow> Event \<Rightarrow> instant \<Rightarrow> State \<Rightarrow> bool" where
  "effect_ok s e now s' \<longleftrightarrow>
     sDeleted s' \<and> sPhase s' = PhaseZero \<and> sDesired s' = DesiredZero \<and> lOwner (sLease s') = ''''
     \<or> chain_kept s e s' \<and> lease_kept s e now s' \<and> wish_kept s e s' \<and> failed_kept s e s'
       \<and> sRowGeneration s \<le> sRowGeneration s' \<and> sDeleted s' = sDeleted s"

lemmas effect_defs = effect_ok_def chain_kept_def lease_kept_def wish_kept_def failed_kept_def

lemma effect_erase [simp]: "effect_ok s e now (fst (erase t))"
  by (simp add: effect_ok_def)

lemma effect_same [simp]: "effect_ok s e now s"
  by (auto simp: effect_defs)


lemma effect_finishStop:
  assumes "sDesired s = DesiredStop" shows "effect_ok s e now (fst (finishStop s now))"
proof (cases "sPendingDelete s")
  case False
  then show ?thesis using assms by (simp add: finishStop_def Let_def effect_defs)
qed (simp add: finishStop_def Let_def case_prod_unfold)

lemma effect_yield:
  "sDesired s = DesiredRun \<Longrightarrow> effect_ok s e now (yield s nd now oe r)"
  by (simp add: effect_defs)

lemma effect_cong:
  "effect_ok s e now (t\<lparr>sLastError := x\<rparr>) \<longleftrightarrow> effect_ok s e now t"
  "effect_ok s e now (t\<lparr>sTailSince := y\<rparr>) \<longleftrightarrow> effect_ok s e now t"
  by (simp_all add: effect_defs)

lemma ready_wish: "ready s now \<Longrightarrow> sDesired s = DesiredStop \<or> sDesired s = DesiredRun"
  using ready_desired [of s now] by (cases "sPhase s") auto

lemma ready_stopping: "ready s now \<Longrightarrow> sPhase s = PhaseStopping \<Longrightarrow> sDesired s = DesiredStop"
  using ready_desired [of s now] by simp

lemmas ready_facts = ready_wish ready_stopping

lemma effect_epochLost:
  assumes "ready s now" shows "effect_ok s e now (fst (epochLost s e now))"
  using ready_facts [OF assms] effect_finishStop [of s e now]
    effect_yield [of s e now "eNode e" False RefusalEpochLost]
  by (auto simp: epochLost_def Let_def effect_cong)

lemma effect_okI:
  "chain_kept s e s' \<Longrightarrow> lease_kept s e now s' \<Longrightarrow> wish_kept s e s' \<Longrightarrow> failed_kept s e s' \<Longrightarrow>
   sRowGeneration s \<le> sRowGeneration s' \<Longrightarrow> sDeleted s' = sDeleted s \<Longrightarrow> effect_ok s e now s'"
  by (simp add: effect_ok_def)

lemma lease_kept_cong: "lease_kept s e now t \<Longrightarrow> sLease s' = sLease t \<Longrightarrow> lease_kept s e now s'"
  by (simp only: lease_kept_def)

lemma effect_takeLease:
  assumes "eKind e \<in> {EventOperatorStart, EventAcquire, EventLeaseExpired}"
    and "\<not> LeaseLive s now \<or> lOwner (sLease s) = nd" and "nd = eNode e" and "nd \<noteq> ''''"
  shows "lease_kept s e now (takeLease s nd now)"
  using assms by (auto simp: lease_kept_def)

lemma effect_operatorStart:
  assumes "eKind e = EventOperatorStart" and "\<not> (eOwnerless e \<and> sPhase s = PhaseStopping)"
  shows "effect_ok s e now (fst (operatorStart s e now))"
proof -
  have "effect_ok s e now (fst (ownerlessStart s e now))"
    using assms by (simp add: ownerlessStart_def Let_def effect_defs)
  moreover have "effect_ok s e now (fst (advancingStart s e now))"
    if "\<not> (LeaseLive s now \<and> lOwner (sLease s) \<noteq> eNode e)" "eNode e \<noteq> ''''"
  proof (rule effect_okI)
    show "lease_kept s e now (fst (advancingStart s e now))"
    proof (rule lease_kept_cong)
      show "lease_kept s e now (takeLease s (eNode e) now)"
        using assms(1) that by (intro effect_takeLease) blast+
    qed (simp add: advancingStart_def Let_def)
  qed (use assms in \<open>simp_all add: advancingStart_def Let_def chain_kept_def wish_kept_def failed_kept_def\<close>)
  ultimately show ?thesis using assms by (auto simp: operatorStart_def)
qed

lemma effect_operatorStop:
  "eKind e = EventOperatorStop \<Longrightarrow> effect_ok s e now (fst (operatorStop s e now))"
  by (simp add: operatorStop_def Let_def effect_defs)

lemma effect_operatorDelete:
  assumes "eKind e = EventOperatorDelete" shows "effect_ok s e now (fst (operatorDelete s e now))"
proof -
  have "effect_ok s e now (bump s\<lparr>sDesired := DesiredStop, sStoppedByOperator := True,
      sPhase := PhaseStopping, sPendingDelete := True\<rparr>)"
    using assms by (simp add: effect_defs)
  then show ?thesis by (simp add: operatorDelete_def Let_def case_prod_unfold)
qed

lemma effect_acquire:
  assumes "eKind e \<in> {EventAcquire, EventLeaseExpired}"
  shows "effect_ok s e now (fst (acquire s e now))"
proof -
  define t where "t = bump (takeLease s (eNode e) now)\<lparr>sPhase := PhaseStarting, sRunID := '''',
      sLastError := ''''\<rparr>"
  have "effect_ok s e now (if sPhase s = PhaseFailed then t\<lparr>sFailedReason := ReasonNone,
      sFailedAt := 0, sFailedSpec := 0\<rparr> else t)" if "InClaimSet s now" "eNode e \<noteq> ''''"
    using assms InClaimSet_D [OF that(1)] that(2) effect_takeLease [of e s now "eNode e"]
    by (simp add: t_def effect_ok_def chain_kept_def lease_kept_def wish_kept_def failed_kept_def)
  then show ?thesis by (auto simp: acquire_def Let_def simp flip: t_def)
qed

lemma effect_stop:
  assumes "ready s now"
  shows "effect_ok s e now (fst (stopConfirmed s e now))" "effect_ok s e now (fst (stopExpired s e now))"
  using ready_facts [OF assms] effect_finishStop [of s e now]
  by (auto simp: stopConfirmed_def stopExpired_def InStopSet_def)

lemma effect_dumpReady:
  assumes "ready s now" shows "effect_ok s e now (fst (dumpReady s e now))"
proof -
  have "effect_ok s e now (bump s\<lparr>sPhase := PhaseRunning, sRetryAttempt := 0, sRetryUntil := 0,
      sLastError := '''', sFailedReason := ReasonNone, sFailedAt := 0, sTailSince := 0,
      sProgressAt := now, sRefusal := []\<rparr>)" if "sDesired s = DesiredRun"
    using that by (simp add: effect_defs)
  then show ?thesis using effect_epochLost [OF assms, of e] by (simp add: dumpReady_def Let_def)
qed

lemma effect_retryable:
  assumes "ready s now" shows "effect_ok s e now (fst (retryable s e now))"
proof -
  have "effect_ok s e now (bump s\<lparr>sPhase := PhaseRetryBackoff, sRetryAttempt := a,
      sRetryUntil := u, sLastError := l\<rparr>)" if "sDesired s = DesiredRun" for a u l
    using that by (simp add: effect_defs)
  then show ?thesis
    using effect_epochLost [OF assms, of e] effect_finishStop [of s e now] ready_facts [OF assms]
    by (auto simp: retryable_def Let_def)
qed

lemma terminal_reason_not_local: "terminal_reason c = Some r \<Longrightarrow> \<not> local_cause c"
  by (cases c) (auto simp: terminal_reason_def local_cause_def)

lemma effect_terminal:
  assumes "ready s now" and "eKind e = EventTerminalError"
  shows "effect_ok s e now (fst (terminal s e now))"
proof -
  have "effect_ok s e now (release (bump s\<lparr>sPhase := PhaseFailed, sFailedReason := r,
      sFailedAt := now, sFailedSpec := n, sLastError := l, sDesired := DesiredRun\<rparr>) now)"
    if "sDesired s = DesiredRun" "terminal_reason (eCause e) = Some r" for r n l
    using that(1) assms(2) terminal_reason_not_local [OF that(2)] by (simp add: effect_defs)
  then show ?thesis
    using effect_epochLost [OF assms(1), of e] effect_finishStop [of s e now] ready_facts [OF assms(1)]
    by (auto simp: terminal_def Let_def split: option.split)
qed

lemma effect_tailUnreadable:
  assumes "ready s now" shows "effect_ok s e now (fst (tailUnreadable s e now))"
  using effect_epochLost [OF assms, of e] effect_finishStop [of s e now] ready_facts [OF assms]
    effect_yield [of s e now "eNode e" "pStorage (sParams s) = StoragePerNode" RefusalTail]
  by (auto simp: tailUnreadable_def Let_def)

lemma effect_chainVerified:
  "eKind e = EventChainVerified \<Longrightarrow> effect_ok s e now (fst (chainVerified s e now))"
  by (auto simp: chainVerified_def Let_def effect_defs)

lemma effect_chainOwnerGone:
  assumes "ready s now" and "eKind e = EventChainOwnerGone" and "\<not> local_cause (eCause e)"
  shows "effect_ok s e now (fst (chainOwnerGone s e now))"
proof -
  have "effect_ok s e now (fst (failChainOwner s now))"
    if "sPhase s = PhaseLeaseDegraded" "sTailSince s \<noteq> 0"
    using that assms ready_desired [OF assms(1)] by (simp add: failChainOwner_def Let_def effect_defs)
  then show ?thesis by (auto simp: chainOwnerGone_def Let_def)
qed

lemma effect_chainOwnerBack: "effect_ok s e now (fst (chainOwnerBack s e now))"
proof -
  have "effect_ok s e now (bump s\<lparr>sPhase := PhaseLeaseDegraded, sFailedReason := ReasonNone,
      sFailedAt := 0, sUnownedSince := 0\<rparr>)" by (auto simp: effect_defs)
  then show ?thesis by (simp add: chainOwnerBack_def Let_def)
qed

lemma effect_rest:
  "effect_ok s e now (fst (metaLockTimeout s e now))" "effect_ok s e now (fst (renew s e now))"
  "effect_ok s e now (fst (sweep s e now))" "effect_ok s e now (fst (takeLock s e now))"
  "effect_ok s e now (fst (legacyUpdate s))"
  by (auto simp: metaLockTimeout_def renew_def sweep_def takeLock_def legacyUpdate_def effect_defs)

lemma handle_effect:
  assumes "ready s now" and "clean_event s e"
  shows "effect_ok s e now (fst (handle s e now))"
  using assms
  by (cases "eKind e") (simp_all add: handle_def clean_event_def effect_operatorStart
      effect_operatorStop effect_operatorDelete effect_stop effect_acquire effect_dumpReady
      effect_retryable effect_terminal effect_tailUnreadable effect_epochLost effect_chainVerified
      effect_chainOwnerGone effect_chainOwnerBack effect_rest)

end
