(* ===== verification/Own_Clock.thy ===== *)
theory Own_Clock
  imports Own_Trans
begin

text \<open>
  The progress clock. The row keeps \<open>UnownedSince\<close> and \<open>ProgressAt\<close>; the checker replays
  both from the applied-event trace without reading them. The two agree on every row that is
  not failed, so \<open>TASK_NO_PROGRESS\<close>, derived from the row, is the finding the replayed
  clock asks for.
\<close>

section \<open>The clocks of the row and of the trace\<close>

definition replay :: "State \<Rightarrow> Replay" where
  "replay s = fold replay_event (sTrace s) replay_start"

definition anchor_of :: "instant \<Rightarrow> instant \<Rightarrow> instant" where
  "anchor_of a acquired = (if a = 0 then acquired else a)"

definition clock_ok :: "State \<Rightarrow> instant \<Rightarrow> bool" where
  "clock_ok s t \<longleftrightarrow>
     rpUnownedSince (replay s) = (if sPhase s = PhaseFailed then 0 else sUnownedSince s)
     \<and> anchor_of (rpAnchor (replay s)) (lAcquiredAt (sLease s))
         = anchor_of (sProgressAt s) (lAcquiredAt (sLease s))
     \<and> (rpHavePrev (replay s) \<longrightarrow> rpPrevAcquired (replay s) = lAcquiredAt (sLease s))
     \<and> (\<not> rpHavePrev (replay s) \<longrightarrow> rpAnchor (replay s) = 0)
     \<and> lAcquiredAt (sLease s) \<le> t
     \<and> (rpAnchor (replay s) \<noteq> 0 \<longrightarrow>
          lAcquiredAt (sLease s) \<le> rpAnchor (replay s) \<and> rpAnchor (replay s) \<le> t)"

text \<open>What a handler does to the fields the clocks read.\<close>

definition claims :: "Kind \<Rightarrow> bool" where
  "claims k \<longleftrightarrow> k \<in> {EventAcquire, EventLeaseExpired, EventOperatorStart}"

definition since_frame :: "State \<Rightarrow> instant \<Rightarrow> State \<Rightarrow> bool" where
  "since_frame s now s' \<longleftrightarrow>
     (if sPhase s = PhaseFailed
      then sPhase s' = PhaseFailed \<or> sUnownedSince s' = 0 \<or> LeaseLive s' now
           \<or> sDesired s' \<noteq> DesiredRun
      else sUnownedSince s' = sUnownedSince s)"

definition anchor_frame :: "State \<Rightarrow> Event \<Rightarrow> instant \<Rightarrow> State \<Rightarrow> bool" where
  "anchor_frame s e now s' \<longleftrightarrow>
     (lAcquiredAt (sLease s') = lAcquiredAt (sLease s)
      \<and> sProgressAt s' = (if eKind e = EventDumpReady \<and> sPhase s' = PhaseRunning then now
                           else sProgressAt s))
     \<or> (claims (eKind e) \<and> lAcquiredAt (sLease s') = now \<and> sProgressAt s' = 0)"

definition clock_frame :: "State \<Rightarrow> Event \<Rightarrow> instant \<Rightarrow> State \<Rightarrow> bool" where
  "clock_frame s e now s' \<longleftrightarrow>
     sDeleted s' \<or> sTrace s' = sTrace s \<and> since_frame s now s' \<and> anchor_frame s e now s'"

lemmas frame_defs = clock_frame_def since_frame_def anchor_frame_def

lemma clock_frame_same [simp]: "eKind e \<noteq> EventDumpReady \<Longrightarrow> clock_frame s e now s"
  by (simp add: frame_defs)

lemma clock_frame_erase [simp]: "clock_frame s e now (fst (erase t))"
  by (simp add: clock_frame_def)

lemma clock_frame_deleted: "sDeleted s' \<Longrightarrow> clock_frame s e now s'"
  by (simp add: clock_frame_def)

section \<open>One applied event\<close>

lemma replay_settle:
  "replay (settle e s now) =
     replay_event (traceSnap e (noteOwnership s now) now) (replay s)"
  by (simp add: replay_def settle_def noteOwnership_def traceSnap_def Let_def)

lemma trace_live_snap [simp]: "trace_live (traceSnap e s now) t = LeaseLive s t"
  by (simp add: trace_live_def traceSnap_def LeaseLive_def)

lemma trace_legal_snap [simp]: "trace_legal (traceSnap e s now) t = LegalRetry s t"
  by (auto simp: trace_legal_def traceSnap_def LegalRetry_def)

lemma noteOwnership_sel [simp]:
  "sPhase (noteOwnership s now) = sPhase s" "sDesired (noteOwnership s now) = sDesired s"
  "sDeleted (noteOwnership s now) = sDeleted s" "sLease (noteOwnership s now) = sLease s"
  "sRetryAttempt (noteOwnership s now) = sRetryAttempt s"
  "sRetryUntil (noteOwnership s now) = sRetryUntil s"
  "sProgressAt (noteOwnership s now) = sProgressAt s" "sParams (noteOwnership s now) = sParams s"
  "sTrace (noteOwnership s now) = sTrace s"
  by (simp_all add: noteOwnership_def Let_def)

lemma noteOwnership_live [simp]:
  "LeaseLive (noteOwnership s now) t = LeaseLive s t"
  "LegalRetry (noteOwnership s now) t = LegalRetry s t"
  by (simp_all add: LeaseLive_def LegalRetry_def)

definition unowned :: "State \<Rightarrow> instant \<Rightarrow> bool" where
  "unowned s now \<longleftrightarrow> sDesired s = DesiredRun \<and> \<not> LeaseLive s now \<and> \<not> LegalRetry s now
     \<and> sPhase s \<noteq> PhaseCreated \<and> sPhase s \<noteq> PhaseStopped \<and> \<not> sDeleted s"

lemma settle_since:
  "sUnownedSince (settle e s now) =
     (if unowned s now then (if sUnownedSince s = 0 then now else sUnownedSince s) else 0)"
  by (simp add: settle_def noteOwnership_def Let_def unowned_def)

lemma replay_since:
  "rpUnownedSince (replay (settle e s now)) =
     (if unowned s now \<and> sPhase s \<noteq> PhaseFailed
      then (if rpUnownedSince (replay s) = 0 then now else rpUnownedSince (replay s)) else 0)"
  unfolding replay_settle
  by (simp add: replay_event_def Let_def unowned_def) (auto simp: traceSnap_def)

lemma replay_anchor:
  "rpAnchor (replay (settle e s now)) =
     (if claims (eKind e)
         \<and> (\<not> rpHavePrev (replay s) \<or> lAcquiredAt (sLease s) \<noteq> rpPrevAcquired (replay s)) then 0
      else if eKind e = EventDumpReady \<and> sPhase s = PhaseRunning then now
      else rpAnchor (replay s))"
  unfolding replay_settle
  by (simp add: replay_event_def Let_def) (auto simp: traceSnap_def claims_def)

lemma replay_prev [simp]:
  "rpHavePrev (replay (settle e s now))"
  "rpPrevAcquired (replay (settle e s now)) = lAcquiredAt (sLease s)"
  unfolding replay_settle by (simp_all add: replay_event_def Let_def traceSnap_def)

lemma replay_frame: "sTrace s' = sTrace s \<Longrightarrow> replay s' = replay s"
  by (simp add: replay_def)

lemma clock_settle_since:
  assumes "clock_ok s t" and "clock_frame s e now s'" and "\<not> sDeleted s'"
  shows "rpUnownedSince (replay (settle e s' now)) =
    (if sPhase s' = PhaseFailed then 0 else sUnownedSince (settle e s' now))"
proof -
  have "replay s' = replay s" using assms by (intro replay_frame) (simp add: clock_frame_def)
  moreover have "since_frame s now s'" using assms by (simp add: clock_frame_def)
  ultimately show ?thesis
    using assms(1) by (auto simp: replay_since settle_since clock_ok_def since_frame_def unowned_def)
qed
lemma clock_settle_anchor:
  assumes ok: "clock_ok s t" and le: "t \<le> now" "now \<noteq> 0"
    and frame: "clock_frame s e now s'" "\<not> sDeleted s'"
  defines "a \<equiv> rpAnchor (replay (settle e s' now))" and "acq \<equiv> lAcquiredAt (sLease s')"
  shows "anchor_of a acq = anchor_of (sProgressAt s') acq \<and> acq \<le> now
    \<and> (a \<noteq> 0 \<longrightarrow> acq \<le> a \<and> a \<le> now)"
proof -
  have r: "replay s' = replay s" using frame by (intro replay_frame) (simp add: clock_frame_def)
  have a: "a = (if claims (eKind e)
         \<and> (\<not> rpHavePrev (replay s) \<or> acq \<noteq> rpPrevAcquired (replay s)) then 0
      else if eKind e = EventDumpReady \<and> sPhase s' = PhaseRunning then now
      else rpAnchor (replay s))"
    by (simp only: a_def acq_def replay_anchor r)
  have no_dump: "claims (eKind e) \<Longrightarrow> eKind e \<noteq> EventDumpReady" by (auto simp: claims_def)
  have "anchor_frame s e now s'" using frame by (simp add: clock_frame_def)
  then consider
    (same) "acq = lAcquiredAt (sLease s)"
      "sProgressAt s' = (if eKind e = EventDumpReady \<and> sPhase s' = PhaseRunning then now
                          else sProgressAt s)"
    | (claim) "claims (eKind e)" "acq = now" "sProgressAt s' = 0"
    by (auto simp: anchor_frame_def acq_def)
  then show ?thesis
  proof cases
    case same
    then show ?thesis using a ok le no_dump by (auto simp: clock_ok_def anchor_of_def)
  next
    case claim
    then show ?thesis using a ok le no_dump by (auto simp: clock_ok_def anchor_of_def)
  qed
qed

lemma clock_settle:
  assumes "clock_ok s t" and "t \<le> now" and "now \<noteq> 0" and "clock_frame s e now s'" and "\<not> sDeleted s'"
  shows "clock_ok (settle e s' now) now"
  using clock_settle_since [OF assms(1,4,5)] clock_settle_anchor [OF assms]
  by (simp add: clock_ok_def)

lemma clock_ok_mono: "clock_ok s t \<Longrightarrow> t \<le> now \<Longrightarrow> clock_ok s now"
  by (auto simp: clock_ok_def)

lemma clock_ok_cong:
  "clock_ok (prepare s now) t \<longleftrightarrow> clock_ok s t"
  by (simp add: clock_ok_def replay_def)

text \<open>The replayed clock and the fact of the row give the same answer.\<close>

lemma overdue_settle:
  assumes "clock_ok (settle e s now) now" and "fill (sParams s) = sParams s"
  shows "ProgressOverdue (settle e s now) now = sNoProgress (settle e s now)"
proof -
  let ?S = "settle e s now"
  have snap: "replayProgress (sTrace ?S) =
      (rpAnchor (replay ?S), rpUnownedSince (replay ?S), traceSnap e (noteOwnership s now) now)"
    and ne: "sTrace ?S \<noteq> []"
    by (simp_all add: replayProgress_def replay_def settle_def Let_def traceSnap_def)
  have snap_sel: "tDeleted (traceSnap e t now) = sDeleted t" "tDesired (traceSnap e t now) = sDesired t"
    "tPhase (traceSnap e t now) = sPhase t" "tAcquired (traceSnap e t now) = lAcquiredAt (sLease t)" for t
    by (simp_all add: traceSnap_def)
  have fact: "sNoProgress ?S = noProgressFact (noteOwnership s now) now"
    by (simp add: settle_def Let_def)
  have since: "sUnownedSince (noteOwnership s now) = sUnownedSince ?S"
    by (simp add: settle_def Let_def)
  have anchor: "anchor_of (rpAnchor (replay ?S)) (lAcquiredAt (sLease s)) =
      anchor_of (sProgressAt s) (lAcquiredAt (sLease s))"
    and since': "sPhase s \<noteq> PhaseFailed \<Longrightarrow> rpUnownedSince (replay ?S) = sUnownedSince ?S"
    using assms(1) by (simp_all add: clock_ok_def)
  show ?thesis
    unfolding ProgressOverdue_def fact noProgressFact_def Let_def anchor_of_def [symmetric]
    using ne since' anchor by (simp add: snap snap_sel since assms(2))
qed

section \<open>Every handler respects the clocks\<close>

lemma frame_finishStop: "sPhase s \<noteq> PhaseFailed \<Longrightarrow> clock_frame s e now (fst (finishStop s now))"
  by (simp add: finishStop_def Let_def case_prod_unfold frame_defs)

lemma frame_yield: "sPhase s \<noteq> PhaseFailed \<Longrightarrow> clock_frame s e now (yield s nd now oe r)"
  by (simp add: frame_defs)

lemma clock_frame_cong:
  "clock_frame s e now (t\<lparr>sLastError := x\<rparr>) \<longleftrightarrow> clock_frame s e now t"
  "clock_frame s e now (t\<lparr>sTailSince := y\<rparr>) \<longleftrightarrow> clock_frame s e now t"
  by (simp_all add: frame_defs LeaseLive_def)

lemma frame_epochLost:
  assumes "ready s now" and "rDecision (snd (epochLost s e now)) = DecisionApplied"
  shows "clock_frame s e now (fst (epochLost s e now))"
proof -
  have f: "fence s e = fenceOK" using assms(2) by (auto simp: epochLost_def split: if_splits)
  note p = fenced_phase [OF assms(1) f]
  show ?thesis
    using f p frame_finishStop [of s e now] frame_yield [of s e now "eNode e" False RefusalEpochLost]
    by (simp add: epochLost_def Let_def clock_frame_cong)
qed

lemma takeLease_live:
  "nd \<noteq> '''' \<Longrightarrow> 0 < pLeaseTTL (sParams s) \<Longrightarrow> LeaseLive (takeLease s nd now) now"
  by (simp add: LeaseLive_def)

lemma frame_takeLease:
  assumes "nd \<noteq> ''''" and "claims (eKind e)"
  shows "anchor_frame s e now (takeLease s nd now)"
  using assms by (auto simp: anchor_frame_def claims_def)

lemma ready_ttl: "ready s now \<Longrightarrow> 0 < pLeaseTTL (sParams s)"
  using fill_pos(1) [of "sParams s"] by (simp add: ready_def)

lemma clock_frameI:
  "sTrace s' = sTrace s \<Longrightarrow> since_frame s now s' \<Longrightarrow> anchor_frame s e now s' \<Longrightarrow>
   clock_frame s e now s'"
  by (simp add: clock_frame_def)

lemma frame_operatorStart:
  assumes "ready s now" and "eKind e = EventOperatorStart"
    and "\<not> (eOwnerless e \<and> sPhase s \<in> {PhaseStopping, PhaseFailed})"
  shows "clock_frame s e now (fst (operatorStart s e now))"
proof -
  have "clock_frame s e now (fst (ownerlessStart s e now))" if "sPhase s \<noteq> PhaseFailed"
    using that assms(2) by (simp add: ownerlessStart_def Let_def frame_defs)
  moreover have "clock_frame s e now (fst (advancingStart s e now))" if "eNode e \<noteq> ''''"
  proof (rule clock_frameI)
    show "since_frame s now (fst (advancingStart s e now))"
      using that takeLease_live [OF that ready_ttl [OF assms(1)], of now]
      by (simp add: advancingStart_def Let_def since_frame_def LeaseLive_def)
    show "anchor_frame s e now (fst (advancingStart s e now))"
      using assms(2) frame_takeLease [OF that, of e s now]
      by (simp add: advancingStart_def Let_def anchor_frame_def claims_def)
  qed (simp add: advancingStart_def Let_def)
  ultimately show ?thesis using assms by (auto simp: operatorStart_def)
qed

lemma frame_operatorStop:
  assumes "eKind e = EventOperatorStop" shows "clock_frame s e now (fst (operatorStop s e now))"
proof -
  have "clock_frame s e now (bump s\<lparr>sDesired := DesiredStop, sStoppedByOperator := True,
      sPhase := PhaseStopping, sSpecRevision := n\<rparr>)" for n
    using assms by (simp add: frame_defs)
  then show ?thesis using assms by (simp add: operatorStop_def Let_def)
qed

lemma frame_operatorDelete:
  assumes "eKind e = EventOperatorDelete" shows "clock_frame s e now (fst (operatorDelete s e now))"
proof -
  have "clock_frame s e now (bump s\<lparr>sDesired := DesiredStop, sStoppedByOperator := True,
      sPhase := PhaseStopping, sPendingDelete := True\<rparr>)"
    using assms by (simp add: frame_defs)
  then show ?thesis using assms by (simp add: operatorDelete_def Let_def case_prod_unfold)
qed

lemma frame_acquire:
  assumes "ready s now" and "eKind e \<in> {EventAcquire, EventLeaseExpired}"
  shows "clock_frame s e now (fst (acquire s e now))"
proof -
  define t where "t = bump (takeLease s (eNode e) now)\<lparr>sPhase := PhaseStarting, sRunID := '''',
      sLastError := ''''\<rparr>"
  have "clock_frame s e now (if sPhase s = PhaseFailed then t\<lparr>sFailedReason := ReasonNone,
      sFailedAt := 0, sFailedSpec := 0\<rparr> else t)" if "eNode e \<noteq> ''''"
  proof (rule clock_frameI)
    let ?t = "if sPhase s = PhaseFailed then t\<lparr>sFailedReason := ReasonNone, sFailedAt := 0, sFailedSpec := 0\<rparr> else t"
    show "since_frame s now ?t"
      using takeLease_live [OF that ready_ttl [OF assms(1)], of now]
      by (simp add: t_def since_frame_def LeaseLive_def)
    show "anchor_frame s e now ?t"
      using assms(2) frame_takeLease [OF that, of e s now]
      by (auto simp: t_def anchor_frame_def claims_def)
  qed (simp add: t_def)
  then show ?thesis using assms(2) by (auto simp: acquire_def Let_def simp flip: t_def)
qed

lemma frame_stop:
  assumes "ready s now" and "eKind e \<in> {EventStopConfirmed, EventStopExpired}"
  shows "clock_frame s e now (fst (stopConfirmed s e now))"
    "clock_frame s e now (fst (stopExpired s e now))"
  using assms fenced_phase [OF assms(1), of e] frame_finishStop [of s e now]
  by (auto simp: stopConfirmed_def stopExpired_def InStopSet_def)

lemma frame_dumpReady:
  assumes "ready s now" and "rDecision (snd (dumpReady s e now)) = DecisionApplied"
    and "eKind e = EventDumpReady"
  shows "clock_frame s e now (fst (dumpReady s e now))"
proof -
  have f: "fence s e = fenceOK" using assms(2) by (auto simp: dumpReady_def split: if_splits)
  have "clock_frame s e now (bump s\<lparr>sPhase := PhaseRunning, sRetryAttempt := 0, sRetryUntil := 0,
      sLastError := '''', sFailedReason := ReasonNone, sFailedAt := 0, sTailSince := 0,
      sProgressAt := now, sRefusal := []\<rparr>)"
    using assms(3) fenced_phase [OF assms(1) f] by (simp add: frame_defs)
  then show ?thesis
    using f assms(2) frame_epochLost [OF assms(1), of e] by (auto simp: dumpReady_def Let_def)
qed

lemma frame_retryable:
  assumes "ready s now" and "rDecision (snd (retryable s e now)) = DecisionApplied"
    and "eKind e = EventRetryableError"
  shows "clock_frame s e now (fst (retryable s e now))"
proof -
  have f: "fence s e = fenceOK" using assms(2) by (auto simp: retryable_def split: if_splits)
  note p = fenced_phase [OF assms(1) f]
  have "clock_frame s e now (bump s\<lparr>sPhase := PhaseRetryBackoff, sRetryAttempt := a,
      sRetryUntil := u, sLastError := l\<rparr>)" for a u l
    using assms(3) p by (simp add: frame_defs)
  then show ?thesis
    using f p assms(2) frame_epochLost [OF assms(1), of e] frame_finishStop [of s e now]
    by (auto simp: retryable_def Let_def)
qed

lemma frame_terminal:
  assumes "ready s now" and "rDecision (snd (terminal s e now)) = DecisionApplied"
    and "eKind e = EventTerminalError"
  shows "clock_frame s e now (fst (terminal s e now))"
proof -
  have f: "fence s e = fenceOK" using assms(2) by (auto simp: terminal_def split: if_splits)
  note p = fenced_phase [OF assms(1) f]
  have "clock_frame s e now (release (bump s\<lparr>sPhase := PhaseFailed, sFailedReason := r,
      sFailedAt := now, sFailedSpec := n, sLastError := l, sDesired := DesiredRun\<rparr>) now)" for r n l
    using assms(3) p by (simp add: frame_defs)
  then show ?thesis
    using f p assms(2,3) frame_epochLost [OF assms(1), of e] frame_finishStop [of s e now]
    by (auto simp: terminal_def Let_def split: option.split)
qed

lemma frame_tailUnreadable:
  assumes "ready s now" and "rDecision (snd (tailUnreadable s e now)) = DecisionApplied"
    and "eKind e = EventTailUnreadable"
  shows "clock_frame s e now (fst (tailUnreadable s e now))"
proof -
  have f: "fence s e = fenceOK" using assms(2) by (auto simp: tailUnreadable_def split: if_splits)
  note p = fenced_phase [OF assms(1) f]
  show ?thesis
    using f p assms(2,3) frame_epochLost [OF assms(1), of e] frame_finishStop [of s e now]
      frame_yield [of s e now "eNode e" "pStorage (sParams s) = StoragePerNode" RefusalTail]
    by (auto simp: tailUnreadable_def Let_def)
qed

lemma frame_chain:
  "eKind e = EventChainVerified \<Longrightarrow> clock_frame s e now (fst (chainVerified s e now))"
  "eKind e = EventChainOwnerGone \<Longrightarrow> clock_frame s e now (fst (chainOwnerGone s e now))"
  "eKind e = EventChainOwnerBack \<Longrightarrow> clock_frame s e now (fst (chainOwnerBack s e now))"
proof -
  have "clock_frame s e now (s\<lparr>sChain := c\<rparr>)" if "eKind e = EventChainVerified" for c
    using that by (simp add: frame_defs)
  then show "eKind e = EventChainVerified \<Longrightarrow> clock_frame s e now (fst (chainVerified s e now))"
    by (simp add: chainVerified_def Let_def)
  have "clock_frame s e now (fst (failChainOwner s now))"
    if "eKind e = EventChainOwnerGone" "sPhase s = PhaseLeaseDegraded"
    using that by (simp add: failChainOwner_def Let_def frame_defs)
  then show "eKind e = EventChainOwnerGone \<Longrightarrow> clock_frame s e now (fst (chainOwnerGone s e now))"
    by (auto simp: chainOwnerGone_def Let_def)
  have "clock_frame s e now (bump s\<lparr>sPhase := PhaseLeaseDegraded, sFailedReason := ReasonNone,
      sFailedAt := 0, sUnownedSince := 0\<rparr>)" if "eKind e = EventChainOwnerBack" "sPhase s = PhaseFailed"
    using that by (simp add: frame_defs)
  then show "eKind e = EventChainOwnerBack \<Longrightarrow> clock_frame s e now (fst (chainOwnerBack s e now))"
    by (auto simp: chainOwnerBack_def Let_def)
qed

lemma frame_renew:
  assumes "ready s now" and "eKind e = EventRenew"
  shows "clock_frame s e now (fst (renew s e now))"
proof -
  have "clock_frame s e now (s\<lparr>sLease := (sLease s)\<lparr>lExpireAt := x, lRenewedAt := y\<rparr>\<rparr>)" for x y
    using assms by (simp add: frame_defs)
  then show ?thesis using assms(2) by (simp add: renew_def)
qed

lemma frame_rest:
  assumes "eKind e \<noteq> EventDumpReady"
  shows "clock_frame s e now (fst (metaLockTimeout s e now))"
    "clock_frame s e now (fst (sweep s e now))" "clock_frame s e now (fst (takeLock s e now))"
    "clock_frame s e now (fst (legacyUpdate s))"
  using assms by (simp_all add: metaLockTimeout_def sweep_def takeLock_def legacyUpdate_def frame_defs)

lemma handle_frame:
  assumes "ready s now" and "clean_event s e"
    and "rDecision (snd (handle s e now)) = DecisionApplied"
  shows "clock_frame s e now (fst (handle s e now))"
  using assms
  by (cases "eKind e") (simp_all add: handle_def clean_event_def frame_operatorStart
      frame_operatorStop frame_operatorDelete frame_stop frame_acquire frame_dumpReady
      frame_retryable frame_terminal frame_tailUnreadable frame_epochLost frame_chain frame_renew
      frame_rest)

end
