(* ===== verification/Own_Safe.thy ===== *)
theory Own_Safe
  imports Own_Clock
begin

text \<open>
  The flagship of the ownership component: along every history of admitted events the
  checker of \<open>invariant.go\<close> has nothing to report, for the state and for the transition.
  The history is a run of the transition, an instance of the \<open>machine\<close> interface.
\<close>

section \<open>The inductive invariant\<close>

definition own_inv :: "State \<times> instant \<Rightarrow> bool" where
  "own_inv c = (case c of (s, t) \<Rightarrow>
     0 < t \<and> row_ok s \<and> sFindings s = derive s \<and> (\<not> sDeleted s \<longrightarrow> clock_ok s t))"

text \<open>One entry of a history: what the step observes of the cluster (the nodes and whether the
  metadata store is partitioned away, both written by others), the event, and the instant.\<close>

record Input =
  inNodes :: "Node list"
  inPartitioned :: bool
  inEvent :: Event
  inNow :: instant

definition observe :: "State \<Rightarrow> Input \<Rightarrow> State" where
  "observe s x = s\<lparr>sNodes := inNodes x, sPartitioned := inPartitioned x\<rparr>"

definition own_result :: "State \<Rightarrow> Input \<Rightarrow> Result" where
  "own_result s x = Step (observe s x) (inEvent x) (inNow x)"

definition own_step :: "State \<times> instant \<Rightarrow> Input \<Rightarrow> State \<times> instant" where
  "own_step c x = (case c of (s, t) \<Rightarrow> (rState (own_result s x), inNow x))"

definition own_ok :: "State \<times> instant \<Rightarrow> Input \<Rightarrow> bool" where
  "own_ok c x = (case c of (s, t) \<Rightarrow> t \<le> inNow x \<and> clean_event s (inEvent x))"

lemma observe_sel [simp]:
  "sPhase (observe s x) = sPhase s" "sDesired (observe s x) = sDesired s"
  "sLease (observe s x) = sLease s" "sChain (observe s x) = sChain s"
  "sRefusal (observe s x) = sRefusal s" "sParams (observe s x) = sParams s"
  "sTrace (observe s x) = sTrace s" "sFindings (observe s x) = sFindings s"
  "sDeleted (observe s x) = sDeleted s" "sRowGeneration (observe s x) = sRowGeneration s"
  "sUnownedSince (observe s x) = sUnownedSince s" "sProgressAt (observe s x) = sProgressAt s"
  by (simp_all add: observe_def)

lemma own_inv_observe [simp]: "own_inv (observe s x, t) \<longleftrightarrow> own_inv (s, t)"
  unfolding own_inv_def prod.case row_defs clock_ok_def replay_def derive_def derive_unsorted_def
  by (simp add: observe_def)

lemma clean_observe [simp]: "clean_event (observe s x) e \<longleftrightarrow> clean_event s e"
  by (simp add: clean_event_def)

lemma derive_settle: "sFindings (settle e s now) = derive (settle e s now)"
  by (simp add: settle_def Let_def derive_def derive_unsorted_def)

lemma derive_prepare: "sTaskID s \<noteq> '''' \<or> sDeleted s \<Longrightarrow> derive (prepare s now) = derive s"
  by (auto simp: derive_def derive_unsorted_def)

lemma row_task: "row_ok s \<Longrightarrow> sTaskID s \<noteq> '''' \<or> sDeleted s"
  by (auto simp: row_ok_def facts_ok_def)

lemma own_inv_prepare:
  "own_inv (s, t) \<Longrightarrow> t \<le> now \<Longrightarrow> own_inv (prepare s now, now)"
  using derive_prepare [OF row_task, of s now]
  by (auto simp: own_inv_def row_ok_prepare clock_ok_cong intro: clock_ok_mono)

lemma ready_prepare: "own_inv (s, t) \<Longrightarrow> t \<le> now \<Longrightarrow> \<not> sDeleted s \<Longrightarrow> ready (prepare s now) now"
  by (simp add: own_inv_def row_ok_def ready_def)

lemma clean_prepare [simp]: "clean_event (prepare s now) e = clean_event s e"
  by (simp add: clean_event_def)

text \<open>The two ways a step ends.\<close>

lemma Step_unapplied:
  assumes "rDecision (Step s e now) \<noteq> DecisionApplied"
  shows "rState (Step s e now) = prepare s now \<and> rHTTP (Step s e now) \<in> {0, 204, 409, 503}
    \<and> rOpened (Step s e now) = [] \<and> rClosed (Step s e now) = []"
  using assms handle_answered [of "prepare s now" e now]
  by (auto simp: Step_def Let_def finish_def case_prod_unfold answered_def split: if_splits)

lemma Step_applied:
  assumes "rDecision (Step s e now) = DecisionApplied"
  defines "p \<equiv> handle (prepare s now) e now"
  shows "rState (Step s e now) = settle e (fst p) now"
    and "rDecision (snd p) = DecisionApplied"
    and "rHTTP (Step s e now) = rHTTP (snd p)"
    and "rHTTP (snd p) \<in> {0, 204}"
    and "(rOpened (Step s e now), rClosed (Step s e now)) =
           diffFindings (sFindings s) (sFindings (settle e (fst p) now))"
    and "sDeleted s \<Longrightarrow> eKind e = EventSweep"
proof -
  have d: "\<not> (sDeleted s \<and> eKind e \<noteq> EventSweep)"
    using assms(1) by (auto simp: Step_def Let_def split: if_splits)
  then have eq: "Step s e now = finish (prepare s now) e now p"
    by (auto simp: Step_def Let_def p_def)
  then have dec: "rDecision (snd p) = DecisionApplied"
    using assms(1) by (auto simp: finish_def case_prod_unfold Let_def split: if_splits)
  then show "rDecision (snd p) = DecisionApplied" .
  then show "rHTTP (snd p) \<in> {0, 204}"
    using handle_answered [of "prepare s now" e now] by (simp add: answered_def p_def)
  show "rState (Step s e now) = settle e (fst p) now" "rHTTP (Step s e now) = rHTTP (snd p)"
    "(rOpened (Step s e now), rClosed (Step s e now)) =
       diffFindings (sFindings s) (sFindings (settle e (fst p) now))"
    using dec by (simp_all add: eq finish_def case_prod_unfold Let_def)
  show "sDeleted s \<Longrightarrow> eKind e = EventSweep" using d by auto
qed

lemma sweep_deleted: "sDeleted (fst (sweep s e now)) = sDeleted s"
  by (simp add: sweep_def)

lemma row_ok_handle:
  assumes "own_inv (s, t)" "t \<le> now" "clean_event s e" "sDeleted s \<longrightarrow> eKind e = EventSweep"
  shows "row_ok (fst (handle (prepare s now) e now))"
proof (cases "sDeleted s")
  case True
  then show ?thesis using assms by (simp add: handle_def sweep_deleted row_ok_deleted)
next
  case False
  then show ?thesis using assms ready_prepare by (intro handle_row) auto
qed

lemma Step_keeps:
  assumes "own_inv (s, t)" and "t \<le> now" and "clean_event s e"
  shows "own_inv (rState (Step s e now), now)"
proof (cases "rDecision (Step s e now) = DecisionApplied")
  case False
  then show ?thesis using Step_unapplied [OF False] own_inv_prepare [OF assms(1,2)] by simp
next
  case True
  define s' where "s' = fst (handle (prepare s now) e now)"
  note ap = Step_applied [OF True, folded s'_def]
  have row: "row_ok s'" unfolding s'_def using assms ap(6) by (intro row_ok_handle) auto
  have clock: "clock_ok (settle e s' now) now" if "\<not> sDeleted s'"
  proof (rule clock_settle)
    have nd: "\<not> sDeleted s" using that ap(6) by (auto simp: s'_def handle_def sweep_deleted)
    then show "clock_ok (prepare s now) t" using assms(1) by (simp add: own_inv_def clock_ok_cong)
    show "clock_frame (prepare s now) e now s'"
      unfolding s'_def using assms nd ap(2) ready_prepare by (intro handle_frame) auto
  qed (use assms that in \<open>auto simp: own_inv_def\<close>)
  show ?thesis
    using row clock assms by (simp add: own_inv_def ap(1) derive_settle)
qed

interpretation own: machine own_step own_ok own_inv
  by unfold_locales (auto simp: own_step_def own_ok_def own_result_def intro: Step_keeps)

section \<open>The checker on an invariant state\<close>

lemma viol_Nil [simp]: "viol b i m = [] \<longleftrightarrow> \<not> b" "viol False i m = []"
  by (simp_all add: viol_def)

lemma check_dups_Nil: "distinct (map finding_key fs) \<Longrightarrow> finding_key ` set fs \<inter> set seen = {} \<Longrightarrow>
  check_dups seen fs = []"
  by (induction fs arbitrary: seen) auto

lemma check_failed_Nil: "failed_ok s \<Longrightarrow> check_failed s = []"
  by (auto simp: failed_ok_def check_failed_def failed_spec_bad_def split: if_splits)

lemma check_refusals_Nil:
  assumes "refusals_ok s" and "fill (sParams s) = sParams s"
  shows "concat (map (check_refusal (pStorage (sParams s))) (sRefusal s)) = []"
  using assms by (auto simp: refusals_ok_def check_refusal_def refusal_ok_def split: if_splits)

lemma check_chain_Nil: "facts_ok s \<Longrightarrow> check_chain s = []"
  by (auto simp: check_chain_def facts_ok_def Verified_def)

lemma check_findings_Nil:
  assumes "sFindings s = derive s" and "\<not> sDeleted s" and "refusals_ok s"
  shows "check_findings s = []"
proof -
  have "distinct (map finding_key (derive_unsorted s))"
    using assms(3) by (intro distinct_derive_keys) (simp add: refusals_ok_def)
  then have "distinct (map finding_key (sFindings s))"
    using assms(1,2) by (simp add: derive_def distinct_map)
  then have "check_dups [] (sFindings s) = []" by (intro check_dups_Nil) auto
  then show ?thesis
    using hasFinding_derive [OF assms(1,2)] by (auto simp: check_findings_def)
qed

lemma phase_ok_covered: "phase_ok s \<Longrightarrow> Covered s now"
  by (cases "sPhase s") (auto simp: phase_ok_def Covered_def InClaimSet_def InStopSet_def)

text \<open>On a row that keeps the invariant the only open question is the progress clock.\<close>

lemma Check_row:
  assumes "row_ok s" and "sFindings s = derive s" and "fill (sParams s) = sParams s"
    and "\<not> sDeleted s"
  shows "Check s now = viol (ProgressOverdue s now \<noteq> sNoProgress s) ''7''
    ''TASK_NO_PROGRESS does not match the sweep and no_progress_after clocks''"
proof -
  have parts: "phase_ok s" "failed_ok s" "refusals_ok s" "facts_ok s"
    using assms by (simp_all add: row_ok_def)
  have wish: "sDesired s = DesiredRun \<or> sDesired s = DesiredStop"
    using parts(1) by (cases "sPhase s") (simp_all add: phase_ok_def)
  have stop: "(sDesired s = DesiredStop) = sStoppedByOperator s"
    using parts(1) by (simp add: phase_ok_def)
  have health: "criticalOpen s \<Longrightarrow> HealthCode s now = 503" "sMetaLockStalled s \<Longrightarrow> HealthCode s now = 503"
    using parts(4) by (simp_all add: HealthCode_def facts_ok_def)
  have v: "viol b i m = []" if "\<not> b" for b i m using that by simp
  have "viol (sDesired s \<noteq> DesiredRun \<and> sDesired s \<noteq> DesiredStop) i m = []"
    "viol ((sDesired s = DesiredStop) \<noteq> sStoppedByOperator s) i m = []"
    "viol (\<not> Covered s now) i m = []"
    "viol (criticalOpen s \<and> HealthCode s now \<noteq> 503) i m = []"
    "viol (sMetaLockStalled s \<and> HealthCode s now \<noteq> 503) i m = []" for i m
    using wish stop health phase_ok_covered [OF parts(1), of now] by (intro v; auto)+
  then show ?thesis
    using assms(4) check_failed_Nil [OF parts(2)] check_refusals_Nil [OF parts(3) assms(3)]
      check_chain_Nil [OF parts(4)] check_findings_Nil [OF assms(2,4) parts(3)]
      hasFinding_derive(4) [OF assms(2,4)]
    by (simp only: Check_def if_False append_Nil append_Nil2)
qed

section \<open>The checker on a transition\<close>

lemma closed_not_reopened:
  assumes "diffFindings before after = (rOpened r, rClosed r)" shows "check_reopen r = []"
proof -
  have "finding_key ` set (rOpened r) \<inter> finding_key ` set (rClosed r) = {}"
    using diffFindings_keys [OF assms] by auto
  then have "\<not> list_ex (\<lambda>g. finding_key g = finding_key f) (rOpened r)" if "f \<in> set (rClosed r)" for f
    using that by (auto simp: list_ex_iff)
  then show ?thesis by (simp add: check_reopen_def)
qed

lemma unapplied_Nil:
  assumes "rDecision (Step s e now) \<noteq> DecisionApplied"
  defines "r \<equiv> Step s e now"
  shows "check_desired_failed s (rState r) e r = []" "check_fence s (rState r) e r now = []"
    "check_chain_write s (rState r) e r = []" "check_reopen r = []"
    "check_http s (rState r) r = []" "check_start s (rState r) e r = []"
  using Step_unapplied [OF assms(1)] assms(1) unfolding r_def [symmetric]
  by (auto simp: check_desired_failed_def check_fence_def check_chain_write_def check_reopen_def
      check_http_def check_start_def moved_def row_moved_def Let_def)

lemma effect_desired_failed:
  assumes "effect_ok s e now s'" shows "check_desired_failed s s' e r = []"
  using assms by (auto simp: check_desired_failed_def Let_def effect_ok_def wish_kept_def
      failed_kept_def)

lemma effect_chain_write:
  assumes "effect_ok s e now s'" and "rDecision r = DecisionApplied"
  shows "check_chain_write s s' e r = []"
  using assms by (auto simp: check_chain_write_def Let_def effect_ok_def chain_kept_def)

lemma effect_fence:
  assumes "effect_ok s e now s'" and "rDecision r = DecisionApplied"
    and "eKind e = EventStopExpired \<Longrightarrow> \<not> LeaseLive s now"
    and "epochFenced (eKind e) \<Longrightarrow> eNode e = lOwner (sLease s) \<and> eEpoch e = lEpoch (sLease s)"
  shows "check_fence s s' e r now = []"
  using assms by (auto simp: check_fence_def Let_def effect_ok_def lease_kept_def failed_kept_def
      split: if_splits)

lemma stopExpired_guard:
  "rDecision (snd (stopExpired s e now)) = DecisionApplied \<Longrightarrow> \<not> LeaseLive s now"
  by (auto simp: stopExpired_def InStopSet_def split: if_splits)

text \<open>What a committed start writes.\<close>

lemma operatorStart_commit:
  assumes "rDecision (snd (operatorStart s e now)) = DecisionApplied"
    and "\<not> (eOwnerless e \<and> sPhase s = PhaseStopping)"
  defines "t \<equiv> fst (operatorStart s e now)"
  shows "sPhase t = PhaseStarting \<and> sDesired t = DesiredRun \<and> sRunID t = ''''
    \<and> sTailSince t = sTailSince s
    \<and> (if eOwnerless e then lOwner (sLease t) = '''' \<and> lEpoch (sLease t) = lEpoch (sLease s)
       else lOwner (sLease t) = eNode e \<and> eNode e \<noteq> '''')"
proof -
  have "operatorStart s e now = (if eOwnerless e then ownerlessStart s e now else advancingStart s e now)
      \<and> eNode e \<noteq> ''''"
    using assms(1,2) by (auto simp: operatorStart_def split: if_splits)
  then show ?thesis
    unfolding t_def by (simp add: ownerlessStart_def advancingStart_def Let_def)
qed

lemma applied_start_Nil:
  assumes "rDecision (Step s e now) = DecisionApplied" and "clean_event s e"
  shows "check_start s (rState (Step s e now)) e (Step s e now) = []"
proof (cases "eKind e = EventOperatorStart")
  case True
  have c: "\<not> (eOwnerless e \<and> sPhase s = PhaseStopping)"
    using assms(2) True by (auto simp: clean_event_def)
  note ap = Step_applied [OF assms(1)]
  have "rDecision (snd (operatorStart (prepare s now) e now)) = DecisionApplied"
    using ap(2) True by (simp add: handle_def)
  from operatorStart_commit [OF this] c True assms(1) ap(1) show ?thesis
    by (auto simp: check_start_def Let_def handle_def split: if_splits)
qed (simp add: check_start_def)

lemma effect_prepare: "effect_ok (prepare s now) e now t = effect_ok s e now t"
  by (simp only: effect_defs prepare_sel LeaseLive_def)

lemma effect_settle: "effect_ok s e now (settle e t now) = effect_ok s e now t"
  by (simp only: effect_defs settle_sel)

lemma applied_effect:
  assumes "own_inv (s, t)" and "t \<le> now" and "clean_event s e"
    and "rDecision (Step s e now) = DecisionApplied" and "\<not> sDeleted s"
  shows "effect_ok s e now (rState (Step s e now))"
proof -
  have "effect_ok (prepare s now) e now (fst (handle (prepare s now) e now))"
    using assms ready_prepare by (intro handle_effect) auto
  then show ?thesis
    by (simp only: Step_applied(1) [OF assms(4)] effect_prepare effect_settle)
qed

lemma applied_Nil:
  assumes inv: "own_inv (s, t)" and le: "t \<le> now" and clean: "clean_event s e"
    and ap: "rDecision (Step s e now) = DecisionApplied" and nd: "\<not> sDeleted s"
  defines "r \<equiv> Step s e now"
  shows "check_desired_failed s (rState r) e r = []" "check_fence s (rState r) e r now = []"
    "check_chain_write s (rState r) e r = []" "check_reopen r = []"
    "check_http s (rState r) r = []" "check_start s (rState r) e r = []"
proof -
  have eff: "effect_ok s e now (rState r)"
    unfolding r_def by (rule applied_effect [OF inv le clean ap nd])
  have d: "rDecision (snd (handle (prepare s now) e now)) = DecisionApplied"
    by (rule Step_applied(2) [OF ap])
  show "check_desired_failed s (rState r) e r = []" by (rule effect_desired_failed [OF eff])
  show "check_chain_write s (rState r) e r = []"
    using effect_chain_write [OF eff] ap by (simp add: r_def)
  show "check_fence s (rState r) e r now = []"
  proof (rule effect_fence [OF eff])
    show "rDecision r = DecisionApplied" using ap by (simp add: r_def)
    show "\<not> LeaseLive s now" if "eKind e = EventStopExpired"
      using stopExpired_guard [of "prepare s now" e now] d that
      by (simp add: handle_def LeaseLive_def)
    show "eNode e = lOwner (sLease s) \<and> eEpoch e = lEpoch (sLease s)" if "epochFenced (eKind e)"
      using applied_fenced [OF d that] by simp
  qed
  show "check_reopen r = []"
    using closed_not_reopened [of "sFindings s" _ r] Step_applied(5) [OF ap] by (simp add: r_def)
  show "check_http s (rState r) r = []"
    using Step_applied(3,4) [OF ap] by (auto simp: check_http_def r_def)
  show "check_start s (rState r) e r = []"
    using applied_start_Nil [OF ap clean] by (simp add: r_def)
qed

lemma sweep_of_deleted_Nil:
  assumes "sDeleted s" and "rDecision (Step s e now) = DecisionApplied"
  defines "r \<equiv> Step s e now"
  shows "check_desired_failed s (rState r) e r = []" "check_fence s (rState r) e r now = []"
    "check_chain_write s (rState r) e r = []" "check_reopen r = []"
    "check_http s (rState r) r = []" "check_start s (rState r) e r = []"
proof -
  note ap = Step_applied [OF assms(2)]
  have k: "eKind e = EventSweep" using ap(6) assms(1) by blast
  have st: "rState r = settle e (fst (sweep (prepare s now) e now)) now"
    using ap(1) k by (simp add: handle_def r_def)
  show "check_reopen r = []"
    using closed_not_reopened [of "sFindings s" _ r] ap(5) by (simp add: r_def)
  show "check_http s (rState r) r = []"
    using ap(3,4) by (auto simp: check_http_def r_def)
  have sel: "sPhase (rState r) = sPhase s" "sDesired (rState r) = sDesired s"
    "sLease (rState r) = sLease s" "sChain (rState r) = sChain s"
    by (simp_all add: st sweep_def)
  show "check_desired_failed s (rState r) e r = []" "check_fence s (rState r) e r now = []"
    "check_chain_write s (rState r) e r = []" "check_start s (rState r) e r = []"
    using assms(2) k by (auto simp: sel check_desired_failed_def check_fence_def
        check_chain_write_def check_start_def epochFenced_def Let_def r_def [symmetric])
qed

text \<open>No handler writes the parameters.\<close>

lemma finishStop_params [simp]: "sParams (fst (finishStop s now)) = sParams s"
  by (simp add: finishStop_def Let_def case_prod_unfold)

lemma epochLost_params [simp]: "sParams (fst (epochLost s e now)) = sParams s"
  by (simp add: epochLost_def Let_def)

lemma operator_params:
  "sParams (fst (operatorStart s e now)) = sParams s"
  "sParams (fst (operatorStop s e now)) = sParams s"
  "sParams (fst (operatorDelete s e now)) = sParams s"
  by (simp_all add: operatorStart_def operatorStop_def operatorDelete_def ownerlessStart_def
      ownerlessRestartWhileStopping_def advancingStart_def Let_def case_prod_unfold)

lemma runner_params:
  "sParams (fst (stopConfirmed s e now)) = sParams s" "sParams (fst (stopExpired s e now)) = sParams s"
  "sParams (fst (acquire s e now)) = sParams s" "sParams (fst (dumpReady s e now)) = sParams s"
  "sParams (fst (retryable s e now)) = sParams s" "sParams (fst (terminal s e now)) = sParams s"
  "sParams (fst (tailUnreadable s e now)) = sParams s"
  by (simp_all add: stopConfirmed_def stopExpired_def acquire_def dumpReady_def retryable_def
      terminal_def tailUnreadable_def Let_def split: option.split)

lemma side_params:
  "sParams (fst (chainVerified s e now)) = sParams s" "sParams (fst (chainOwnerGone s e now)) = sParams s"
  "sParams (fst (chainOwnerBack s e now)) = sParams s" "sParams (fst (metaLockTimeout s e now)) = sParams s"
  "sParams (fst (renew s e now)) = sParams s" "sParams (fst (sweep s e now)) = sParams s"
  "sParams (fst (takeLock s e now)) = sParams s" "sParams (fst (legacyUpdate s)) = sParams s"
  by (simp_all add: chainVerified_def chainOwnerGone_def chainOwnerBack_def failChainOwner_def
      metaLockTimeout_def renew_def sweep_def takeLock_def legacyUpdate_def Let_def)

lemmas handler_params = operator_params runner_params side_params

lemma handle_params:
  assumes "fill (sParams s) = sParams s"
  shows "fill (sParams (fst (handle s e now))) = sParams (fst (handle s e now))"
proof -
  have "sParams (fst (handle s e now)) = sParams s"
    by (cases "eKind e") (simp_all add: handle_def handler_params)
  with assms show ?thesis by simp
qed

lemma applied_Check:
  assumes inv: "own_inv (s, t)" and le: "t \<le> now" and clean: "clean_event s e"
    and ap: "rDecision (Step s e now) = DecisionApplied"
  shows "Check (rState (Step s e now)) now = []"
proof (cases "sDeleted (rState (Step s e now))")
  case True
  then show ?thesis by (simp add: Check_def)
next
  case False
  define s' where "s' = fst (handle (prepare s now) e now)"
  have st: "rState (Step s e now) = settle e s' now"
    unfolding s'_def by (rule Step_applied(1) [OF ap])
  have inv': "own_inv (settle e s' now, now)"
    using Step_keeps [OF inv le clean] by (simp add: st)
  have fill: "fill (sParams s') = sParams s'"
    unfolding s'_def by (rule handle_params) simp
  have "ProgressOverdue (settle e s' now) now = sNoProgress (settle e s' now)"
    using inv' fill False by (intro overdue_settle) (auto simp: own_inv_def st)
  then show ?thesis
    using inv' fill False by (simp add: st Check_row own_inv_def)
qed

lemma unapplied_Check:
  assumes inv: "own_inv (s, t)" and le: "t \<le> now"
    and ap: "rDecision (Step s e now) \<noteq> DecisionApplied"
  shows "dropInv (Check (rState (Step s e now)) now) ''7'' = []"
proof (cases "sDeleted s")
  case False
  have "own_inv (prepare s now, now)" by (rule own_inv_prepare [OF inv le])
  with False have "Check (prepare s now) now =
      viol (ProgressOverdue (prepare s now) now \<noteq> sNoProgress (prepare s now)) ''7''
        ''TASK_NO_PROGRESS does not match the sweep and no_progress_after clocks''"
    by (intro Check_row) (simp_all add: own_inv_def)
  then show ?thesis
    using Step_unapplied [OF ap] by (simp add: dropInv_def viol_def emit_def)
qed (use Step_unapplied [OF ap] in \<open>simp add: Check_def dropInv_def\<close>)

theorem CheckStep_Nil:
  assumes "own_inv (s, t)" and "t \<le> now" and "clean_event s e"
  shows "CheckStep s (rState (Step s e now)) e (Step s e now) now = []"
proof (cases "rDecision (Step s e now) = DecisionApplied")
  case False
  then show ?thesis
    using unapplied_Nil [OF False] unapplied_Check [OF assms(1,2) False] by (simp add: CheckStep_def)
next
  case True
  then show ?thesis
    using applied_Check [OF assms True] applied_Nil [OF assms True] sweep_of_deleted_Nil [OF _ True]
    by (cases "sDeleted s") (simp_all add: CheckStep_def)
qed

end
