(* ===== verification/Own_Props.thy ===== *)
theory Own_Props
  imports Own_Safe
begin

text \<open>
  The properties of the ownership component, stated over the transition and the checker of
  the sources, with a witness for each hypothesis.
\<close>

section \<open>Histories\<close>

definition own_start :: "Params \<Rightarrow> Node list \<Rightarrow> State" where
  "own_start p ns = New\<lparr>sParams := p, sNodes := ns\<rparr>"

lemma own_inv_start:
  assumes "pRefusalRetryCap p \<le> max_int64" and "0 < t"
  shows "own_inv (own_start p ns, t)"
proof -
  have "pRefusalRetryCap (fill p) \<le> max_int64"
    using assms(1) by (simp add: fill_def DefaultParams_def go_defs)
  then show ?thesis
    using assms(2)
    by (simp add: own_inv_def own_start_def New_def zero_defs row_defs derive_def derive_unsorted_def
        clock_ok_def replay_def replay_start_def epoch_lost_nodes_def Verified_def)
qed

text \<open>What no step undoes: a deleted row stays deleted, the epoch and the row generation never
  go back, and an epoch has one owner.\<close>

definition own_after :: "State \<times> instant \<Rightarrow> State \<times> instant \<Rightarrow> bool" where
  "own_after c c' = (case c of (s, t) \<Rightarrow> case c' of (s', t') \<Rightarrow>
     t \<le> t' \<and> (sDeleted s \<longrightarrow> sDeleted s')
     \<and> (\<not> sDeleted s' \<longrightarrow>
          lEpoch (sLease s) \<le> lEpoch (sLease s') \<and> sRowGeneration s \<le> sRowGeneration s'
          \<and> (lEpoch (sLease s') = lEpoch (sLease s) \<longrightarrow>
               lOwner (sLease s') = '''' \<or> lOwner (sLease s') = lOwner (sLease s))))"

lemma own_after_trans: "own_after a b \<Longrightarrow> own_after b c \<Longrightarrow> own_after a c"
  by (cases a; cases b; cases c) (auto simp: own_after_def)

lemma own_after_refl: "own_after a a"
  by (cases a) (auto simp: own_after_def)

lemma own_after_effect:
  assumes "effect_ok s e now s'" and "t \<le> now" and "\<not> sDeleted s"
  shows "own_after (s, t) (s', now)"
  using assms by (auto simp: own_after_def effect_ok_def lease_kept_def split: if_splits)

lemma own_after_step:
  assumes "own_inv (s, t)" and "t \<le> now" and "clean_event s e"
  shows "own_after (s, t) (rState (Step s e now), now)"
proof (cases "rDecision (Step s e now) = DecisionApplied")
  case False
  then show ?thesis using assms(2) Step_unapplied [OF False] by (simp add: own_after_def)
next
  case ap: True
  show ?thesis
  proof (cases "sDeleted s")
    case False
    then show ?thesis using own_after_effect [OF applied_effect [OF assms ap False] assms(2)] by simp
  next
    case True
    then show ?thesis
      using Step_applied(1,6) [OF ap] assms(2) by (simp add: own_after_def handle_def sweep_deleted)
  qed
qed

lemma own_after_run:
  assumes "own_inv c" and "admitted own_step own_ok c es"
  shows "own_after c (run own_step c es)"
proof (rule own.run_rel [OF own_after_refl own_after_trans])
  fix c x assume "own_inv c" "own_ok c x"
  then show "own_after c (own_step c x)"
    using own_after_step [of "observe (fst c) x" "snd c" "inNow x" "inEvent x"]
    by (cases c) (auto simp: own_step_def own_ok_def own_result_def own_after_def)
qed (use assms in auto)

section \<open>Concrete histories for the witnesses\<close>

definition demo_nodes :: "Node list" where
  "demo_nodes = [\<lparr>nID = ''n1'', nCanRead = True, nStopped = False, nHeartbeatAt = 1\<rparr>,
                 \<lparr>nID = ''n2'', nCanRead = True, nStopped = False, nHeartbeatAt = 1\<rparr>]"

definition demo_start :: State where
  "demo_start = own_start DefaultParams demo_nodes"

definition demo_input :: "Event \<Rightarrow> instant \<Rightarrow> Input" where
  "demo_input e now = \<lparr>inNodes = demo_nodes, inPartitioned = False, inEvent = e, inNow = now\<rparr>"

definition demo_started :: State where
  "demo_started = rState (own_result demo_start (demo_input (event_of EventOperatorStart ''n1'') 10))"

definition demo_dump :: Event where
  "demo_dump = (event_of EventDumpReady ''n1'')\<lparr>eEpoch := 1, eRowGeneration := 1\<rparr>"

definition demo_running :: State where
  "demo_running = rState (own_result demo_started (demo_input demo_dump 20))"

definition demo_history :: "Input list" where
  "demo_history = [demo_input (event_of EventOperatorStart ''n1'') 10, demo_input demo_dump 20]"

lemma demo_cap: "pRefusalRetryCap DefaultParams \<le> max_int64"
  by (simp add: DefaultParams_def go_defs)

lemma demo_admitted: "admitted own_step own_ok (demo_start, 1) demo_history"
  by (simp add: demo_history_def own_step_def own_ok_def clean_event_def demo_dump_def event_of_def
      demo_input_def)

lemma demo_running_eq: "run own_step (demo_start, 1) demo_history = (demo_running, 20)"
  by (simp add: demo_history_def own_step_def demo_running_def demo_started_def) (simp add: demo_input_def)

lemma demo_inv: "own_inv (demo_running, 20)"
  using own.run_keeps [OF own_inv_start [OF demo_cap, of 1 demo_nodes, folded demo_start_def] demo_admitted]
  by (simp add: demo_running_eq)

section \<open>Safety of every history\<close>

text \<open>C1. Start from a created row with any parameters whose retry cap fits an \<open>int64\<close> and any
  nodes, apply any history of admitted events at non-decreasing instants while the nodes change
  in any way, and apply one more admitted event: the checker of \<open>invariant.go\<close> reports nothing
  for that transition, so its ten invariants hold in the state reached and across the step.\<close>

theorem history_accepted:
  assumes "pRefusalRetryCap p \<le> max_int64" and "0 < t0"
    and "admitted own_step own_ok (own_start p ns, t0) (es @ [x])"
    and "run own_step (own_start p ns, t0) es = (s, t)"
  shows "CheckStep (observe s x) (rState (own_result s x)) (inEvent x) (own_result s x) (inNow x) = []"
proof -
  have "own_inv (s, t)" and "own_ok (s, t) x"
    using own.prefix_keeps [OF own_inv_start [OF assms(1,2)] assms(3)] assms(3,4)
    by (simp_all add: admitted_append)
  then show ?thesis
    unfolding own_result_def by (intro CheckStep_Nil [of _ t]) (auto simp: own_ok_def)
qed

theorem history_accepted_witness:
  "CheckStep (observe demo_started (demo_input demo_dump 20)) demo_running demo_dump
     (own_result demo_started (demo_input demo_dump 20)) 20 = []"
  using history_accepted [OF demo_cap, of 1 demo_nodes
      "[demo_input (event_of EventOperatorStart ''n1'') 10]" "demo_input demo_dump 20" demo_started 10]
    demo_admitted
  by (simp add: demo_history_def demo_running_def demo_start_def demo_started_def own_step_def
      demo_input_def)



text \<open>C3. A runner that lost its lease writes nothing: an event of a runner that carries another
  epoch than the row's, or comes from another node than the owner, is never applied, and the row
  it leaves is the row before the step with its parameters filled in.\<close>

theorem stale_runner_fenced:
  assumes "epochFenced (eKind e)"
    and "eEpoch e \<noteq> lEpoch (sLease s) \<or> eNode e \<noteq> lOwner (sLease s)"
  shows "rDecision (Step s e now) \<noteq> DecisionApplied \<and> rState (Step s e now) = prepare s now
    \<and> rOpened (Step s e now) = [] \<and> rClosed (Step s e now) = []"
proof -
  have "rDecision (Step s e now) \<noteq> DecisionApplied"
  proof
    assume ap: "rDecision (Step s e now) = DecisionApplied"
    show False using applied_fenced [OF Step_applied(2) [OF ap] assms(1)] assms(2) by auto
  qed
  then show ?thesis using Step_unapplied by blast
qed

theorem stale_runner_fenced_witness:
  "rDecision (Step demo_running (event_of EventRetryableError ''n1'') 30) \<noteq> DecisionApplied"
proof -
  have "eEpoch (event_of EventRetryableError ''n1'') \<noteq> lEpoch (sLease demo_running)" by code_simp
  moreover have "epochFenced (eKind (event_of EventRetryableError ''n1''))" by code_simp
  ultimately show ?thesis using stale_runner_fenced by blast
qed

section \<open>The row moves on\<close>

lemma InClaimSet_prepare [simp]:
  "InClaimSet (prepare s now) t = InClaimSet s t" "LeaseLive (prepare s now) t = LeaseLive s t"
  "RefusalBlocks (prepare s now) n t = RefusalBlocks s n t" "ownerDirGone (prepare s now) = ownerDirGone s"
  by (simp_all only: InClaimSet_def LeaseLive_def LegalRetry_def failedSpecClaimable_def
      RefusalBlocks_def ownerDirGone_def node_def prepare_sel)

lemma acquire_applies:
  assumes "InClaimSet s now" "\<not> RefusalBlocks s n now" "n \<noteq> ''''"
    and "ownerDirGone s \<longrightarrow> n = cOwner (sChain s)"
  defines "r \<equiv> Step s (event_of EventAcquire n) now"
  shows "rDecision r = DecisionApplied \<and> sPhase (rState r) = PhaseStarting
    \<and> sDesired (rState r) = DesiredRun \<and> sLease (rState r) = sLease (takeLease (prepare s now) n now)
    \<and> \<not> sDeleted (rState r) \<and> sParams (rState r) = fill (sParams s)"
  using assms InClaimSet_D [OF assms(1)]
  by (auto simp: Step_def handle_def finish_def acquire_def event_of_def Let_def case_prod_unfold)

lemma dumpReady_applies:
  fixes now :: instant
  assumes "\<not> sDeleted s" "lPresent (sLease s)" "lOwner (sLease s) = n" "n \<noteq> ''''"
    and "sDesired s = DesiredRun"
  defines "r \<equiv> Step s (Held s EventDumpReady n) now"
  shows "rDecision r = DecisionApplied \<and> sPhase (rState r) = PhaseRunning
    \<and> sDesired (rState r) = DesiredRun \<and> sLease (rState r) = sLease s \<and> sRefusal (rState r) = []
    \<and> sTailSince (rState r) = 0"
  using assms
  by (simp add: Step_def handle_def finish_def dumpReady_def Held_def event_of_def Let_def
      case_prod_unfold fence_def)




definition demo_stopping :: State where
  "demo_stopping = rState (own_result demo_running (demo_input (event_of EventOperatorStop ''n1'') 30))"

lemma demo_stopping_inv: "own_inv (demo_stopping, 30)"
  using own.keeps [OF demo_inv, of "demo_input (event_of EventOperatorStop ''n1'') 30"]
  by (simp add: own_step_def own_ok_def demo_stopping_def demo_input_def clean_event_def event_of_def)


end
