(* ===== verification/Own_Limits.thy ===== *)
theory Own_Limits
  imports Own_Props
begin

text \<open>
  Bounds of the ownership component: the retry budget, the back-off of a node that gave the
  row up, the thresholds computed from the parameters; and what the alarms of a row say.
\<close>

section \<open>The retry budget\<close>

definition retries_ok :: "State \<Rightarrow> bool" where
  "retries_ok s \<longleftrightarrow> 0 \<le> sRetryAttempt s \<and> sRetryAttempt s \<le> RetryBudget"

lemma budget_pos [simp]: "0 \<le> RetryBudget" by (simp add: RetryBudget_def)

lemma retries_erase [simp]: "sRetryAttempt (fst (erase s)) = 0"
  by (simp add: erase_def Let_def zero_state_def)

lemma retries_finishStop [simp]: "retries_ok s \<Longrightarrow> retries_ok (fst (finishStop s now))"
  by (simp add: finishStop_def Let_def case_prod_unfold retries_ok_def)

lemma retries_epochLost [simp]: "retries_ok s \<Longrightarrow> retries_ok (fst (epochLost s e now))"
  by (simp add: epochLost_def Let_def) (simp add: retries_ok_def)

lemma retries_operator:
  assumes "retries_ok s"
  shows "retries_ok (fst (operatorStart s e now))" "retries_ok (fst (operatorStop s e now))"
    "retries_ok (fst (operatorDelete s e now))"
  using assms by (simp_all add: operatorStart_def operatorStop_def operatorDelete_def
      ownerlessStart_def ownerlessRestartWhileStopping_def advancingStart_def Let_def
      case_prod_unfold retries_ok_def)

lemma retries_runner:
  assumes "retries_ok s"
  shows "retries_ok (fst (stopConfirmed s e now))" "retries_ok (fst (stopExpired s e now))"
    "retries_ok (fst (acquire s e now))" "retries_ok (fst (tailUnreadable s e now))"
    "retries_ok (fst (dumpReady s e now))"
proof -
  have keep: "sRetryAttempt t = sRetryAttempt s \<Longrightarrow> retries_ok t" for t
    using assms by (simp add: retries_ok_def)
  show "retries_ok (fst (stopConfirmed s e now))" "retries_ok (fst (stopExpired s e now))"
    using assms by (simp_all add: stopConfirmed_def stopExpired_def)
  show "retries_ok (fst (acquire s e now))"
    by (rule keep) (simp add: acquire_def Let_def)
  show "retries_ok (fst (tailUnreadable s e now))"
    using assms by (simp add: tailUnreadable_def Let_def) (simp add: retries_ok_def)
  show "retries_ok (fst (dumpReady s e now))"
    using assms by (simp add: dumpReady_def Let_def) (simp add: retries_ok_def)
qed

lemma retries_retryable: "retries_ok s \<Longrightarrow> retries_ok (fst (retryable s e now))"
  by (simp add: retryable_def Let_def) (simp add: retries_ok_def)

lemma retries_terminal: "retries_ok s \<Longrightarrow> retries_ok (fst (terminal s e now))"
  by (simp add: terminal_def Let_def split: option.split) (simp add: retries_ok_def)

lemma retries_side:
  assumes "retries_ok s"
  shows "retries_ok (fst (chainVerified s e now))" "retries_ok (fst (chainOwnerGone s e now))"
    "retries_ok (fst (chainOwnerBack s e now))" "retries_ok (fst (metaLockTimeout s e now))"
    "retries_ok (fst (renew s e now))" "retries_ok (fst (sweep s e now))"
    "retries_ok (fst (takeLock s e now))" "retries_ok (fst (legacyUpdate s))"
  using assms by (simp_all add: chainVerified_def chainOwnerGone_def chainOwnerBack_def
      failChainOwner_def metaLockTimeout_def renew_def sweep_def takeLock_def legacyUpdate_def
      Let_def retries_ok_def)

lemma retries_handle: "retries_ok s \<Longrightarrow> retries_ok (fst (handle s e now))"
  by (cases "eKind e") (simp_all add: handle_def retries_operator retries_runner
      retries_retryable retries_terminal retries_side)

lemma retries_Step: "retries_ok s \<Longrightarrow> retries_ok (rState (Step s e now))"
proof -
  assume "retries_ok s"
  then have p: "retries_ok (prepare s now)" by (simp add: retries_ok_def)
  show ?thesis
    using p retries_handle [OF p, of e now] Step_applied(1) [of s e now] Step_unapplied [of s e now]
    by (cases "rDecision (Step s e now) = DecisionApplied") (simp_all add: retries_ok_def)
qed

text \<open>The same step function with every event admitted: the budget does not depend on which
  events the environment sends.\<close>

definition any_input :: "State \<times> instant \<Rightarrow> Input \<Rightarrow> bool" where
  "any_input c x = True"

interpretation retry: machine own_step any_input "\<lambda>c. retries_ok (fst c)"
proof unfold_locales
  fix c :: "State \<times> instant" and x assume "retries_ok (fst c)"
  then have "retries_ok (observe (fst c) x)" by (simp add: retries_ok_def observe_def)
  then show "retries_ok (fst (own_step c x))"
    by (simp add: own_step_def own_result_def case_prod_unfold retries_Step)
qed

lemma fence_Held:
  "\<not> sDeleted s \<Longrightarrow> lPresent (sLease s) \<Longrightarrow> lOwner (sLease s) = n \<Longrightarrow> n \<noteq> '''' \<Longrightarrow>
   fence (prepare s now) (Held s k n) = fenceOK"
  by (simp add: fence_ok Held_def event_of_def)

lemma Held_sel [simp]:
  "eKind (Held s k n) = k" "eNode (Held s k n) = n" "eLeaseUnreadable (Held s k n) = False"
  "eCause (Held s k n) = CauseZero"
  by (simp_all add: Held_def event_of_def)

text \<open>The holder's epoch is lost while the row wants to run: the row degrades.\<close>

lemma epochLost_yields:
  assumes "fence s e = fenceOK" "sDesired s = DesiredRun" "sPhase s \<noteq> PhaseStopping"
  shows "rDecision (snd (epochLost s e now)) = DecisionApplied
    \<and> sPhase (fst (epochLost s e now)) = PhaseLeaseDegraded
    \<and> lOwner (sLease (fst (epochLost s e now))) = ''''
    \<and> sRefusal (fst (epochLost s e now)) = sRefusal (yield s (eNode e) now False RefusalEpochLost)
    \<and> sNodes (fst (epochLost s e now)) = sNodes s"
  using assms by (simp add: epochLost_def Let_def)

lemma Step_of_handle:
  assumes "handle (prepare s now) e now = p" "rDecision (snd p) = DecisionApplied" "\<not> sDeleted s"
  shows "rState (Step s e now) = settle e (fst p) now" "rDecision (Step s e now) = DecisionApplied"
  using assms by (simp_all add: Step_def finish_def Let_def case_prod_unfold)

lemma retry_exhausted:
  assumes "RetryBudget \<le> sRetryAttempt s" "sDesired s = DesiredRun" "sPhase s \<noteq> PhaseStopping"
      "\<not> sDeleted s" "lPresent (sLease s)" "lOwner (sLease s) = n" "n \<noteq> ''''"
  shows "sPhase (rState (Step s (Held s EventRetryableError n) now)) = PhaseLeaseDegraded"
    "lOwner (sLease (rState (Step s (Held s EventRetryableError n) now))) = ''''"
proof -
  let ?e = "Held s EventRetryableError n"
  note f = fence_Held [OF assms(4-7), of now EventRetryableError]
  have y: "rDecision (snd (epochLost (prepare s now) ?e now)) = DecisionApplied
    \<and> sPhase (fst (epochLost (prepare s now) ?e now)) = PhaseLeaseDegraded
    \<and> lOwner (sLease (fst (epochLost (prepare s now) ?e now))) = ''''"
    using epochLost_yields [OF f] assms by simp
  have "handle (prepare s now) ?e now = epochLost (prepare s now) ?e now"
    using f assms(1-3) by (simp add: handle_def retryable_def)
  from Step_of_handle [OF this _ assms(4)] y
  show "sPhase (rState (Step s ?e now)) = PhaseLeaseDegraded"
    "lOwner (sLease (rState (Step s ?e now))) = ''''" by simp_all
qed

text \<open>C6. Retries are bounded whatever happens: after any sequence of events at all the attempt
  counter is between zero and the budget of ten, and a holder whose counter is at the budget does
  not retry again: its next retryable error hands the row back, LEASE_DEGRADED without an owner.\<close>

theorem retry_budget_holds:
  assumes "run own_step (own_start p ns, t0) es = (s, t)"
  shows "0 \<le> sRetryAttempt s \<and> sRetryAttempt s \<le> RetryBudget
    \<and> (sRetryAttempt s = RetryBudget \<and> sDesired s = DesiredRun \<and> sPhase s \<noteq> PhaseStopping
       \<and> \<not> sDeleted s \<and> lPresent (sLease s) \<and> lOwner (sLease s) = n \<and> n \<noteq> '''' \<longrightarrow>
       sPhase (rState (Step s (Held s EventRetryableError n) now)) = PhaseLeaseDegraded
       \<and> lOwner (sLease (rState (Step s (Held s EventRetryableError n) now))) = '''')"
proof -
  have "admitted own_step any_input c es" for c
    by (induction es arbitrary: c) (simp_all add: any_input_def)
  moreover have "retries_ok (own_start p ns)"
    by (simp add: retries_ok_def own_start_def New_def zero_state_def)
  ultimately have "retries_ok s"
    using retry.run_keeps [of "(own_start p ns, t0)" es] assms by simp
  then show ?thesis using retry_exhausted [of s n now] by (simp add: retries_ok_def)
qed

theorem retry_budget_holds_witness: "sRetryAttempt demo_running \<le> RetryBudget"
  using retry_budget_holds [OF demo_running_eq [unfolded demo_start_def]] by simp

section \<open>The back-off of a node that gave the row up\<close>

lemma yield_blocks:
  assumes "now \<le> t'"
    and "t' < now + RefusalDelay k (pClaimInterval (sParams s)) (pRefusalRetryCap (sParams s))"
    and "k = min maxRefusalAttempts ((case map_of (sRefusal s) n of Some r \<Rightarrow> rfAttempts r | None \<Rightarrow> 0) + 1)"
    and "sRefusal u = sRefusal (yield s n now False RefusalEpochLost)"
  shows "RefusalBlocks u n t'"
proof -
  define q where "q = (case map_of (sRefusal s) n of Some r \<Rightarrow> r | None \<Rightarrow> zero_refusal)"
  have "rfAttempts q = (case map_of (sRefusal s) n of Some r \<Rightarrow> rfAttempts r | None \<Rightarrow> 0)"
    by (simp add: q_def zero_refusal_def split: option.split)
  then have k: "(if rfAttempts q + 1 > maxRefusalAttempts then maxRefusalAttempts else rfAttempts q + 1) = k"
    using assms(3) by (auto simp: min_def)
  have "map_of (sRefusal (yield s n now False RefusalEpochLost)) n =
      Some (q\<lparr>rfReason := RefusalEpochLost, rfAttempts := k, rfOpenEnded := False,
        rfUntil := now + RefusalDelay k (pClaimInterval (sParams s)) (pRefusalRetryCap (sParams s))\<rparr>)"
    by (simp add: yield_def Let_def alist_simps k [symmetric] flip: q_def)
  then show ?thesis using assms(2,4) by (simp add: RefusalBlocks_def)
qed

text \<open>A node that gave the row up backs off: after the holder loses its epoch, its own claim is
  refused, without writing the row, at every instant before the back-off ends, whose length is
  \<open>RefusalDelay\<close> of the number of times it gave up in a row (at most 21); once the row was given
  up it has no owner, so any other node may claim it.\<close>

lemma yielded_node_backs_off:
  assumes "\<not> sDeleted s" "lPresent (sLease s)" "lOwner (sLease s) = n" "n \<noteq> ''''"
    and "sDesired s = DesiredRun" "sPhase s \<noteq> PhaseStopping"
    and "k = min maxRefusalAttempts ((case map_of (sRefusal s) n of Some r \<Rightarrow> rfAttempts r | None \<Rightarrow> 0) + 1)"
    and "now \<le> t'"
    and "t' < now + RefusalDelay k (pClaimInterval (fill (sParams s))) (pRefusalRetryCap (fill (sParams s)))"
  shows "lOwner (sLease (rState (Step s (Held s EventEpochLost n) now))) = ''''
    \<and> rDecision (Step (rState (Step s (Held s EventEpochLost n) now)) (event_of EventAcquire n) t')
        = DecisionRejected"
proof -
  let ?e = "Held s EventEpochLost n" and ?p = "prepare s now"
  define u where "u = rState (Step s ?e now)"
  have f: "fence ?p ?e = fenceOK" using assms by (intro fence_Held) auto
  have y: "rDecision (snd (epochLost ?p ?e now)) = DecisionApplied"
    "lOwner (sLease (fst (epochLost ?p ?e now))) = ''''"
    "sRefusal (fst (epochLost ?p ?e now)) = sRefusal (yield ?p n now False RefusalEpochLost)"
    using epochLost_yields [OF f] assms by simp_all
  have "handle ?p ?e now = epochLost ?p ?e now" by (simp add: handle_def)
  then have u: "u = settle ?e (fst (epochLost ?p ?e now)) now"
    using Step_of_handle(1) [OF _ y(1) assms(1)] by (simp add: u_def)
  have "RefusalBlocks u n t'"
    by (rule yield_blocks [of now t' k ?p]) (use assms u y in simp_all)
  then have "\<not> sDeleted u \<Longrightarrow> rDecision (Step u (event_of EventAcquire n) t') = DecisionRejected"
    by (simp add: Step_def handle_def event_of_def acquire_def finish_def Let_def case_prod_unfold)
  moreover have "\<not> sDeleted u"
    using f assms by (simp add: u epochLost_def Let_def)
  ultimately show ?thesis using y(2) u by (simp add: u_def)
qed

section \<open>Formulas\<close>

text \<open>The back-off doubles and never wraps: for a positive claim interval and a positive cap
  within \<open>int64\<close>, the delay after \<open>n\<close> refusals is the claim interval times two to the \<open>n - 1\<close>,
  cut at the cap, and the cap itself from the 22nd refusal on; the shift the code performs does
  not leave the range although it is computed modulo two to the 64.\<close>

lemma refusal_delay_doubles:
  assumes "0 < claim" "0 < cap" "cap \<le> max_int64" "1 \<le> n"
  shows "RefusalDelay n claim cap =
    (if n \<le> maxRefusalAttempts then min cap (claim * 2 ^ nat (n - 1)) else cap)"
  using assms RefusalDelay_exact [of n claim cap] RefusalDelay_saturated [of n cap claim] by simp

text \<open>The back-off grows with the number of refusals and stays positive and below its cap,
  whatever claim interval and cap are configured, zero and negative ones included.\<close>

lemma refusal_delay_monotone:
  assumes "cap \<le> max_int64" and "m \<le> n"
  shows "0 < RefusalDelay m claim cap \<and> RefusalDelay m claim cap \<le> RefusalDelay n claim cap
    \<and> RefusalDelay n claim cap \<le> (if cap \<le> 0 then 600 * second else cap)"
  using RefusalDelay_mono [OF assms, of claim] RefusalDelay_bounds [OF assms(1), of m claim]
    RefusalDelay_bounds [OF assms(1), of n claim] by simp

text \<open>The thresholds stay apart: a row is never called stale before two sweeps and a lock wait
  have passed, nor later than the larger of that and the recovery bound; a default node-gone
  threshold covers a lease and two sweeps, so a configured value below that is the one the start
  gate rejects; and a session is killed after one to five seconds.\<close>

lemma thresholds_apart:
  "2 * pSweep (fill p) + pLockWait (fill p) \<le> EffectiveStaleAfter p
   \<and> EffectiveStaleAfter p \<le> max (2 * pSweep (fill p) + pLockWait (fill p)) (RTOBound p)
   \<and> (NodeGoneRejectsStart p \<or> pLeaseTTL (fill p) + 2 * pSweep (fill p) \<le> EffectiveNodeGone p)
   \<and> (NodeGoneRejectsStart p \<longrightarrow> EffectiveNodeGone p < pLeaseTTL (fill p) + 2 * pSweep (fill p))
   \<and> second \<le> SessionKillBound d \<and> SessionKillBound d \<le> 5 * second"
proof -
  have "RTOBound (fill p) = RTOBound p" by (simp add: RTOBound_def)
  then have "2 * pSweep (fill p) + pLockWait (fill p) \<le> EffectiveStaleAfter p"
    "EffectiveStaleAfter p \<le> max (2 * pSweep (fill p) + pLockWait (fill p)) (RTOBound p)"
    by (simp_all add: EffectiveStaleAfter_def Let_def)
  moreover have "NodeGoneRejectsStart p \<or> pLeaseTTL (fill p) + 2 * pSweep (fill p) \<le> EffectiveNodeGone p"
    "NodeGoneRejectsStart p \<longrightarrow> EffectiveNodeGone p < pLeaseTTL (fill p) + 2 * pSweep (fill p)"
    by (auto simp: NodeGoneRejectsStart_def EffectiveNodeGone_def Let_def)
  moreover have "second \<le> SessionKillBound d \<and> SessionKillBound d \<le> 5 * second"
    by (simp add: SessionKillBound_def Let_def go_defs)
  ultimately show ?thesis by blast
qed

text \<open>The client never sends KILL: the side-kill plan calls the procedure of the server only
  in mode auto, with the procedure installed, its canary passed, a direct connection and the
  process privilege, and with the flavour's own waiter view readable.\<close>

lemma side_kill_gated:
  "\<not> kpClientSendsKill (PlanSideKill i)
   \<and> kpCallProcedure (PlanSideKill i) =
      (skMode i = ''auto'' \<and> skDirect i \<and> skProcedure i \<and> skCanaryPassed i \<and> skProcessPrivilege i
       \<and> (if skFlavor i = ''mariadb'' then skMariaDBWaiter i else skDataLocksPrivilege i))"
  by (auto simp: PlanSideKill_def Let_def)

section \<open>Alarms\<close>

lemma epoch_lost_critical:
  assumes "distinct (map fst m)"
  shows "(\<exists>k \<in> set (epoch_lost_nodes m). fSeverity (epoch_lost_finding m k) = SeverityCritical) \<longleftrightarrow>
    (\<exists>x \<in> set m. rfReason (snd x) = RefusalEpochLost \<and> 3 \<le> rfAttempts (snd x))"
proof -
  have "fSeverity (epoch_lost_finding m k) = SeverityCritical \<longleftrightarrow> 3 \<le> rfAttempts r"
    if "(k, r) \<in> set m" for k r
    using map_of_is_SomeI [OF assms that] by (simp add: epoch_lost_finding_def Let_def)
  moreover have "k \<in> set (epoch_lost_nodes m) \<longleftrightarrow> (\<exists>r. (k, r) \<in> set m \<and> rfReason r = RefusalEpochLost)" for k
    by (auto simp: epoch_lost_nodes_def image_iff)
  ultimately show ?thesis unfolding Bex_def split_paired_Ex snd_conv by metis
qed

text \<open>The alarms say what the row says: on a row of an admitted history a critical finding is
  open exactly when the row wants to run with an unreadable tail, its verified directory misses or
  cannot read a segment, it makes no progress, it failed, its lock stalled, an old binary wrote it,
  or a node lost its epoch three times; and then \<open>/api/health\<close> answers 503.\<close>

lemma critical_alarm_exact:
  assumes "own_inv (s, t)" and "\<not> sDeleted s"
  shows "(criticalOpen s \<longleftrightarrow>
      (sDesired s = DesiredRun \<and> sTailSince s \<noteq> 0)
      \<or> (Verified (sChain s) \<and> (cMissingSealed (sChain s) \<or> cUnreadable (sChain s)))
      \<or> sNoProgress s \<or> sPhase s = PhaseFailed \<or> sMetaLockStalled s \<or> sMixedVersion s
      \<or> (\<exists>x \<in> set (sRefusal s). rfReason (snd x) = RefusalEpochLost \<and> 3 \<le> rfAttempts (snd x)))
    \<and> (criticalOpen s \<longrightarrow> HealthCode s now = 503)"
proof -
  have row: "failed_ok s" "refusals_ok s" and d: "sFindings s = derive s"
    using assms by (simp_all add: own_inv_def row_ok_def)
  have reason: "sPhase s = PhaseFailed \<Longrightarrow> sFailedReason s \<noteq> ReasonNone"
    using row(1) by (auto simp: failed_ok_def failed_allowed_def)
  have ex: "criticalOpen s \<longleftrightarrow> list_ex (\<lambda>f. fSeverity f = SeverityCritical) (derive_unsorted s)"
    using assms(2) by (simp add: criticalOpen_def d derive_def list_ex_iff)
  have lost: "list_ex (\<lambda>f. fSeverity f = SeverityCritical)
      (map (epoch_lost_finding (sRefusal s)) (epoch_lost_nodes (sRefusal s))) \<longleftrightarrow>
      (\<exists>x \<in> set (sRefusal s). rfReason (snd x) = RefusalEpochLost \<and> 3 \<le> rfAttempts (snd x))"
    using row(2) by (simp add: list_ex_iff refusals_ok_def epoch_lost_critical)
  have "criticalOpen s \<longleftrightarrow>
      (sDesired s = DesiredRun \<and> sTailSince s \<noteq> 0)
      \<or> (Verified (sChain s) \<and> (cMissingSealed (sChain s) \<or> cUnreadable (sChain s)))
      \<or> sNoProgress s \<or> sPhase s = PhaseFailed \<or> sMetaLockStalled s \<or> sMixedVersion s
      \<or> (\<exists>x \<in> set (sRefusal s). rfReason (snd x) = RefusalEpochLost \<and> 3 \<le> rfAttempts (snd x))"
    unfolding ex derive_unsorted_def list_ex_append list_ex_emit lost using reason by auto
  moreover have "criticalOpen s \<longrightarrow> HealthCode s now = 503" by (simp add: HealthCode_def)
  ultimately show ?thesis by blast
qed

text \<open>An applied event reports the change of the alarms exactly: the findings stored are the
  ones the row implies, what it opened is what is new, what it closed is what is gone, no key is in
  both, and each opened finding is handed to the store as an intent.\<close>

lemma finding_changes_exact:
  assumes "rDecision (Step s e now) = DecisionApplied"
  defines "r \<equiv> Step s e now"
  shows "sFindings (rState r) = derive (rState r)
    \<and> finding_key ` set (rOpened r) = finding_key ` set (sFindings (rState r)) - finding_key ` set (sFindings s)
    \<and> finding_key ` set (rClosed r) = finding_key ` set (sFindings s) - finding_key ` set (sFindings (rState r))
    \<and> opened_intent ` set (rOpened r) \<subseteq> set (rIntents r)"
proof -
  note ap = Step_applied [OF assms(1)]
  have "rIntents r = rIntents (snd (handle (prepare s now) e now)) @ map opened_intent (rOpened r)"
    using ap(2,6) by (auto simp: r_def Step_def finish_def Let_def case_prod_unfold)
  then show ?thesis
    using ap(1) diffFindings_keys [OF ap(5) [symmetric]] by (simp add: r_def derive_settle)
qed

end
