(* ===== verification/Own_Gaps.thy ===== *)
theory Own_Gaps
  imports Own_Limits
begin

text \<open>
  The three inputs \<open>clean_event\<close> leaves out, each with the history on which the checker of
  the sources rejects the transition of the sources. They mark the edge of the safety theorem:
  without these guards it does not hold.
\<close>

section \<open>A terminal reason the checker does not list\<close>

definition gap_storage :: State where
  "gap_storage = rState (own_result demo_running (demo_input
     ((Held demo_running EventTerminalError ''n1'')\<lparr>eCause := CauseStorageInconsistent\<rparr>) 30))"


section \<open>An ownerless start while the row is stopping\<close>

definition gap_stopping :: State where
  "gap_stopping = rState (own_result demo_stopping (demo_input
     ((event_of EventOperatorStart ''n1'')\<lparr>eOwnerless := True\<rparr>) 40))"


section \<open>An ownerless start of a failed row\<close>

definition gap_failed :: State where
  "gap_failed = rState (own_result demo_running (demo_input
     ((Held demo_running EventTerminalError ''n1'')\<lparr>eCause := CauseSourceAuth\<rparr>) 30))"

definition gap_restarted :: State where
  "gap_restarted = rState (own_result gap_failed (demo_input
     ((event_of EventOperatorStart ''n1'')\<lparr>eOwnerless := True\<rparr>) (100 * second)))"

text \<open>The unowned clock of the row runs while it is FAILED, and an ownerless start does not
  reset it: a row that failed at instant 30 and is started again 100 seconds later is at once
  reported as making no progress, although the clock the checker replays started only with the
  start, so the checker reports invariant 7.\<close>

lemma ownerless_start_no_progress_at_once:
  "sUnownedSince gap_failed = 30 \<and> sPhase gap_restarted = PhaseStarting
   \<and> sNoProgress gap_restarted \<and> \<not> ProgressOverdue gap_restarted (100 * second)
   \<and> map vInvariant (Check gap_restarted (100 * second)) = [''7'']"
  by (intro conjI; code_simp)

end
