(* ===== verification/Own_Bound.thy ===== *)
theory Own_Bound
  imports Own_Check Go_Text
begin

text \<open>
  The liveness bound of the ownership component (\<open>internal/ownership/bound.go\<close>): the future
  instants the transition reacts to on a fair path, the nearest of them and the furthest, and the
  ceiling on the number of fair steps; and the clock regions of the exhaustive search
  (\<open>internal/ownership/time_region.go\<close>): one table of the comparisons of timestamps with
  constants, and the key that saturates a timestamp older than every boundary.
\<close>

section \<open>Fair deadlines\<close>

definition add_after :: "instant \<Rightarrow> instant list \<Rightarrow> instant \<Rightarrow> instant list" where
  "add_after now out at = (if at > now then out @ [at] else out)"

definition add_if :: "bool \<Rightarrow> instant \<Rightarrow> instant \<Rightarrow> instant list \<Rightarrow> instant list" where
  "add_if b now at out = (if b then add_after now out at else out)"

text \<open>The dated refusals still ahead, those of nodes that can read and the others.\<close>

definition dated :: "State \<Rightarrow> instant \<Rightarrow> bool \<Rightarrow> instant list" where
  "dated s now canRead =
     List.map_filter (\<lambda>n. case map_of (sRefusal s) (nID n) of
        Some r \<Rightarrow> if \<not> nStopped n \<and> nCanRead n = canRead \<and> \<not> rfOpenEnded r \<and> rfUntil r > now
                   then Some (rfUntil r) else None
      | None \<Rightarrow> None) (sNodes s)"

definition lease_live :: "State \<Rightarrow> instant \<Rightarrow> bool" where
  "lease_live s now \<longleftrightarrow>
     lPresent (sLease s) \<and> lOwner (sLease s) \<noteq> '''' \<and> lExpireAt (sLease s) > now"

definition latest_of :: "instant list \<Rightarrow> instant" where
  "latest_of out = foldl (\<lambda>latest at. if latest = 0 \<or> at > latest then at else latest) 0 out"

definition fairDeadlines :: "State \<Rightarrow> instant \<Rightarrow> string \<Rightarrow> instant list" where
  "fairDeadlines s now reader =
     (let s = s\<lparr>sParams := fill (sParams s)\<rparr>;
          out = (case stoppedSweepDue s now of Some due \<Rightarrow> add_after now [] due | None \<Rightarrow> []);
          ready = dated s now True;
          other = dated s now False;
          horizon = foldl (\<lambda>h at. if at > h then at else h) now ready;
          out = foldl (add_after now) out ready;
          out = foldl (add_after now) out (filter (\<lambda>at. \<not> at > horizon) other);
          inside = filter (\<lambda>at. at > horizon) other;
          idle = (if pIdleKill (sParams s) \<le> 0 then 5 * second else pIdleKill (sParams s));
          out = add_if (kHeld (sLock s) \<and> kSince (sLock s) \<noteq> 0) now (kSince (sLock s) + idle) out;
          live = lease_live s now;
          owner = node s (lOwner (sLease s));
          out = add_if (live \<and> (case owner of Some n \<Rightarrow> nStopped n | None \<Rightarrow> False)) now
                  (lExpireAt (sLease s)) out;
          out = add_if (live \<and> (case owner of Some n \<Rightarrow> \<not> nStopped n | None \<Rightarrow> False)
                        \<and> lOwner (sLease s) \<noteq> reader) now (lExpireAt (sLease s)) out;
          out = add_if (sPhase s = PhaseRetryBackoff) now (sRetryUntil s) out;
          out = add_if (sPhase s = PhaseFailed \<and> sFailedReason s = ReasonChainOwnerGone
                        \<and> \<not> cVerifiedAt (sChain s) > sFailedAt s) now (sFailedAt s + millisecond) out;
          latest = latest_of out
      in foldl (\<lambda>out at. add_if (at < latest \<and> InClaimSet s at) now at out) out inside)"

definition NextDeadline :: "State \<Rightarrow> instant \<Rightarrow> instant" where
  "NextDeadline s now =
     foldl (\<lambda>best at. if best = 0 \<or> at < best then at else best) 0
       (fairDeadlines s now (fairReader s now))"

definition boundExtend :: "duration \<Rightarrow> instant \<Rightarrow> instant \<Rightarrow> duration" where
  "boundExtend W now at =
     (if \<not> at > now then W
      else (let d = time_sub at now in if d > W then d else W))"

definition boundWindow :: "State \<Rightarrow> instant \<Rightarrow> duration \<times> string" where
  "boundWindow s now =
     (let reader = fairReader s now
      in (foldl (\<lambda>W at. boundExtend W now at) 0 (fairDeadlines s now reader), reader))"

section \<open>The step bound\<close>

definition flag :: "bool \<Rightarrow> int" where
  "flag b = (if b then 1 else 0)"

definition boundForced :: "State \<Rightarrow> instant \<Rightarrow> int" where
  "boundForced s now =
     (let live = lease_live s now;
          owner = node s (lOwner (sLease s))
      in flag (kHeld (sLock s))
         + (if sPhase s = PhaseFailed \<and> sFailedReason s = ReasonChainOwnerGone then 2 else 0)
         + flag (live \<and> (case owner of Some n \<Rightarrow> nStopped n \<and> now < lExpireAt (sLease s) | None \<Rightarrow> False))
         + flag (live \<and> (case owner of Some n \<Rightarrow> \<not> nCanRead n | None \<Rightarrow> False))
         + flag (sDesired s = DesiredStop \<and> sPhase s = PhaseStopping \<and> \<not> live)
         + flag (sPhase s = PhaseRetryBackoff \<and> sRetryUntil s > now)
         + flag (chainGoneStep s now)
         + flag (ownerDirGone s \<and> \<not> chainGoneStep s now))"

text \<open>The loop counts at most \<open>maxRefusalAttempts\<close> delays; the first argument is what is left of
  that count.\<close>

fun waste_loop :: "nat \<Rightarrow> int \<Rightarrow> duration \<Rightarrow> duration \<Rightarrow> duration \<Rightarrow> int" where
  "waste_loop 0 att claim cap limit = 0"
| "waste_loop (Suc k) att claim cap limit =
     (let att = att + 1;
          att = (if att > maxRefusalAttempts then maxRefusalAttempts else att);
          att = (if att < 1 then 1 else att)
      in 1 + (if RefusalDelay att claim cap \<ge> limit then 0
              else waste_loop k att claim cap limit))"

definition boundNodeWastes :: "State \<Rightarrow> string \<Rightarrow> instant \<Rightarrow> duration \<Rightarrow> Params \<Rightarrow> int \<times> int" where
  "boundNodeWastes s i now W p =
     (let r = (case map_of (sRefusal s) i of Some r \<Rightarrow> r | None \<Rightarrow> zero_refusal)
      in if rfOpenEnded r then (0, 0)
         else
           (let ready = (if rfUntil r > now then time_sub (rfUntil r) now else 0);
                pending = flag (rfUntil r > now \<and> ready \<le> W)
            in if ready > W then (0, 0)
               else if pStorage p = StoragePerNode \<and> \<not> (Verified (sChain s) \<and> cOwner (sChain s) = i)
               then (1, pending)
               else
                 (let cap = (if pRefusalRetryCap p \<le> 0 then 600 * second else pRefusalRetryCap p);
                      limit = (if W < cap then W else cap);
                      n = waste_loop (nat maxRefusalAttempts) (rfAttempts r) (pClaimInterval p) cap limit;
                      extra = (if W > 0 \<and> cap > 0 then W div cap + 1 else 0)
                  in (n + extra, pending))))"

definition FairStepBound :: "State \<Rightarrow> instant \<Rightarrow> int" where
  "FairStepBound s now =
     (if FairTerminal s now then 0
      else
        (let p = fill (sParams s);
             (W, reader) = boundWindow s now;
             forced = boundForced s now;
             counted = filter (\<lambda>n. \<not> (nID n = reader \<or> nCanRead n \<or> nStopped n)) (sNodes s);
             wastes = sum_list (map (\<lambda>n. fst (boundNodeWastes s (nID n) now W p)) counted);
             pending = sum_list (map (\<lambda>n. snd (boundNodeWastes s (nID n) now W p)) counted);
             jumps = (if W > 0 then wastes + pending + 1 else 0);
             finish = (if reader \<noteq> '''' then 2 else 0)
         in forced + wastes + jumps + finish))"

section \<open>Clock regions\<close>

record stepTimeGuard =
  tgField :: string
  tgCmp :: string
  tgCons :: "Params \<Rightarrow> duration"

definition guard_of :: "string \<Rightarrow> string \<Rightarrow> (Params \<Rightarrow> duration) \<Rightarrow> stepTimeGuard" where
  "guard_of f c k = \<lparr>tgField = f, tgCmp = c, tgCons = k\<rparr>"

definition stepTimeGuards :: "stepTimeGuard list" where
  "stepTimeGuards =
     (let idle = (\<lambda>p. pIdleKill (fill p)); lockWait = (\<lambda>p. pLockWait (fill p));
          sweep = (\<lambda>p. pSweep (fill p)); noProg = (\<lambda>p. pNoProgressAfter (fill p));
          zero = (\<lambda>_. 0); ms = (\<lambda>_. millisecond)
      in [guard_of ''lockSince'' ''>='' idle, guard_of ''lockSince'' ''<='' lockWait,
          guard_of ''unowned'' ''>='' sweep, guard_of ''unowned'' ''>='' sweep,
          guard_of ''progress'' ''>'' noProg, guard_of ''acquired'' ''>'' noProg,
          guard_of ''progress'' ''>'' noProg,
          guard_of ''heartbeat'' ''>'' EffectiveNodeGone, guard_of ''heartbeat'' ''>'' EffectiveNodeGone,
          guard_of ''heartbeat'' ''>'' EffectiveNodeGone,
          guard_of ''expire'' ''>'' zero, guard_of ''expire'' ''>'' zero, guard_of ''expire'' ''>'' zero,
          guard_of ''retry'' ''>'' zero, guard_of ''retry'' ''>'' zero, guard_of ''retry'' ''>'' zero,
          guard_of ''until'' ''>'' zero,
          guard_of ''evaluated'' ''>'' EffectiveStaleAfter, guard_of ''failedAt'' ''>'' ms])"

definition fieldLimit :: "string \<Rightarrow> Params \<Rightarrow> duration" where
  "fieldLimit field p =
     (let p = fill p;
          limit = foldl (\<lambda>limit g.
            if tgField g \<noteq> field then limit
            else (let c = (if tgCons g p < 0 then 0 else tgCons g p);
                      edge = c + nanosecond
                  in if edge > limit then edge else limit)) 0 stepTimeGuards
      in if limit \<le> 0 then nanosecond else limit)"

definition writeRegion :: "string \<Rightarrow> instant \<Rightarrow> instant \<Rightarrow> Params \<Rightarrow> string" where
  "writeRegion field t now p =
     (if t = 0 then ''Z|''
      else
        (let d = time_sub t now; limit = fieldLimit field p
         in if d < - limit then ''S|'' else format_int d @ ''|''))"

section \<open>The deadlines lie ahead\<close>

definition ahead :: "instant \<Rightarrow> instant list \<Rightarrow> bool" where
  "ahead now xs \<longleftrightarrow> list_all (\<lambda>at. now < at) xs"

lemma ahead_add [simp]:
  "ahead now []" "ahead now out \<Longrightarrow> ahead now (add_after now out at)"
  "ahead now out \<Longrightarrow> ahead now (add_if b now at out)"
  by (simp_all add: ahead_def add_after_def add_if_def)

lemma ahead_foldl [simp]: "ahead now out \<Longrightarrow> ahead now (foldl (add_after now) out xs)"
  by (induction xs arbitrary: out) auto

lemma ahead_foldl_if: "ahead now out \<Longrightarrow> ahead now (foldl (\<lambda>out at. add_if (P at) now at out) out xs)"
  by (induction xs arbitrary: out) auto

lemma fairDeadlines_ahead: "ahead now (fairDeadlines s now reader)"
  unfolding fairDeadlines_def Let_def
  by (intro ahead_foldl_if ahead_add ahead_foldl) (simp split: option.split)

lemma foldl_min:
  assumes "\<forall>x \<in> set xs. x \<noteq> (0 :: int)"
  shows "foldl (\<lambda>best at. if best = 0 \<or> at < best then at else best) b xs =
    (if b = 0 then (if xs = [] then 0 else Min (set xs)) else Min (insert b (set xs)))"
  using assms
proof (induction xs arbitrary: b)
  case (Cons x xs)
  then show ?case by (cases "xs = []") (auto simp: min_def insert_commute)
qed simp

lemma NextDeadline_Min:
  fixes s :: State
  assumes "0 \<le> now"
  defines "ds \<equiv> fairDeadlines s now (fairReader s now)"
  shows "NextDeadline s now = (if ds = [] then 0 else Min (set ds))"
proof -
  have "\<forall>x \<in> set ds. x \<noteq> 0"
    using fairDeadlines_ahead [of now s "fairReader s now"] assms(1)
    by (auto simp: ahead_def ds_def list_all_iff)
  then show ?thesis by (simp add: NextDeadline_def ds_def foldl_min)
qed

lemma foldl_extend_ge:
  "W \<le> foldl (\<lambda>W at. boundExtend W now at) W xs
   \<and> (\<forall>x \<in> set xs. now < x \<longrightarrow> time_sub x now \<le> foldl (\<lambda>W at. boundExtend W now at) W xs)"
proof (induction xs arbitrary: W)
  case (Cons x xs)
  have "W \<le> boundExtend W now x" "now < x \<Longrightarrow> time_sub x now \<le> boundExtend W now x"
    by (simp_all add: boundExtend_def Let_def)
  then show ?case using Cons.IH [of "boundExtend W now x"] by fastforce
qed simp

lemma foldl_extend_in:
  "foldl (\<lambda>W at. boundExtend W now at) W xs \<in> insert W ((\<lambda>x. time_sub x now) ` set xs)"
proof (induction xs arbitrary: W)
  case (Cons x xs)
  have "boundExtend W now x \<in> {W, time_sub x now}" by (simp add: boundExtend_def Let_def)
  then show ?case using Cons.IH [of "boundExtend W now x"] by auto
qed simp

section \<open>Regions determine the guards\<close>

lemma nat_digits_inj: "nat_digits m = nat_digits n \<Longrightarrow> m = n"
  using nat_digits_ok [of m] nat_digits_ok [of n] by (metis of_nat_eq_iff)

lemma nat_digits_hd: "is_digit (hd (nat_digits n))"
  using nat_digits_ok [of n] by (cases "nat_digits n") auto

lemma format_int_inj: "format_int a = format_int b \<longleftrightarrow> a = b"
proof
  assume eq: "format_int a = format_int b"
  have d: "nat_digits m \<noteq> CHR ''-'' # xs" for m xs
    using nat_digits_hd [of m] digit_not_sign [of "CHR ''-''"] by auto
  show "a = b"
    using eq d nat_digits_inj [of "nat (- a)" "nat (- b)"] nat_digits_inj [of "nat a" "nat b"]
    by (auto simp: format_int_def split: if_splits) (metis d)+
qed simp

lemma format_int_start: "format_int a @ ''|'' \<noteq> ''S|'' \<and> format_int a @ ''|'' \<noteq> ''Z|''"
  using nat_digits_hd [of "nat a"] nat_digits_ok [of "nat a"]
  by (cases "nat_digits (nat a)") (auto simp: format_int_def is_digit_def less_eq_char_def)

lemma foldl_edge_ge:
  fixes f :: "'a \<Rightarrow> int"
  shows "b \<le> foldl (\<lambda>l g. if P g then l else (if f g > l then f g else l)) b gs
    \<and> (\<forall>g \<in> set gs. \<not> P g \<longrightarrow> f g \<le> foldl (\<lambda>l g. if P g then l else (if f g > l then f g else l)) b gs)"
proof (induction gs arbitrary: b)
  case (Cons g gs)
  let ?b = "if P g then b else (if f g > b then f g else b)"
  have "b \<le> ?b" "\<not> P g \<Longrightarrow> f g \<le> ?b" by auto
  then show ?case using Cons.IH [of ?b] by fastforce
qed simp

lemma fieldLimit_ge:
  assumes "g \<in> set stepTimeGuards" and "tgField g = field"
  shows "tgCons g (fill p) + 1 \<le> fieldLimit field p" and "1 \<le> fieldLimit field p"
proof -
  let ?f = "\<lambda>g. (if tgCons g (fill p) < 0 then 0 else tgCons g (fill p)) + nanosecond"
  define L where "L = foldl (\<lambda>l g. if tgField g \<noteq> field then l else (if ?f g > l then ?f g else l)) 0 stepTimeGuards"
  have eq: "fieldLimit field p = (if L \<le> 0 then nanosecond else L)"
    unfolding fieldLimit_def Let_def L_def by (rule refl)
  have "?f g \<le> L"
    using foldl_edge_ge [of 0 "\<lambda>g. tgField g \<noteq> field" ?f stepTimeGuards] assms
    unfolding L_def by blast
  then show "tgCons g (fill p) + 1 \<le> fieldLimit field p" "1 \<le> fieldLimit field p"
    unfolding eq by (auto simp: nanosecond_def split: if_splits)
qed

text \<open>What a guard of the table asks of the age of a timestamp.\<close>

definition guard_holds :: "stepTimeGuard \<Rightarrow> Params \<Rightarrow> instant \<Rightarrow> instant \<Rightarrow> bool" where
  "guard_holds g p t now =
     (let age = now - t; c = tgCons g (fill p)
      in if tgCmp g = ''>='' then age \<ge> c else if tgCmp g = ''<='' then age \<le> c else age > c)"

lemma region_age:
  assumes "t \<noteq> 0" "t' \<noteq> 0"
    and "min_int64 \<le> t - now" "t - now \<le> max_int64" "min_int64 \<le> t' - now'" "t' - now' \<le> max_int64"
    and "writeRegion field t now p = writeRegion field t' now' p"
  shows "now - t = now' - t' \<or> fieldLimit field p < now - t \<and> fieldLimit field p < now' - t'"
proof -
  have d: "time_sub t now = t - now" "time_sub t' now' = t' - now'"
    using assms(3-6) by (simp_all add: time_sub_def)
  let ?L = "fieldLimit field p"
  show ?thesis
  proof (cases "t - now < - ?L"; cases "t' - now' < - ?L")
    assume "\<not> t - now < - ?L" "\<not> t' - now' < - ?L"
    then have "format_int (t - now) = format_int (t' - now')"
      using assms(1,2,7) d by (simp add: writeRegion_def Let_def)
    then show ?thesis by (simp add: format_int_inj)
  qed (use assms(1,2,7) d format_int_start [of "t - now"] format_int_start [of "t' - now'"]
      in \<open>auto simp: writeRegion_def Let_def\<close>)
qed

section \<open>Counting\<close>

lemma waste_loop_bounds: "0 \<le> waste_loop k att claim cap limit \<and> waste_loop k att claim cap limit \<le> int k"
  by (induction k arbitrary: att) (auto simp: Let_def)

lemma waste_loop_pos: "0 < k \<Longrightarrow> 1 \<le> waste_loop k att claim cap limit"
proof -
  assume "0 < k"
  then obtain j where "k = Suc j" by (cases k) auto
  then show ?thesis using waste_loop_bounds [of j] by (auto simp: Let_def)
qed

lemma boundNodeWastes_bounds:
  assumes "0 \<le> W"
  shows "0 \<le> fst (boundNodeWastes s i now W p) \<and> snd (boundNodeWastes s i now W p) \<in> {0, 1}
    \<and> fst (boundNodeWastes s i now W p) \<le> maxRefusalAttempts + 1
        + W div (if pRefusalRetryCap p \<le> 0 then 600 * second else pRefusalRetryCap p)"
proof -
  define cap where "cap = (if pRefusalRetryCap p \<le> 0 then 600 * second else pRefusalRetryCap p)"
  have "0 < cap" by (simp add: cap_def)
  then have q: "0 \<le> W div cap" using assms by (simp add: pos_imp_zdiv_nonneg_iff)
  have m: "0 < maxRefusalAttempts" "int (nat maxRefusalAttempts) = maxRefusalAttempts"
    by (simp_all add: maxRefusalAttempts_def maxRefusalShift_def)
  have "0 \<le> waste_loop (nat maxRefusalAttempts) a c cap l"
    "waste_loop (nat maxRefusalAttempts) a c cap l \<le> maxRefusalAttempts + 1 + W div cap"
    "0 \<le> waste_loop (nat maxRefusalAttempts) a c cap l + (W div cap + 1)"
    "waste_loop (nat maxRefusalAttempts) a c cap l + (W div cap + 1) \<le> maxRefusalAttempts + 1 + W div cap"
    for a c l
    using waste_loop_bounds [of "nat maxRefusalAttempts" a c cap l] m q by simp_all
  then show ?thesis
    using q m(1) unfolding boundNodeWastes_def Let_def cap_def [symmetric]
    by (simp add: flag_def)
qed

lemma boundForced_nonneg: "0 \<le> boundForced s now"
  by (simp add: boundForced_def Let_def flag_def)

lemma boundWindow_nonneg: "0 \<le> fst (boundWindow s now)"
  using foldl_extend_ge [of 0 now "fairDeadlines s now (fairReader s now)"]
  by (simp add: boundWindow_def Let_def)

section \<open>Properties\<close>

definition bound_state :: State where
  "bound_state = New\<lparr>sPhase := PhaseRetryBackoff, sRetryUntil := 50,
     sNodes := [\<lparr>nID = ''n1'', nCanRead = True, nStopped = False, nHeartbeatAt = 1\<rparr>]\<rparr>"

text \<open>The fair deadlines bracket the search: each of them is in the future, the next deadline is
  the earliest of them and zero when there is none, and the window reaches every one of them whose
  distance an \<open>int64\<close> can hold, so waiting for the next deadline never leaves the window.\<close>

lemma deadlines_bracketed:
  assumes "0 \<le> now"
  shows "(\<forall>at \<in> set (fairDeadlines s now (fairReader s now)).
            now < at \<and> NextDeadline s now \<le> at \<and> (at - now \<le> max_int64 \<longrightarrow> at - now \<le> fst (boundWindow s now)))
    \<and> (if fairDeadlines s now (fairReader s now) = [] then NextDeadline s now = 0 \<and> fst (boundWindow s now) = 0
       else NextDeadline s now \<in> set (fairDeadlines s now (fairReader s now)) \<and> now < NextDeadline s now)"
proof -
  define ds where "ds = fairDeadlines s now (fairReader s now)"
  have a: "\<forall>at \<in> set ds. now < at"
    using fairDeadlines_ahead [of now s] by (simp add: ahead_def ds_def list_all_iff)
  have n: "NextDeadline s now = (if ds = [] then 0 else Min (set ds))"
    unfolding ds_def by (rule NextDeadline_Min [OF assms])
  have w: "time_sub at now \<le> fst (boundWindow s now)" if "at \<in> set ds" for at
    using foldl_extend_ge [of 0 now ds] that a by (simp add: boundWindow_def ds_def Let_def)
  have "at - now \<le> fst (boundWindow s now)" if "at \<in> set ds" "at - now \<le> max_int64" for at
    using w [OF that(1)] that a by (force simp: time_sub_def min_int64_def)
  moreover have "ds = [] \<Longrightarrow> fst (boundWindow s now) = 0"
    by (simp add: boundWindow_def ds_def Let_def)
  ultimately show ?thesis
    using a n Min_in [of "set ds"] unfolding ds_def [symmetric] by auto
qed

text \<open>The region key of the search is sound: two set timestamps with the same key, at two
  clocks within the range of \<open>int64\<close>, give the same answer to every comparison of that field in the
  table of guards, although the key forgets how old a timestamp beyond every boundary is.\<close>

lemma region_key_sound:
  assumes "g \<in> set stepTimeGuards" and "t \<noteq> 0" "t' \<noteq> 0"
    and "min_int64 \<le> t - now" "t - now \<le> max_int64" "min_int64 \<le> t' - now'" "t' - now' \<le> max_int64"
    and "writeRegion (tgField g) t now p = writeRegion (tgField g) t' now' p"
  shows "guard_holds g p t now = guard_holds g p t' now'"
  using region_age [OF assms(2-8)] fieldLimit_ge(1) [OF assms(1) refl, of p]
  by (auto simp: guard_holds_def Let_def)

text \<open>The step bound is usable: it is never negative, it is zero on a terminal row, it leaves
  room for the acquire and the dump-ready of a reader on any other row, and the retry loop behind
  each node's share runs at most 21 times, so that share is at most 22 plus the number of caps that
  fit into the window.\<close>

lemma step_bound_usable:
  "(FairTerminal s now \<longrightarrow> FairStepBound s now = 0) \<and> 0 \<le> FairStepBound s now
   \<and> (\<not> FairTerminal s now \<and> fairReader s now \<noteq> '''' \<longrightarrow> 2 \<le> FairStepBound s now)
   \<and> fst (boundNodeWastes s i now (fst (boundWindow s now)) p) \<le> 22
       + fst (boundWindow s now) div (if pRefusalRetryCap p \<le> 0 then 600 * second else pRefusalRetryCap p)"
proof -
  define W where "W = fst (boundWindow s now)"
  have w: "0 \<le> fst (boundNodeWastes s j now W q) \<and> snd (boundNodeWastes s j now W q) \<in> {0, 1}
    \<and> fst (boundNodeWastes s j now W q) \<le> maxRefusalAttempts + 1
        + W div (if pRefusalRetryCap q \<le> 0 then 600 * second else pRefusalRetryCap q)" for j q
    unfolding W_def by (rule boundNodeWastes_bounds [OF boundWindow_nonneg])
  then have pos: "0 \<le> snd (boundNodeWastes s j now W q)" for j q
    by (metis empty_iff insert_iff order_refl zero_le_one)
  have nn: "0 \<le> sum_list (map (\<lambda>n. fst (boundNodeWastes s (nID n) now W q)) ns)"
    "0 \<le> sum_list (map (\<lambda>n. snd (boundNodeWastes s (nID n) now W q)) ns)" for q and ns :: "Node list"
    using w pos by (auto intro!: sum_list_nonneg)
  have snd: "snd (boundWindow s now) = fairReader s now" by (simp add: boundWindow_def Let_def)
  have "\<not> FairTerminal s now \<Longrightarrow> (if fairReader s now \<noteq> '''' then 2 else 0) \<le> FairStepBound s now"
    using nn [of "fill (sParams s)"] boundForced_nonneg [of s now] snd
    by (simp add: FairStepBound_def Let_def case_prod_unfold W_def add_nonneg_nonneg)
  moreover have "FairTerminal s now \<Longrightarrow> FairStepBound s now = 0" by (simp add: FairStepBound_def)
  moreover have "maxRefusalAttempts + 1 = 22" by (simp add: maxRefusalAttempts_def maxRefusalShift_def)
  ultimately show ?thesis
    using w [of i p] unfolding W_def [symmetric]
    by (cases "FairTerminal s now"; cases "fairReader s now = ''''") simp_all
qed

end
