(* ===== verification/Gtid_Set.thy ===== *)
theory Gtid_Set
  imports Go_Text
begin

text \<open>
  The GTID interval sets of \<open>internal/binlog/gtid_set.go\<close>. A set maps a source key (a lower
  case uuid, or \<open>uuid:tag\<close>) to a list of closed intervals. The additions the sources perform on
  interval ends are \<open>int64\<close> additions and are written with \<open>wrap64\<close>.

  The meaning of a set is the set of pairs of a key and a sequence number (\<open>gtids\<close>); the
  representation invariant is \<open>canonical\<close>. The laws of the operations are the interface
  \<open>gtid_algebra\<close>, interpreted on the operations of the sources at the end.
\<close>

section \<open>Ranges\<close>

datatype GTIDRange = GTIDRange (gLo: int64) (gHi: int64)

type_synonym GTIDSet = "GTIDRange list go_map"

definition merge_range :: "GTIDRange list \<Rightarrow> GTIDRange \<Rightarrow> GTIDRange list" where
  "merge_range merged iv =
     (if merged \<noteq> [] \<and> gLo iv \<le> wrap64 (gHi (last merged) + 1) then
        (if gHi iv > gHi (last merged)
         then butlast merged @ [GTIDRange (gLo (last merged)) (gHi iv)] else merged)
      else merged @ [iv])"

definition add_range :: "GTIDRange list \<Rightarrow> int64 \<Rightarrow> int64 \<Rightarrow> GTIDRange list" where
  "add_range rs lo hi =
     (if rs = [] \<or> lo > wrap64 (gHi (last rs) + 1) then rs @ [GTIDRange lo hi]
      else if lo \<ge> gLo (last rs) then
        (if hi > gHi (last rs) then butlast rs @ [GTIDRange (gLo (last rs)) hi] else rs)
      else foldl merge_range [] (sort_key gLo (rs @ [GTIDRange lo hi])))"

section \<open>Sets\<close>

definition lookup :: "GTIDSet \<Rightarrow> string \<Rightarrow> GTIDRange list" where
  "lookup s k = (case map_of s k of Some rs \<Rightarrow> rs | None \<Rightarrow> [])"

definition Add :: "GTIDSet \<Rightarrow> string \<Rightarrow> int64 \<Rightarrow> int64 \<Rightarrow> GTIDSet" where
  "Add s k lo hi =
     (if k = '''' \<or> lo \<le> 0 \<or> hi < lo then s
      else AList.update k (add_range (lookup s k) lo hi) s)"

record GTIDEventRef =
  evUUID :: string
  evSeq :: int64
  evOffset :: int
  evWhen :: instant

definition AddEvents :: "GTIDSet \<Rightarrow> GTIDEventRef list \<Rightarrow> GTIDSet" where
  "AddEvents s events =
     foldl (\<lambda>s ev. if evUUID ev = '''' \<or> evSeq ev \<le> 0 then s
                    else Add s (to_lower (evUUID ev)) (evSeq ev) (evSeq ev)) s events"

definition add_list :: "string \<Rightarrow> GTIDSet \<Rightarrow> GTIDRange list \<Rightarrow> GTIDSet" where
  "add_list k s rs = foldl (\<lambda>s iv. Add s k (gLo iv) (gHi iv)) s rs"

definition AddAll :: "GTIDSet \<Rightarrow> GTIDSet \<Rightarrow> GTIDSet" where
  "AddAll s oth = foldl (\<lambda>s x. add_list (fst x) s (snd x)) s oth"

fun minus_cuts :: "string \<Rightarrow> GTIDSet \<Rightarrow> int64 \<Rightarrow> int64 \<Rightarrow> GTIDRange list \<Rightarrow> GTIDSet \<times> int64" where
  "minus_cuts k out lo hi [] = (out, lo)"
| "minus_cuts k out lo hi (c # cs) =
     (if gHi c < lo \<or> gLo c > hi then minus_cuts k out lo hi cs
      else
        (let out' = (if gLo c > lo then Add out k lo (gLo c - 1) else out);
             lo' = wrap64 (gHi c + 1)
         in if lo' > hi then (out', lo') else minus_cuts k out' lo' hi cs))"

definition minus_range :: "string \<Rightarrow> GTIDRange list \<Rightarrow> GTIDSet \<Rightarrow> GTIDRange \<Rightarrow> GTIDSet" where
  "minus_range k cs out iv =
     (let (out', lo) = minus_cuts k out (gLo iv) (gHi iv) cs
      in if lo \<le> gHi iv then Add out' k lo (gHi iv) else out')"

definition Minus :: "GTIDSet \<Rightarrow> GTIDSet \<Rightarrow> GTIDSet" where
  "Minus s oth = foldl (\<lambda>out x. foldl (minus_range (fst x) (lookup oth (fst x))) out (snd x)) [] s"

definition Has :: "GTIDSet \<Rightarrow> string \<Rightarrow> int64 \<Rightarrow> bool" where
  "Has s k n =
     (let rs = lookup s k;
          i = sort_search (length rs) (\<lambda>i. gHi (rs ! i) \<ge> n)
      in i < length rs \<and> gLo (rs ! i) \<le> n)"

definition range_in :: "GTIDRange list \<Rightarrow> GTIDRange \<Rightarrow> bool" where
  "range_in hv iv =
     (let i = sort_search (length hv) (\<lambda>i. gHi (hv ! i) \<ge> gLo iv)
      in \<not> (i = length hv \<or> gLo (hv ! i) > gLo iv \<or> gHi (hv ! i) < gHi iv))"

definition Contains :: "GTIDSet \<Rightarrow> GTIDSet \<Rightarrow> bool" where
  "Contains s oth = list_all (\<lambda>x. list_all (range_in (lookup s (fst x))) (snd x)) oth"

definition HasEvent :: "GTIDSet \<Rightarrow> GTIDEventRef \<Rightarrow> bool" where
  "HasEvent s ev = Has s (to_lower (evUUID ev)) (evSeq ev)"

definition IsEmpty :: "GTIDSet \<Rightarrow> bool" where
  "IsEmpty s = list_all (\<lambda>x. snd x = []) s"

fun gaps_of :: "string \<Rightarrow> GTIDSet \<Rightarrow> GTIDRange list \<Rightarrow> GTIDSet" where
  "gaps_of k out (a # b # rs) =
     gaps_of k (Add out k (wrap64 (gHi a + 1)) (gLo b - 1)) (b # rs)"
| "gaps_of k out _ = out"

definition InteriorGaps :: "GTIDSet \<Rightarrow> GTIDSet" where
  "InteriorGaps s = foldl (\<lambda>out x. gaps_of (fst x) out (snd x)) [] s"

section \<open>Meaning and representation invariant\<close>

definition range_set :: "GTIDRange list \<Rightarrow> int set" where
  "range_set rs = (\<Union>r \<in> set rs. {gLo r..gHi r})"

definition range_ok :: "GTIDRange \<Rightarrow> bool" where
  "range_ok r \<longleftrightarrow> 1 \<le> gLo r \<and> gLo r \<le> gHi r \<and> gHi r < max_int64"

definition apart :: "GTIDRange \<Rightarrow> GTIDRange \<Rightarrow> bool" where
  "apart a b \<longleftrightarrow> gHi a + 1 < gLo b"

definition canon :: "GTIDRange list \<Rightarrow> bool" where
  "canon rs \<longleftrightarrow> sorted_wrt apart rs \<and> list_all range_ok rs"

definition gtids :: "GTIDSet \<Rightarrow> (string \<times> int) set" where
  "gtids s = {(k, n). n \<in> range_set (lookup s k)}"

definition canonical :: "GTIDSet \<Rightarrow> bool" where
  "canonical s \<longleftrightarrow> distinct (map fst s) \<and> list_all (\<lambda>x. fst x \<noteq> '''' \<and> canon (snd x)) s"

lemma range_set_simps [simp]:
  "range_set [] = {}" "range_set (r # rs) = {gLo r..gHi r} \<union> range_set rs"
  "range_set (rs @ ts) = range_set rs \<union> range_set ts"
  by (auto simp: range_set_def)

lemma canon_simps [simp]:
  "canon []" "canon [r] \<longleftrightarrow> range_ok r"
  "canon (r # rs) \<longleftrightarrow> range_ok r \<and> (\<forall>x \<in> set rs. apart r x) \<and> canon rs"
  "canon (rs @ ts) \<longleftrightarrow> canon rs \<and> canon ts \<and> (\<forall>x \<in> set rs. \<forall>y \<in> set ts. apart x y)"
  by (auto simp: canon_def sorted_wrt_append)

lemma range_okD: "range_ok r \<Longrightarrow> 1 \<le> gLo r \<and> gLo r \<le> gHi r \<and> gHi r < max_int64"
  by (simp add: range_ok_def)

lemma range_ok_wrap [simp]: "range_ok r \<Longrightarrow> wrap64 (gHi r + 1) = gHi r + 1"
  by (rule wrap64_id) (auto simp: range_ok_def min_int64_def)

section \<open>Merging\<close>

lemma merge_range_step:
  assumes "canon (ys @ [z])" and "range_ok iv" and "gLo z \<le> gLo iv"
  shows "canon (merge_range (ys @ [z]) iv)
    \<and> range_set (merge_range (ys @ [z]) iv) = range_set (ys @ [z]) \<union> {gLo iv..gHi iv}
    \<and> merge_range (ys @ [z]) iv \<noteq> []
    \<and> gLo (last (merge_range (ys @ [z]) iv)) \<le> gLo iv"
proof -
  have z: "range_ok z" using assms(1) by simp
  have un: "{gLo z..gHi z} \<union> {gLo iv..gHi iv} = {gLo z..max (gHi z) (gHi iv)}" if "gLo iv \<le> gHi z + 1"
    using that assms(2,3) z by (auto simp: range_ok_def)
  show ?thesis
  proof (cases "gLo iv \<le> gHi z + 1")
    case False
    moreover have "apart x iv" if "x \<in> set (ys @ [z])" for x
      using that assms(1) False z by (auto simp: apart_def range_ok_def)
    ultimately show ?thesis using assms z by (simp add: merge_range_def Un_assoc)
  next
    case True
    then show ?thesis
      using un [OF True] assms z
      by (auto simp: merge_range_def range_ok_def apart_def max_def Un_assoc [symmetric])
  qed
qed

lemma foldl_merge:
  "canon (ys @ [z]) \<Longrightarrow> list_all range_ok rs \<Longrightarrow> sorted (map gLo (z # rs)) \<Longrightarrow>
   canon (foldl merge_range (ys @ [z]) rs)
   \<and> range_set (foldl merge_range (ys @ [z]) rs) = range_set (ys @ [z]) \<union> range_set rs"
proof (induction rs arbitrary: ys z)
  case (Cons r rs)
  note st = merge_range_step [of ys z r]
  obtain ys' z' where m: "merge_range (ys @ [z]) r = ys' @ [z']"
    using st Cons.prems by (cases "merge_range (ys @ [z]) r" rule: rev_cases) auto
  have "canon (ys' @ [z'])" "range_set (ys' @ [z']) = range_set (ys @ [z]) \<union> {gLo r..gHi r}"
    "gLo z' \<le> gLo r"
    using st Cons.prems unfolding m by simp_all
  moreover have "sorted (map gLo (z' # rs))"
    using Cons.prems(3) \<open>gLo z' \<le> gLo r\<close> by auto
  ultimately show ?case
    using Cons.IH [of ys' z'] Cons.prems(2) by (simp add: m Un_assoc)
qed simp

lemma merge_all:
  assumes "list_all range_ok rs" and "sorted (map gLo rs)"
  shows "canon (foldl merge_range [] rs) \<and> range_set (foldl merge_range [] rs) = range_set rs"
proof (cases rs)
  case (Cons r ts)
  then show ?thesis
    using foldl_merge [of "[]" r ts] assms by (simp add: merge_range_def)
qed simp

lemma range_set_mset: "set xs = set ys \<Longrightarrow> range_set xs = range_set ys"
  by (simp add: range_set_def)

lemma add_range_ok:
  assumes "canon rs" and "range_ok (GTIDRange lo hi)"
  shows "canon (add_range rs lo hi) \<and> range_set (add_range rs lo hi) = range_set rs \<union> {lo..hi}"
proof (cases rs rule: rev_cases)
  case Nil
  then show ?thesis using assms(2) by (simp add: add_range_def)
next
  case (snoc ys z)
  have z: "range_ok z" using assms(1) snoc by simp
  let ?r = "GTIDRange lo hi"
  show ?thesis
  proof (cases "gLo z \<le> lo")
    case True
    then have "add_range rs lo hi = merge_range (ys @ [z]) ?r"
      using snoc z by (simp add: add_range_def merge_range_def)
    then show ?thesis
      using merge_range_step [of ys z ?r] True assms snoc by simp
  next
    case False
    then have "add_range rs lo hi = foldl merge_range [] (sort_key gLo (rs @ [?r]))"
      using snoc z by (simp add: add_range_def range_ok_def)
    moreover have "list_all range_ok (sort_key gLo (rs @ [?r]))"
      using assms by (auto simp: list_all_iff canon_def)
    moreover have "range_set (sort_key gLo (rs @ [?r])) = range_set (rs @ [?r])"
      by (rule range_set_mset) simp
    ultimately show ?thesis using merge_all [of "sort_key gLo (rs @ [?r])"] by simp
  qed
qed

section \<open>Canonical lists are unique\<close>

lemma canon_lower: "canon (r # rs) \<Longrightarrow> n \<in> range_set rs \<Longrightarrow> gHi r + 1 < n"
  by (auto simp: range_set_def apart_def dest!: bspec)

lemma canon_head:
  assumes "canon (r # rs)"
  shows "{n \<in> range_set (r # rs). \<forall>m. gLo r \<le> m \<and> m \<le> n \<longrightarrow> m \<in> range_set (r # rs)} = {gLo r..gHi r}"
proof -
  have out: "gHi r + 1 \<notin> range_set (r # rs)" using canon_lower [OF assms, of "gHi r + 1"] by auto
  have up: "n \<le> gHi r" if "\<forall>m. gLo r \<le> m \<and> m \<le> n \<longrightarrow> m \<in> range_set (r # rs)" for n
  proof (rule ccontr)
    assume "\<not> n \<le> gHi r"
    then have "gHi r + 1 \<in> range_set (r # rs)"
      using that [rule_format, of "gHi r + 1"] assms by (simp add: range_ok_def)
    then show False using out by blast
  qed
  have down: "gLo r \<le> n" if "n \<in> range_set (r # rs)" for n
    using that canon_lower [OF assms, of n] assms by (auto simp: range_ok_def)
  have inside: "m \<in> range_set (r # rs)" if "gLo r \<le> m" "m \<le> gHi r" for m using that by simp
  show ?thesis
  proof (intro set_eqI iffI)
    fix n assume "n \<in> {gLo r..gHi r}"
    then show "n \<in> {n \<in> range_set (r # rs). \<forall>m. gLo r \<le> m \<and> m \<le> n \<longrightarrow> m \<in> range_set (r # rs)}"
      using inside by (intro CollectI conjI allI impI) (metis atLeastAtMost_iff order_trans)+
  next
    fix n assume "n \<in> {n \<in> range_set (r # rs). \<forall>m. gLo r \<le> m \<and> m \<le> n \<longrightarrow> m \<in> range_set (r # rs)}"
    then have c: "n \<in> range_set (r # rs) \<and> (\<forall>m. gLo r \<le> m \<and> m \<le> n \<longrightarrow> m \<in> range_set (r # rs))"
      by (rule CollectD)
    show "n \<in> {gLo r..gHi r}" using up [OF conjunct2 [OF c]] down [OF conjunct1 [OF c]] by simp
  qed
qed

text \<open>A set of numbers has one canonical list: equal sets are equal lists.\<close>

lemma canon_unique: "canon xs \<Longrightarrow> canon ys \<Longrightarrow> range_set xs = range_set ys \<Longrightarrow> xs = ys"
proof (induction xs arbitrary: ys)
  case Nil
  then show ?case by (cases ys) (auto simp: range_ok_def)
next
  case (Cons x xs)
  then obtain y ys' where ys: "ys = y # ys'" by (cases ys) (auto simp: range_ok_def)
  have ok: "range_ok x" "range_ok y" using Cons.prems ys by simp_all
  have least: "n \<in> range_set (r # rs) \<Longrightarrow> gLo r \<le> n" if "canon (r # rs)" for r rs n
    using canon_lower [OF that, of n] that by (auto simp: range_ok_def)
  have "gLo x \<in> range_set ys" "gLo y \<in> range_set (x # xs)"
    using ok Cons.prems(3) ys by (auto simp: range_ok_def)
  then have lo: "gLo x = gLo y"
    using least [of x xs "gLo y"] least [of y ys' "gLo x"] Cons.prems(1,2) ys by simp
  have "{gLo x..gHi x} = {gLo y..gHi y}"
    using canon_head [OF Cons.prems(1)] canon_head [of y ys'] Cons.prems(2,3)
    unfolding ys lo by (simp only:)
  then have "x = y" using ok by (cases x; cases y) (auto simp: range_ok_def)
  moreover have "range_set xs = range_set ys'"
  proof -
    have rest: "range_set rs = range_set (r # rs) - {gLo r..gHi r}" if "canon (r # rs)" for r rs
      using canon_lower [OF that] by force
    show ?thesis using rest [of x xs] rest [of y ys'] Cons.prems ys \<open>x = y\<close> by simp
  qed
  ultimately show ?case using Cons ys by simp
qed

section \<open>Adding\<close>

lemma canonical_lookup: "canonical s \<Longrightarrow> canon (lookup s k)"
  by (auto simp: canonical_def lookup_def list_all_iff split: option.split dest!: map_of_SomeD)

lemma lookup_update: "lookup (AList.update k v s) x = (if x = k then v else lookup s x)"
  by (simp add: lookup_def alist_simps)

lemma gtids_update: "gtids (AList.update k v s) = {x \<in> gtids s. fst x \<noteq> k} \<union> {k} \<times> range_set v"
  by (auto simp: gtids_def lookup_update split: if_splits)

lemma gtids_at: "{k} \<times> range_set (lookup s k) = {x \<in> gtids s. fst x = k}"
  by (auto simp: gtids_def)

lemma canonical_update:
  assumes "canonical s" "canon v" "k \<noteq> ''''" shows "canonical (AList.update k v s)"
  using assms set_alist_update_subset [of k v s]
  by (auto simp: canonical_def distinct_update list_all_iff dest!: subsetD)

lemma canonical_Nil [simp]: "canonical []" "gtids [] = {}"
  by (simp_all add: canonical_def gtids_def lookup_def)

lemma Add_ok:
  assumes "canonical s" and "hi < max_int64"
  shows "canonical (Add s k lo hi)"
    and "gtids (Add s k lo hi) = gtids s \<union> (if k = '''' \<or> lo \<le> 0 then {} else {k} \<times> {lo..hi})"
proof -
  have *: "canon (add_range (lookup s k) lo hi) \<and>
      range_set (add_range (lookup s k) lo hi) = range_set (lookup s k) \<union> {lo..hi}"
    if "0 < lo" "lo \<le> hi"
    using that assms canonical_lookup [OF assms(1)] by (intro add_range_ok) (auto simp: range_ok_def)
  show "canonical (Add s k lo hi)"
    using * assms(1) by (auto simp: Add_def intro!: canonical_update)
  show "gtids (Add s k lo hi) = gtids s \<union> (if k = '''' \<or> lo \<le> 0 then {} else {k} \<times> {lo..hi})"
  proof (cases "k = '''' \<or> lo \<le> 0 \<or> hi < lo")
    case False
    then show ?thesis
      using * by (simp add: Add_def gtids_update Sigma_Un_distrib2 gtids_at) blast
  qed (auto simp: Add_def)
qed

lemma add_list_ok:
  assumes "canonical s" and "list_all range_ok rs" and "k \<noteq> ''''"
  shows "canonical (add_list k s rs) \<and> gtids (add_list k s rs) = gtids s \<union> {k} \<times> range_set rs"
  using assms(1,2)
proof (induction rs arbitrary: s)
  case (Cons r rs)
  have r: "range_ok r" using Cons.prems by simp
  have "canonical (Add s k (gLo r) (gHi r))"
    "gtids (Add s k (gLo r) (gHi r)) = gtids s \<union> {k} \<times> {gLo r..gHi r}"
    using Add_ok [OF Cons.prems(1), of "gHi r" k "gLo r"] r assms(3) by (simp_all add: range_ok_def)
  then show ?case
    using Cons.IH [of "Add s k (gLo r) (gHi r)"] Cons.prems by (auto simp: add_list_def)
qed (simp add: add_list_def)

lemma gtids_pairs:
  "distinct (map fst s) \<Longrightarrow> gtids s = (\<Union>x \<in> set s. {fst x} \<times> range_set (snd x))"
  by (force simp: gtids_def lookup_def dest: map_of_SomeD split: option.splits)

lemma canonical_Cons:
  "canonical (x # s) \<longleftrightarrow> canonical s \<and> fst x \<notin> fst ` set s \<and> fst x \<noteq> '''' \<and> canon (snd x)"
  by (auto simp: canonical_def)

lemma gtids_Cons: "canonical (x # s) \<Longrightarrow> gtids (x # s) = {fst x} \<times> range_set (snd x) \<union> gtids s"
  by (simp add: gtids_pairs canonical_def)

lemma AddAll_ok:
  assumes "canonical s" and "canonical oth"
  shows "canonical (AddAll s oth) \<and> gtids (AddAll s oth) = gtids s \<union> gtids oth"
  using assms
proof (induction oth arbitrary: s)
  case (Cons x oth)
  have x: "fst x \<noteq> ''''" "list_all range_ok (snd x)" "canonical oth"
    using Cons.prems(2) by (simp_all add: canonical_Cons canon_def)
  note a = add_list_ok [OF Cons.prems(1) x(2,1)]
  then show ?case
    using Cons.IH [of "add_list (fst x) s (snd x)"] x(3) Cons.prems(2)
    by (auto simp: AddAll_def gtids_Cons)
qed (simp add: AddAll_def)

lemma AddEvents_ok:
  assumes "canonical s" and "\<forall>ev \<in> set events. evSeq ev < max_int64"
  shows "canonical (AddEvents s events) \<and> gtids (AddEvents s events) =
    gtids s \<union> {(to_lower (evUUID ev), evSeq ev) | ev. ev \<in> set events \<and> evUUID ev \<noteq> '''' \<and> 0 < evSeq ev}"
  using assms
proof (induction events arbitrary: s)
  case (Cons ev events)
  define s' where "s' = (if evUUID ev = '''' \<or> evSeq ev \<le> 0 then s
      else Add s (to_lower (evUUID ev)) (evSeq ev) (evSeq ev))"
  have "canonical s' \<and> gtids s' = gtids s \<union>
      (if evUUID ev = '''' \<or> evSeq ev \<le> 0 then {} else {(to_lower (evUUID ev), evSeq ev)})"
    using Add_ok [OF Cons.prems(1), of "evSeq ev" "to_lower (evUUID ev)" "evSeq ev"] Cons.prems
    by (auto simp: s'_def to_lower_def)
  then show ?case
    using Cons.IH [of s'] Cons.prems(2) by (auto simp: AddEvents_def s'_def)
qed (simp add: AddEvents_def)

section \<open>Subtracting\<close>

text \<open>The loop over the cuts, with the remainder added, is the difference.\<close>

definition cut_rest :: "string \<Rightarrow> GTIDSet \<times> int64 \<Rightarrow> int64 \<Rightarrow> GTIDSet" where
  "cut_rest k p hi = (if snd p \<le> hi then Add (fst p) k (snd p) hi else fst p)"

lemma minus_range_rest: "minus_range k cs out iv = cut_rest k (minus_cuts k out (gLo iv) (gHi iv) cs) (gHi iv)"
  by (simp add: minus_range_def cut_rest_def case_prod_unfold Let_def)

lemma cut_overlap:
  assumes "canon (c # cs)" and "\<not> (gHi c < lo \<or> hi < gLo c)"
  shows "{lo..hi} - range_set (c # cs) = {lo..gLo c - 1} \<union> ({gHi c + 1..hi} - range_set cs)"
  using canon_lower [OF assms(1)] assms by (fastforce simp: range_ok_def)

lemma minus_cuts_ok:
  assumes "canon cs" and "canonical out" and "k \<noteq> ''''" and "1 \<le> lo" and "hi < max_int64"
  defines "u \<equiv> cut_rest k (minus_cuts k out lo hi cs) hi"
  shows "canonical u \<and> gtids u = gtids out \<union> {k} \<times> ({lo..hi} - range_set cs)"
  using assms(1,2,4) unfolding u_def
proof (induction cs arbitrary: out lo)
  case Nil
  then show ?case using Add_ok [of out hi k lo] assms(3,5) by (auto simp: cut_rest_def)
next
  case (Cons c cs)
  have c: "range_ok c" "canon cs" using Cons.prems(1) by simp_all
  show ?case
  proof (cases "gHi c < lo \<or> gLo c > hi")
    case True
    then have "{lo..hi} - range_set (c # cs) = {lo..hi} - range_set cs" by auto
    then show ?thesis using True Cons.IH [OF c(2) Cons.prems(2,3)] by simp
  next
    case False
    define out' where "out' = (if gLo c > lo then Add out k lo (gLo c - 1) else out)"
    have o: "canonical out'" "gtids out' = gtids out \<union> {k} \<times> {lo..gLo c - 1}"
      using Add_ok [OF Cons.prems(2), of "gLo c - 1" k lo] assms(3) Cons.prems(2,3) c(1)
      by (auto simp: out'_def range_ok_def)
    note eq = cut_overlap [OF Cons.prems(1) False]
    show ?thesis
    proof (cases "gHi c + 1 > hi")
      case True
      then show ?thesis using False o eq c(1) by (simp add: cut_rest_def out'_def Let_def)
    next
      case more: False
      have "minus_cuts k out lo hi (c # cs) = minus_cuts k out' (gHi c + 1) hi cs"
        using False more c(1) by (simp add: Let_def out'_def)
      moreover have "1 \<le> gHi c + 1" using c(1) by (simp add: range_ok_def)
      ultimately show ?thesis
        using Cons.IH [OF c(2) o(1), of "gHi c + 1"] eq o(2) by auto
    qed
  qed
qed

lemma minus_ranges_ok:
  assumes "canon cs" and "k \<noteq> ''''"
  shows "canonical out \<Longrightarrow> list_all range_ok rs \<Longrightarrow>
    canonical (foldl (minus_range k cs) out rs)
    \<and> gtids (foldl (minus_range k cs) out rs) = gtids out \<union> {k} \<times> (range_set rs - range_set cs)"
proof (induction rs arbitrary: out)
  case (Cons r rs)
  have r: "range_ok r" using Cons.prems(2) by simp
  have "canonical (minus_range k cs out r)"
    "gtids (minus_range k cs out r) = gtids out \<union> {k} \<times> ({gLo r..gHi r} - range_set cs)"
    using minus_cuts_ok [OF assms(1) Cons.prems(1) assms(2), of "gLo r" "gHi r"] r
    by (simp_all add: minus_range_rest range_ok_def)
  then show ?case
    using Cons.IH [of "minus_range k cs out r"] Cons.prems(2) by auto
qed simp

lemma Minus_ok:
  assumes "canonical s" and "canonical oth"
  shows "canonical (Minus s oth) \<and> gtids (Minus s oth) = gtids s - gtids oth"
proof -
  have "canonical (foldl (\<lambda>out x. foldl (minus_range (fst x) (lookup oth (fst x))) out (snd x)) out s)
      \<and> gtids (foldl (\<lambda>out x. foldl (minus_range (fst x) (lookup oth (fst x))) out (snd x)) out s)
        = gtids out \<union> (gtids s - gtids oth)" if "canonical out" for out
    using assms(1) that
  proof (induction s arbitrary: out)
    case (Cons x s)
    have x: "fst x \<noteq> ''''" "list_all range_ok (snd x)" "canonical s"
      using Cons.prems(1) by (simp_all add: canonical_Cons canon_def)
    note m = minus_ranges_ok [OF canonical_lookup [OF assms(2)] x(1) Cons.prems(2) x(2), of "fst x"]
    have d: "{fst x} \<times> (range_set (snd x) - range_set (lookup oth (fst x))) =
        {fst x} \<times> range_set (snd x) - gtids oth" by (auto simp: gtids_def)
    show ?case
      using m Cons.IH [OF x(3), of "foldl (minus_range (fst x) (lookup oth (fst x))) out (snd x)"]
        gtids_Cons [OF Cons.prems(1)] d by auto
  qed simp
  from this [of "[]"] show ?thesis by (simp add: Minus_def)
qed

section \<open>Searching\<close>

lemma canon_nth:
  assumes "canon rs" "i < j" "j < length rs"
  shows "gHi (rs ! i) + 1 < gLo (rs ! j)"
  using assms by (auto simp: canon_def apart_def sorted_wrt_iff_nth_less)

lemma canon_nth_ok: "canon rs \<Longrightarrow> i < length rs \<Longrightarrow> range_ok (rs ! i)"
  by (simp add: canon_def list_all_length)

lemma canon_Hi_mono:
  "canon rs \<Longrightarrow> i \<le> j \<Longrightarrow> j < length rs \<Longrightarrow> gHi (rs ! i) \<le> gHi (rs ! j)"
  using canon_nth [of rs i j] canon_nth_ok [of rs j] by (cases "i = j") (auto simp: range_ok_def)

lemma search_spec:
  fixes n :: int
  assumes "canon rs"
  defines "i \<equiv> sort_search (length rs) (\<lambda>i. gHi (rs ! i) \<ge> n)"
  shows "n \<in> range_set rs \<longleftrightarrow> i < length rs \<and> gLo (rs ! i) \<le> n"
    and "i \<le> length rs" and "i < length rs \<Longrightarrow> n \<le> gHi (rs ! i)"
proof -
  have mono: "\<And>a b. a \<le> b \<Longrightarrow> gHi (rs ! a) \<ge> n \<Longrightarrow> b < length rs \<Longrightarrow> gHi (rs ! b) \<ge> n"
    using canon_Hi_mono [OF assms(1)] by (meson order_trans)
  note sp = sort_search_spec [of "\<lambda>i. gHi (rs ! i) \<ge> n" "length rs", OF mono, folded i_def]
  show le: "i \<le> length rs" and hi: "i < length rs \<Longrightarrow> n \<le> gHi (rs ! i)" using sp by auto
  show "n \<in> range_set rs \<longleftrightarrow> i < length rs \<and> gLo (rs ! i) \<le> n"
  proof
    assume "n \<in> range_set rs"
    then obtain j where j: "j < length rs" "gLo (rs ! j) \<le> n" "n \<le> gHi (rs ! j)"
      by (auto simp: range_set_def in_set_conv_nth)
    then have "\<not> j < i" using sp(2) by auto
    moreover have "\<not> i < j" using canon_nth [OF assms(1), of i j] j hi by auto
    ultimately show "i < length rs \<and> gLo (rs ! i) \<le> n" using j by auto
  next
    assume "i < length rs \<and> gLo (rs ! i) \<le> n"
    then show "n \<in> range_set rs" using hi by (auto simp: range_set_def intro!: bexI [of _ "rs ! i"])
  qed
qed

lemma Has_ok: "canonical s \<Longrightarrow> Has s k n \<longleftrightarrow> (k, n) \<in> gtids s"
  using search_spec(1) [OF canonical_lookup, of s n k] by (simp add: Has_def gtids_def Let_def)

lemma gap_after: "canon rs \<Longrightarrow> r \<in> set rs \<Longrightarrow> gHi r + 1 \<notin> range_set rs"
proof -
  assume c: "canon rs" and "r \<in> set rs"
  then obtain i where i: "i < length rs" "r = rs ! i" by (metis in_set_conv_nth)
  show "gHi r + 1 \<notin> range_set rs"
  proof
    assume "gHi r + 1 \<in> range_set rs"
    then obtain j where j: "j < length rs" "gLo (rs ! j) \<le> gHi r + 1" "gHi r + 1 \<le> gHi (rs ! j)"
      by (auto simp: range_set_def in_set_conv_nth)
    then show False
      using canon_nth [OF c, of i j] canon_nth [OF c, of j i] canon_nth_ok [OF c, of i] i
      by (cases i j rule: linorder_cases) (auto simp: range_ok_def)
  qed
qed

lemma range_in_ok:
  assumes "canon hv" and "range_ok iv"
  shows "range_in hv iv \<longleftrightarrow> {gLo iv..gHi iv} \<subseteq> range_set hv"
proof -
  define i where "i = sort_search (length hv) (\<lambda>i. gHi (hv ! i) \<ge> gLo iv)"
  note sp = search_spec [OF assms(1), of "gLo iv", folded i_def]
  have "range_in hv iv \<longleftrightarrow> i < length hv \<and> gLo (hv ! i) \<le> gLo iv \<and> gHi iv \<le> gHi (hv ! i)"
    using sp(2) by (auto simp: range_in_def i_def Let_def)
  also have "\<dots> \<longleftrightarrow> {gLo iv..gHi iv} \<subseteq> range_set hv"
  proof
    assume "i < length hv \<and> gLo (hv ! i) \<le> gLo iv \<and> gHi iv \<le> gHi (hv ! i)"
    then show "{gLo iv..gHi iv} \<subseteq> range_set hv"
      by (auto simp: range_set_def intro!: bexI [of _ "hv ! i"])
  next
    assume sub: "{gLo iv..gHi iv} \<subseteq> range_set hv"
    then have i: "i < length hv" "gLo (hv ! i) \<le> gLo iv" using sp(1) assms(2) by (auto simp: range_ok_def)
    have "gHi (hv ! i) + 1 \<notin> range_set hv" using i(1) assms(1) by (intro gap_after) simp_all
    then have "\<not> (gLo iv \<le> gHi (hv ! i) + 1 \<and> gHi (hv ! i) + 1 \<le> gHi iv)" using sub by auto
    then show "i < length hv \<and> gLo (hv ! i) \<le> gLo iv \<and> gHi iv \<le> gHi (hv ! i)" using i sp(3) by auto
  qed
  finally show ?thesis .
qed

lemma Contains_ok:
  assumes "canonical s" and "canonical oth"
  shows "Contains s oth \<longleftrightarrow> gtids oth \<subseteq> gtids s"
proof -
  have "list_all (range_in (lookup s k)) rs \<longleftrightarrow> {k} \<times> range_set rs \<subseteq> gtids s" if "canon rs" for k rs
  proof -
    have "list_all (range_in (lookup s k)) rs \<longleftrightarrow> (\<forall>r \<in> set rs. {gLo r..gHi r} \<subseteq> range_set (lookup s k))"
      using that range_in_ok [OF canonical_lookup [OF assms(1)]] by (auto simp: list_all_iff canon_def)
    also have "\<dots> \<longleftrightarrow> range_set rs \<subseteq> range_set (lookup s k)"
      unfolding range_set_def [of rs] by blast
    also have "\<dots> \<longleftrightarrow> {k} \<times> range_set rs \<subseteq> gtids s"
      by (auto simp: gtids_def)
    finally show ?thesis .
  qed
  then show ?thesis
    using assms(2) by (auto simp: Contains_def gtids_pairs [of oth] canonical_def list_all_iff)
qed

lemma IsEmpty_ok:
  assumes "canonical s" shows "IsEmpty s \<longleftrightarrow> gtids s = {}"
proof -
  have "rs = [] \<longleftrightarrow> range_set rs = {}" if "canon rs" for rs
    using that by (cases rs) (auto simp: range_ok_def)
  then show ?thesis
    using assms by (auto simp: IsEmpty_def gtids_pairs canonical_def list_all_iff)
qed

section \<open>Interior gaps\<close>

definition interior :: "int set \<Rightarrow> int set" where
  "interior X = {n. n \<notin> X \<and> (\<exists>a \<in> X. a < n) \<and> (\<exists>b \<in> X. n < b)}"

lemma interior_Cons:
  assumes "canon (a # b # rs)"
  shows "interior (range_set (a # b # rs)) = {gHi a + 1..gLo b - 1} \<union> interior (range_set (b # rs))"
proof -
  have a: "range_ok a" and b: "range_ok b" and cb: "canon (b # rs)" and ab: "gHi a + 1 < gLo b"
    using assms by (simp_all add: apart_def)
  let ?X = "range_set (b # rs)"
  have least: "gLo b \<le> n" if "n \<in> ?X" for n
    using that canon_lower [OF cb, of n] b by (auto simp: range_ok_def)
  have bX: "gLo b \<in> ?X" and aX: "gLo a \<le> gHi a" using a b by (auto simp: range_ok_def)
  have eq: "range_set (a # b # rs) = {gLo a..gHi a} \<union> ?X" by simp
  show ?thesis
  proof (intro set_eqI iffI)
    fix n assume n: "n \<in> interior (range_set (a # b # rs))"
    then have nX: "n \<notin> ?X" "\<not> (gLo a \<le> n \<and> n \<le> gHi a)" by (auto simp: interior_def)
    show "n \<in> {gHi a + 1..gLo b - 1} \<union> interior ?X"
    proof (cases "n < gLo b")
      case True
      obtain m where "m \<in> range_set (a # b # rs)" "m < n" using n unfolding interior_def by blast
      then have "gLo a \<le> n" using True least [of m] by (auto simp: eq)
      then show ?thesis using True nX by auto
    next
      case False
      then have "gLo b < n" using nX(1) bX by (cases "n = gLo b") auto
      moreover obtain m where "m \<in> range_set (a # b # rs)" "n < m" using n unfolding interior_def by blast
      then have "m \<in> ?X" using False ab by (auto simp: eq)
      ultimately show ?thesis using nX(1) bX \<open>n < m\<close> by (auto simp: interior_def)
    qed
  next
    fix n assume "n \<in> {gHi a + 1..gLo b - 1} \<union> interior ?X"
    then show "n \<in> interior (range_set (a # b # rs))"
    proof
      assume n: "n \<in> {gHi a + 1..gLo b - 1}"
      then have "n \<notin> ?X" using least [of n] by auto
      moreover have "gLo a \<in> range_set (a # b # rs)" "gLo b \<in> range_set (a # b # rs)"
        using aX bX unfolding eq by auto
      moreover have "gLo a < n" "n < gLo b" "n \<notin> {gLo a..gHi a}" using n aX by auto
      ultimately show ?thesis unfolding interior_def eq by blast
    next
      assume n: "n \<in> interior ?X"
      then obtain m where "m \<in> ?X" "m < n" unfolding interior_def by blast
      then have "gHi a < n" using least [of m] ab by auto
      then show ?thesis using n by (auto simp: interior_def eq)
    qed
  qed
qed

lemma gaps_of_ok:
  assumes "k \<noteq> ''''"
  shows "canon rs \<Longrightarrow> canonical out \<Longrightarrow> canonical (gaps_of k out rs)
    \<and> gtids (gaps_of k out rs) = gtids out \<union> {k} \<times> interior (range_set rs)"
proof (induction rs arbitrary: out rule: induct_list012)
  case (3 a b rs)
  have r: "range_ok a" "range_ok b" and cb: "canon (b # rs)" using "3.prems"(1) by simp_all
  define out' where "out' = Add out k (gHi a + 1) (gLo b - 1)"
  have o: "canonical out'" "gtids out' = gtids out \<union> {k} \<times> {gHi a + 1..gLo b - 1}"
    using Add_ok [OF "3.prems"(2), of "gLo b - 1" k "gHi a + 1"] r assms
    by (simp_all add: out'_def range_ok_def)
  have "gaps_of k out (a # b # rs) = gaps_of k out' (b # rs)" using r by (simp add: out'_def)
  then show ?case
    unfolding interior_Cons [OF "3.prems"(1)]
    using "3.IH"(2) [OF cb o(1)] o(2) by (simp only:) blast
qed (auto simp: interior_def)

lemma pairs_lookup:
  assumes "distinct (map fst s)" and "f [] = {}"
  shows "(\<Union>x \<in> set s. {fst x} \<times> f (snd x)) = {(k, n). n \<in> f (lookup s k)}"
proof -
  have "(k, n) \<in> (\<Union>x \<in> set s. {fst x} \<times> f (snd x)) \<longleftrightarrow> n \<in> f (lookup s k)" for k n
  proof -
    have "(k, n) \<in> (\<Union>x \<in> set s. {fst x} \<times> f (snd x)) \<longleftrightarrow> (\<exists>rs. (k, rs) \<in> set s \<and> n \<in> f rs)"
      by (auto intro: bexI [of _ "(k, _)"])
    also have "\<dots> \<longleftrightarrow> n \<in> f (lookup s k)"
      using assms(2) unfolding map_of_in_set [OF assms(1)]
      by (cases "map_of s k") (simp_all add: lookup_def)
    finally show ?thesis .
  qed
  then show ?thesis by auto
qed

lemma InteriorGaps_ok:
  assumes "canonical s"
  shows "canonical (InteriorGaps s)
    \<and> gtids (InteriorGaps s) = {(k, n). n \<in> interior {m. (k, m) \<in> gtids s}}"
proof -
  have "canonical (foldl (\<lambda>out x. gaps_of (fst x) out (snd x)) out u)
      \<and> gtids (foldl (\<lambda>out x. gaps_of (fst x) out (snd x)) out u)
        = gtids out \<union> (\<Union>x \<in> set u. {fst x} \<times> interior (range_set (snd x)))"
    if "canonical u" "canonical out" for u out
    using that
  proof (induction u arbitrary: out)
    case (Cons x u)
    note g = gaps_of_ok [of "fst x" "snd x" out]
    show ?case using g Cons.IH [of "gaps_of (fst x) out (snd x)"] Cons.prems
      by (auto simp: canonical_Cons)
  qed simp
  note this [OF assms canonical_Nil(1)]
  moreover have "(\<Union>x \<in> set s. {fst x} \<times> interior (range_set (snd x))) =
      {(k, n). n \<in> interior (range_set (lookup s k))}"
    using assms by (intro pairs_lookup) (simp_all add: canonical_def interior_def)
  moreover have "{m. (k, m) \<in> gtids s} = range_set (lookup s k)" for k by (simp add: gtids_def)
  ultimately show ?thesis by (simp add: InteriorGaps_def)
qed

section \<open>The interface\<close>

text \<open>What the callers of the GTID sets rely on: the operations compute the set operations on the
  transactions a set stands for, and keep the representation invariant.\<close>

locale gtid_algebra =
  fixes ok :: "'g \<Rightarrow> bool" and members :: "'g \<Rightarrow> (string \<times> int) set"
    and union :: "'g \<Rightarrow> 'g \<Rightarrow> 'g" and minus_set :: "'g \<Rightarrow> 'g \<Rightarrow> 'g"
    and has :: "'g \<Rightarrow> string \<Rightarrow> int \<Rightarrow> bool" and contains :: "'g \<Rightarrow> 'g \<Rightarrow> bool"
    and is_empty :: "'g \<Rightarrow> bool"
  assumes union: "ok a \<Longrightarrow> ok b \<Longrightarrow> ok (union a b) \<and> members (union a b) = members a \<union> members b"
    and minus_set: "ok a \<Longrightarrow> ok b \<Longrightarrow> ok (minus_set a b) \<and> members (minus_set a b) = members a - members b"
    and has: "ok a \<Longrightarrow> has a k n \<longleftrightarrow> (k, n) \<in> members a"
    and contains: "ok a \<Longrightarrow> ok b \<Longrightarrow> contains a b \<longleftrightarrow> members b \<subseteq> members a"
    and is_empty: "ok a \<Longrightarrow> is_empty a \<longleftrightarrow> members a = {}"
begin

lemma contains_iff_no_rest: "ok a \<Longrightarrow> ok b \<Longrightarrow> contains a b \<longleftrightarrow> is_empty (minus_set b a)"
  by (simp add: contains is_empty minus_set)

lemma contains_union: "ok a \<Longrightarrow> ok b \<Longrightarrow> ok c \<Longrightarrow>
  contains a (union b c) \<longleftrightarrow> contains a b \<and> contains a c"
  by (simp add: contains union)

lemma contains_trans: "ok a \<Longrightarrow> ok b \<Longrightarrow> ok c \<Longrightarrow> contains a b \<Longrightarrow> contains b c \<Longrightarrow> contains a c"
  by (auto simp: contains)

lemma minus_union: "ok a \<Longrightarrow> ok b \<Longrightarrow> ok c \<Longrightarrow>
  members (minus_set a (union b c)) = members (minus_set (minus_set a b) c)"
  by (auto simp: union minus_set)

lemma union_rest: "ok a \<Longrightarrow> ok b \<Longrightarrow> members (union b (minus_set a b)) = members (union a b)"
  by (auto simp: union minus_set)

end

interpretation gs: gtid_algebra canonical gtids AddAll Minus Has Contains IsEmpty
  by unfold_locales (simp_all add: AddAll_ok Minus_ok Has_ok Contains_ok IsEmpty_ok)

end
