(* ===== verification/Gtid_Text.thy ===== *)
theory Gtid_Text
  imports Gtid_Set
begin

text \<open>
  The text form of a GTID set (\<open>internal/binlog/gtid_set.go\<close>): the canonical printer
  \<open>String\<close>, the reader \<open>ParseGTIDSetLenient\<close>, the reader \<open>ParseGTIDSet\<close> that first asks
  go-mysql for its canonical text, and \<open>looksUUID\<close> of \<open>storage_consistency.go\<close>. The
  go-mysql parser is a parameter: it maps a text to the text its set prints, or to an error.
\<close>

section \<open>Printing\<close>

definition range_string :: "GTIDRange \<Rightarrow> string" where
  "range_string iv =
     format_int (gLo iv) @ (if gHi iv \<noteq> gLo iv then CHR ''-'' # format_int (gHi iv) else [])"

definition key_string :: "GTIDSet \<Rightarrow> string \<Rightarrow> string" where
  "key_string s k = k @ concat (map (\<lambda>iv. CHR '':'' # range_string iv) (lookup s k))"

definition String :: "GTIDSet \<Rightarrow> string" where
  "String s =
     (let keys = sort (map fst (filter (\<lambda>x. snd x \<noteq> []) s))
      in join_with CHR '','' (map (key_string s) keys))"

section \<open>Reading\<close>

definition is_hex :: "char \<Rightarrow> bool" where
  "is_hex c \<longleftrightarrow> is_digit c \<or> CHR ''a'' \<le> c \<and> c \<le> CHR ''f'' \<or> CHR ''A'' \<le> c \<and> c \<le> CHR ''F''"

definition looksUUID :: "string \<Rightarrow> bool" where
  "looksUUID s \<longleftrightarrow> length s = 36 \<and>
     list_all (\<lambda>i. if i \<in> {8, 13, 18, 23} then s ! i = CHR ''-'' else is_hex (s ! i)) [0..<36]"

definition cut_dash :: "string \<Rightarrow> string \<times> string" where
  "cut_dash f = (if CHR ''-'' \<in> set f
                 then (takeWhile (\<lambda>c. c \<noteq> CHR ''-'') f, tl (dropWhile (\<lambda>c. c \<noteq> CHR ''-'') f))
                 else (f, f))"

definition lenient_range :: "string \<Rightarrow> (int64 \<times> int64) option" where
  "lenient_range f =
     (let (lo, hi) = cut_dash f
      in case (parse_int lo, parse_int hi) of
           (Some a, Some b) \<Rightarrow> if a \<le> 0 \<or> b < a then None else Some (a, b)
         | _ \<Rightarrow> None)"

fun lenient_fields :: "string \<Rightarrow> string \<Rightarrow> GTIDSet \<Rightarrow> string list \<Rightarrow> GTIDSet option" where
  "lenient_fields uuid k out [] = Some out"
| "lenient_fields uuid k out (f # fs) =
     (if f = [] then lenient_fields uuid k out fs
      else if \<not> is_digit (hd f)
      then lenient_fields uuid (uuid @ CHR '':'' # to_lower f) out fs
      else case lenient_range f of
             None \<Rightarrow> None
           | Some (a, b) \<Rightarrow> lenient_fields uuid k (Add out k a b) fs)"

fun lenient_parts :: "GTIDSet \<Rightarrow> string list \<Rightarrow> GTIDSet option" where
  "lenient_parts out [] = Some out"
| "lenient_parts out (p # ps) =
     (if p = [] then lenient_parts out ps
      else
        (let fields = split_on CHR '':'' p
         in if length fields < 2 \<or> \<not> looksUUID (hd fields) then None
            else case lenient_fields (to_lower (hd fields)) (to_lower (hd fields)) out (tl fields) of
                   None \<Rightarrow> None
                 | Some out' \<Rightarrow> lenient_parts out' ps))"

definition ParseGTIDSetLenient :: "string \<Rightarrow> GTIDSet option" where
  "ParseGTIDSetLenient text =
     (let text = drop_space text
      in if text = [] then None
         else case lenient_parts [] (split_on CHR '','' text) of
                None \<Rightarrow> None
              | Some out \<Rightarrow> if out \<noteq> [] then Some out else None)"

definition parseGTIDRange :: "string \<Rightarrow> (int64 \<times> int64) option" where
  "parseGTIDRange f =
     (let (lo, hi) = (if f \<noteq> [] \<and> hd f \<noteq> CHR ''-'' then cut_dash f else (f, f))
      in case (parse_int lo, parse_int hi) of (Some a, Some b) \<Rightarrow> Some (a, b) | _ \<Rightarrow> None)"

fun strict_fields :: "string \<Rightarrow> string \<Rightarrow> GTIDSet \<Rightarrow> string list \<Rightarrow> GTIDSet" where
  "strict_fields uuid k out [] = out"
| "strict_fields uuid k out (f # fs) =
     (case parseGTIDRange f of
        None \<Rightarrow> strict_fields uuid (uuid @ CHR '':'' # f) out fs
      | Some (a, b) \<Rightarrow> strict_fields uuid k (Add out k a b) fs)"

definition strict_item :: "GTIDSet \<Rightarrow> string \<Rightarrow> GTIDSet" where
  "strict_item out item =
     (let item = trim_space item
      in if item = [] then out
         else (let fields = split_on CHR '':'' item
               in strict_fields (to_lower (hd fields)) (to_lower (hd fields)) out (tl fields)))"

text \<open>The result is \<open>Inl\<close> the error of go-mysql or \<open>Inr\<close> the set.\<close>

definition ParseGTIDSet :: "(string \<Rightarrow> 'err + string) \<Rightarrow> string \<Rightarrow> 'err + GTIDSet" where
  "ParseGTIDSet gomysql text =
     (let text = trim_space text
      in if text = [] then Inr []
         else case gomysql text of
                Inl err \<Rightarrow> Inl err
              | Inr canonical_text \<Rightarrow>
                  Inr (foldl strict_item []
                    (split_on CHR '','' (filter (\<lambda>c. c \<noteq> CHR 0x0A) canonical_text))))"

section \<open>Reading back the printed text\<close>

definition key_ok :: "string \<Rightarrow> bool" where
  "key_ok k \<longleftrightarrow> (\<exists>uuid. looksUUID uuid \<and> to_lower uuid = uuid \<and>
     (k = uuid \<or> (\<exists>tag. k = uuid @ CHR '':'' # tag \<and> tag \<noteq> [] \<and> \<not> is_digit (hd tag)
        \<and> to_lower tag = tag \<and> (\<forall>c \<in> set tag. c \<noteq> CHR '':'' \<and> c \<noteq> CHR '','' \<and> \<not> is_space c))))"

lemma hex_plain: "is_hex c \<Longrightarrow> c \<noteq> CHR '':'' \<and> c \<noteq> CHR '','' \<and> \<not> is_space c"
  by (auto simp: is_hex_def is_digit_def is_space_def less_eq_char_def)

lemma uuid_plain: "looksUUID u \<Longrightarrow> \<forall>c \<in> set u. c \<noteq> CHR '':'' \<and> c \<noteq> CHR '','' \<and> \<not> is_space c"
proof
  fix c assume u: "looksUUID u" and "c \<in> set u"
  then obtain i where i: "i < 36" "c = u ! i" by (auto simp: looksUUID_def in_set_conv_nth)
  then have "if i \<in> {8, 13, 18, 23} then c = CHR ''-'' else is_hex c"
    using u by (simp add: looksUUID_def list_all_iff)
  then show "c \<noteq> CHR '':'' \<and> c \<noteq> CHR '','' \<and> \<not> is_space c"
    using hex_plain [of c] by (auto simp: is_space_def split: if_splits)
qed

lemma digits_plain: "list_all is_digit ds \<Longrightarrow>
  \<forall>c \<in> set ds. c \<noteq> CHR ''-'' \<and> c \<noteq> CHR '':'' \<and> c \<noteq> CHR '','' \<and> \<not> is_space c"
  using digit_not_sign by (auto simp: list_all_iff)

lemma format_plain: "0 \<le> n \<Longrightarrow>
  \<forall>c \<in> set (format_int n). c \<noteq> CHR ''-'' \<and> c \<noteq> CHR '':'' \<and> c \<noteq> CHR '','' \<and> \<not> is_space c"
  using format_int_digits [of n] digits_plain by blast

lemma range_string_plain: "range_ok iv \<Longrightarrow>
  \<forall>c \<in> set (range_string iv). c \<noteq> CHR '':'' \<and> c \<noteq> CHR '','' \<and> \<not> is_space c"
  using format_plain [of "gLo iv"] format_plain [of "gHi iv"]
  by (auto simp: range_string_def range_ok_def is_space_def)

lemma cut_dash_free: "CHR ''-'' \<notin> set f \<Longrightarrow> cut_dash f = (f, f)"
  by (simp add: cut_dash_def)

lemma cut_dash_at: "CHR ''-'' \<notin> set a \<Longrightarrow> cut_dash (a @ CHR ''-'' # b) = (a, b)"
  by (auto simp: cut_dash_def takeWhile_append dropWhile_append)

lemma lenient_range_string:
  assumes "range_ok iv"
  shows "lenient_range (range_string iv) = Some (gLo iv, gHi iv)"
    and "range_string iv \<noteq> []" and "is_digit (hd (range_string iv))"
proof -
  have b: "0 \<le> gLo iv" "0 \<le> gHi iv" "gLo iv \<le> max_int64" "gHi iv \<le> max_int64"
    using assms by (auto simp: range_ok_def)
  note f = format_int_digits [OF b(1)] format_plain [OF b(1)]
  then have nd: "CHR ''-'' \<notin> set (format_int (gLo iv))" by blast
  show "lenient_range (range_string iv) = Some (gLo iv, gHi iv)"
    using assms b parse_format [of "gLo iv"] parse_format [of "gHi iv"]
    by (auto simp: lenient_range_def range_string_def cut_dash_free [OF nd] cut_dash_at [OF nd]
        range_ok_def)
  show "range_string iv \<noteq> []" "is_digit (hd (range_string iv))"
    using f by (auto simp: range_string_def list_all_iff hd_append)
qed

lemma lenient_fields_ranges:
  "list_all range_ok rs \<Longrightarrow> lenient_fields u k out (map range_string rs) = Some (add_list k out rs)"
  by (induction rs arbitrary: out) (auto simp: lenient_range_string add_list_def)

lemma concat_join: "p @ concat (map (\<lambda>x. c # f x) xs) = join_with c (p # map f xs)"
proof (induction xs arbitrary: p)
  case (Cons a xs)
  show ?case using Cons.IH [of "f a"] by simp
qed simp

lemma join_cons: "ps \<noteq> [] \<Longrightarrow> join_with c (p # ps) = p @ c # join_with c ps"
  by (cases ps) auto

lemma key_string_fields:
  assumes "key_ok k" and "canon (lookup s k)" and "lookup s k \<noteq> []"
  obtains uuid fs where "split_on CHR '':'' (key_string s k) = uuid # fs" "looksUUID uuid" "fs \<noteq> []"
    "to_lower uuid = uuid"
    "\<And>out. lenient_fields uuid uuid out fs = Some (add_list k out (lookup s k))"
    "\<forall>c \<in> set (key_string s k). c \<noteq> CHR '','' \<and> \<not> is_space c" "k \<noteq> ''''"
proof -
  let ?rs = "lookup s k"
  have ok: "list_all range_ok ?rs" using assms(2) by (simp add: canon_def)
  have plain: "\<forall>p \<in> set (map range_string ?rs). \<forall>c \<in> set p. c \<noteq> CHR '':'' \<and> c \<noteq> CHR '','' \<and> \<not> is_space c"
    using ok range_string_plain by (auto simp: list_all_iff)
  have ks: "key_string s k = join_with CHR '':'' (k # map range_string ?rs)"
    by (simp add: key_string_def concat_join)
  obtain uuid where u: "looksUUID uuid" "to_lower uuid = uuid"
    and cases: "k = uuid \<or> (\<exists>tag. k = uuid @ CHR '':'' # tag \<and> tag \<noteq> [] \<and> \<not> is_digit (hd tag)
        \<and> to_lower tag = tag \<and> (\<forall>c \<in> set tag. c \<noteq> CHR '':'' \<and> c \<noteq> CHR '','' \<and> \<not> is_space c))"
    using assms(1) by (auto simp: key_ok_def)
  note up = uuid_plain [OF u(1)]
  obtain pre where k: "k = join_with CHR '':'' (uuid # pre)"
    and pre: "pre = [] \<or> (\<exists>tag. pre = [tag] \<and> k = uuid @ CHR '':'' # tag \<and> tag \<noteq> []
      \<and> \<not> is_digit (hd tag) \<and> to_lower tag = tag)"
    and pp: "\<forall>p \<in> set pre. \<forall>c \<in> set p. c \<noteq> CHR '':'' \<and> c \<noteq> CHR '','' \<and> \<not> is_space c"
    using cases
  proof (elim disjE exE conjE)
    assume "k = uuid"
    then show thesis using that [of "[]"] by simp
  next
    fix tag assume "k = uuid @ CHR '':'' # tag" "tag \<noteq> []" "\<not> is_digit (hd tag)" "to_lower tag = tag"
      "\<forall>c \<in> set tag. c \<noteq> CHR '':'' \<and> c \<noteq> CHR '','' \<and> \<not> is_space c"
    then show thesis using that [of "[tag]"] by simp
  qed
  have j: "key_string s k = join_with CHR '':'' (uuid # pre @ map range_string ?rs)"
    unfolding ks using pre k assms(3) by (auto simp: join_cons)
  have all: "\<forall>p \<in> set (uuid # pre @ map range_string ?rs). \<forall>c \<in> set p.
      c \<noteq> CHR '':'' \<and> c \<noteq> CHR '','' \<and> \<not> is_space c" using up pp plain by auto
  then have "\<forall>p \<in> set (uuid # pre @ map range_string ?rs). CHR '':'' \<notin> set p" by blast
  then have "split_on CHR '':'' (key_string s k) = uuid # pre @ map range_string ?rs"
    unfolding j by (intro split_join) simp_all
  moreover have "lenient_fields uuid uuid out (pre @ map range_string ?rs) = Some (add_list k out ?rs)" for out
    using pre k lenient_fields_ranges [OF ok] by auto
  moreover have "\<forall>c \<in> set (key_string s k). c \<noteq> CHR '','' \<and> \<not> is_space c"
  proof
    fix c assume "c \<in> set (key_string s k)"
    then have "c = CHR '':'' \<or> (\<exists>p \<in> set (uuid # pre @ map range_string ?rs). c \<in> set p)"
      using set_join [of "CHR '':''" "uuid # pre @ map range_string ?rs"] unfolding j by blast
    then show "c \<noteq> CHR '','' \<and> \<not> is_space c"
    proof
      assume "c = CHR '':''" then show ?thesis by (simp add: is_space_def)
    qed (use all in blast)
  qed
  moreover have "k \<noteq> ''''" using k u(1) by (cases pre) (auto simp: looksUUID_def)
  ultimately show thesis using that u assms(3) by simp
qed

definition add_keys :: "GTIDSet \<Rightarrow> GTIDSet \<Rightarrow> string list \<Rightarrow> GTIDSet" where
  "add_keys s out ks = foldl (\<lambda>out k. add_list k out (lookup s k)) out ks"

lemma lenient_parts_keys:
  assumes "canonical s"
  shows "\<forall>k \<in> set ks. key_ok k \<and> lookup s k \<noteq> [] \<Longrightarrow>
    lenient_parts out (map (key_string s) ks) = Some (add_keys s out ks)"
proof (induction ks arbitrary: out)
  case (Cons k ks)
  obtain uuid fs where f: "split_on CHR '':'' (key_string s k) = uuid # fs" "looksUUID uuid" "fs \<noteq> []"
    "to_lower uuid = uuid" "\<And>out. lenient_fields uuid uuid out fs = Some (add_list k out (lookup s k))"
    "k \<noteq> ''''"
    using key_string_fields [OF _ canonical_lookup [OF assms], of k] Cons.prems by (metis list.set_intros(1))
  have "key_string s k \<noteq> []" using f(6) by (simp add: key_string_def)
  then show ?case using f Cons by (cases fs) (simp_all add: add_keys_def)
qed (simp add: add_keys_def)

lemma add_keys_ok:
  assumes "canonical s"
  shows "canonical out \<Longrightarrow> \<forall>k \<in> set ks. k \<noteq> '''' \<Longrightarrow> canonical (add_keys s out ks)
    \<and> gtids (add_keys s out ks) = gtids out \<union> {(k, n) \<in> gtids s. k \<in> set ks}"
proof (induction ks arbitrary: out)
  case (Cons k ks)
  have "list_all range_ok (lookup s k)" using canonical_lookup [OF assms] by (simp add: canon_def)
  note a = add_list_ok [OF Cons.prems(1) this, of k]
  have "{k} \<times> range_set (lookup s k) = {x \<in> gtids s. fst x = k}" by (rule gtids_at)
  then show ?case
    using a Cons.IH [of "add_list k out (lookup s k)"] Cons.prems(2) by (auto simp: add_keys_def)
qed (simp add: add_keys_def)

lemma lenient_print:
  assumes "canonical s" and "\<forall>x \<in> gtids s. key_ok (fst x)" and "\<not> IsEmpty s"
  shows "(\<exists>u. ParseGTIDSetLenient (String s) = Some u \<and> canonical u \<and> gtids u = gtids s)
    \<and> (\<forall>c \<in> set (String s). \<not> is_space c) \<and> String s \<noteq> []"
proof -
  define ks where "ks = sort (map fst (filter (\<lambda>x. snd x \<noteq> []) s))"
  have ks: "k \<in> set ks \<longleftrightarrow> lookup s k \<noteq> []" for k
  proof -
    have "k \<in> set ks \<longleftrightarrow> (\<exists>rs. (k, rs) \<in> set s \<and> rs \<noteq> [])"
      by (auto simp: ks_def image_iff intro: bexI [of _ "(k, _)"])
    also have "\<dots> \<longleftrightarrow> lookup s k \<noteq> []"
    proof -
      have "(k, rs) \<in> set s \<longleftrightarrow> map_of s k = Some rs" for rs
        using assms(1) by (intro map_of_in_set) (simp add: canonical_def)
      then show ?thesis by (simp add: lookup_def split: option.split)
    qed
    finally show ?thesis .
  qed
  have kok: "\<forall>k \<in> set ks. key_ok k \<and> lookup s k \<noteq> []"
  proof
    fix k assume k: "k \<in> set ks"
    then obtain r rs where r: "lookup s k = r # rs" using ks by (cases "lookup s k") auto
    then have "(k, gLo r) \<in> gtids s"
      using canonical_lookup [OF assms(1), of k] by (auto simp: gtids_def range_ok_def)
    then show "key_ok k \<and> lookup s k \<noteq> []" using assms(2) r by force
  qed
  have ne: "\<forall>k \<in> set ks. k \<noteq> ''''"
    using assms(1) by (auto simp: ks_def canonical_def list_all_iff)
  obtain x where "x \<in> set s" "snd x \<noteq> []" using assms(3) by (auto simp: IsEmpty_def list_all_iff)
  then have "fst x \<in> set ks" by (auto simp: ks_def)
  then have "ks \<noteq> []" by auto
  have plain: "\<forall>c \<in> set (key_string s k). c \<noteq> CHR '','' \<and> \<not> is_space c" if "k \<in> set ks" for k
    using key_string_fields [of k s] kok that canonical_lookup [OF assms(1)] by metis
  have str: "String s = join_with CHR '','' (map (key_string s) ks)" by (simp add: String_def ks_def)
  have plain_text: "\<forall>c \<in> set (String s). \<not> is_space c"
  proof
    fix c assume "c \<in> set (String s)"
    then have "c = CHR '','' \<or> (\<exists>k \<in> set ks. c \<in> set (key_string s k))"
      using set_join [of "CHR '',''" "map (key_string s) ks"] unfolding str by auto
    then show "\<not> is_space c" using plain by (auto simp: is_space_def)
  qed
  then have nospace: "drop_space (String s) = String s" by (rule drop_space_id)
  have "split_on CHR '','' (String s) = map (key_string s) ks"
    unfolding str using plain \<open>ks \<noteq> []\<close> by (intro split_join) auto
  then have parts: "lenient_parts [] (split_on CHR '','' (String s)) = Some (add_keys s [] ks)"
    using lenient_parts_keys [OF assms(1) kok] by simp
  have "k \<in> set ks" if "(k, n) \<in> gtids s" for k n
    using that unfolding ks by (auto simp: gtids_def)
  then have "{(k, n) \<in> gtids s. k \<in> set ks} = gtids s" by blast
  then have u: "canonical (add_keys s [] ks) \<and> gtids (add_keys s [] ks) = gtids s"
    using add_keys_ok [OF assms(1) canonical_Nil(1) ne] by simp
  then have "add_keys s [] ks \<noteq> []" using assms(3) IsEmpty_ok [OF assms(1)] by auto
  moreover have "String s \<noteq> []"
  proof
    assume "String s = []"
    then have "map (key_string s) ks = [[]]" using \<open>split_on CHR '','' (String s) = map (key_string s) ks\<close> by simp
    then show False using ne by (cases ks) (auto simp: key_string_def)
  qed
  ultimately show ?thesis
    using parts u plain_text by (simp add: ParseGTIDSetLenient_def nospace Let_def)
qed

lemma lenient_String:
  assumes "canonical s" and "\<forall>k \<in> fst ` set s. key_ok k" and "\<not> IsEmpty s"
  shows "\<exists>u. ParseGTIDSetLenient (String s) = Some u \<and> canonical u \<and> gtids u = gtids s"
proof -
  have "k \<in> fst ` set s" if "(k, n) \<in> gtids s" for k n
    using that map_of_SomeD [of s k] by (force simp: gtids_def lookup_def split: option.splits)
  then show ?thesis using lenient_print [OF assms(1) _ assms(3)] assms(2) by force
qed

end
