(* ===== verification/Gtid_Props.thy ===== *)
theory Gtid_Props
  imports Gtid_Text
begin

text \<open>
  The properties of the GTID sets. Every range end is below the largest \<open>int64\<close>; the last
  section shows what the sources do at that value, which no GTID of MySQL reaches.
\<close>

definition demo_set :: GTIDSet where
  "demo_set = [(''a'', [GTIDRange 1 5, GTIDRange 8 9]), (''b'', [GTIDRange 3 3])]"

definition demo_cut :: GTIDSet where
  "demo_cut = [(''a'', [GTIDRange 4 8])]"

lemma demo_canonical: "canonical demo_set" "canonical demo_cut"
  by (simp_all add: demo_set_def demo_cut_def canonical_def range_ok_def apart_def max_int64_def)

text \<open>\<open>Add\<close> is union with one interval: it keeps the intervals sorted, merged and apart, adds
  exactly the sequences of the interval under the key, and ignores an empty key, a start below one
  and an empty interval.\<close>

lemma Add_refines_union:
  assumes "canonical s" and "hi < max_int64"
  shows "canonical (Add s k lo hi)
    \<and> gtids (Add s k lo hi) = gtids s \<union> (if k = '''' \<or> lo \<le> 0 then {} else {k} \<times> {lo..hi})"
  using Add_ok [OF assms] by simp

text \<open>C28. \<open>AddAll\<close> is union and \<open>Minus\<close> is difference, on the transactions the sets stand for, and
  both results are canonical again.\<close>

theorem AddAll_Minus_refine_sets:
  assumes "canonical s" and "canonical u"
  shows "canonical (AddAll s u) \<and> gtids (AddAll s u) = gtids s \<union> gtids u
    \<and> canonical (Minus s u) \<and> gtids (Minus s u) = gtids s - gtids u"
  using gs.union [OF assms] gs.minus_set [OF assms] by simp

theorem AddAll_Minus_refine_sets_witness:
  "gtids (Minus demo_set demo_cut) = gtids demo_set - gtids demo_cut
   \<and> Minus demo_set demo_cut = [(''a'', [GTIDRange 1 3, GTIDRange 9 9]), (''b'', [GTIDRange 3 3])]"
proof -
  have "Minus demo_set demo_cut = [(''a'', [GTIDRange 1 3, GTIDRange 9 9]), (''b'', [GTIDRange 3 3])]"
    by code_simp
  then show ?thesis using AddAll_Minus_refine_sets [OF demo_canonical] by simp
qed

text \<open>C29. The binary searches decide membership and inclusion: \<open>Has\<close> answers whether a transaction
  is in the set, \<open>Contains\<close> whether every transaction of the other set is, and \<open>IsEmpty\<close> whether
  there is none; a set contains another exactly when nothing is left after subtracting it.\<close>

theorem search_decides_membership:
  assumes "canonical s" and "canonical u"
  shows "(Has s k n \<longleftrightarrow> (k, n) \<in> gtids s) \<and> (Contains s u \<longleftrightarrow> gtids u \<subseteq> gtids s)
    \<and> (IsEmpty s \<longleftrightarrow> gtids s = {}) \<and> (Contains s u \<longleftrightarrow> IsEmpty (Minus u s))"
  using gs.has [OF assms(1)] gs.contains [OF assms] gs.is_empty [OF assms(1)]
    gs.contains_iff_no_rest [OF assms] by simp

theorem search_decides_membership_witness:
  "\<not> Contains demo_set demo_cut \<and> \<not> gtids demo_cut \<subseteq> gtids demo_set"
proof -
  have "\<not> Contains demo_set demo_cut" by code_simp
  then show ?thesis using search_decides_membership [OF demo_canonical] by simp
qed

text \<open>A canonical set has one representation: two canonical sets with the same transactions hold
  the same interval list under every key, so the order in which a Go map is walked, and the order in
  which intervals were added, cannot be seen in the result.\<close>

lemma canonical_representation_unique:
  assumes "canonical s" and "canonical u" and "gtids s = gtids u"
  shows "lookup s k = lookup u k"
proof (rule canon_unique)
  show "canon (lookup s k)" "canon (lookup u k)" using assms by (simp_all add: canonical_lookup)
  have "n \<in> range_set (lookup s k) \<longleftrightarrow> n \<in> range_set (lookup u k)" for n
    using assms(3) by (auto simp: gtids_def set_eq_iff)
  then show "range_set (lookup s k) = range_set (lookup u k)" by blast
qed


text \<open>\<open>InteriorGaps\<close> lists exactly the missing sequences that have a stored sequence of the same
  key below them and one above them; history before the first stored sequence is not a gap.\<close>

lemma InteriorGaps_exact:
  assumes "canonical s"
  shows "canonical (InteriorGaps s) \<and> gtids (InteriorGaps s) =
    {(k, n). (k, n) \<notin> gtids s \<and> (\<exists>a < n. (k, a) \<in> gtids s) \<and> (\<exists>b > n. (k, b) \<in> gtids s)}"
  using InteriorGaps_ok [OF assms] by (auto simp: interior_def)

section \<open>Text\<close>

text \<open>C31. Printing and reading back a set gives the same transactions: for a canonical set with a
  transaction, whose keys are lower case uuids with an optional tag, the lenient reader accepts the
  text of \<open>String\<close> and returns a canonical set with exactly the transactions of the first.\<close>

theorem String_parse_roundtrip:
  assumes "canonical s" and "\<forall>k \<in> fst ` set s. key_ok k" and "\<not> IsEmpty s"
  shows "\<exists>u. ParseGTIDSetLenient (String s) = Some u \<and> canonical u \<and> gtids u = gtids s"
  by (rule lenient_String [OF assms])

definition demo_uuid :: string where
  "demo_uuid = ''3e11fa47-71ca-11e1-9e33-c80aa9429562''"

definition demo_text :: GTIDSet where
  "demo_text = [(demo_uuid @ '':ops'', [GTIDRange 7 7]), (demo_uuid, [GTIDRange 1 5, GTIDRange 8 19])]"

theorem String_parse_roundtrip_witness:
  "String demo_text =
     ''3e11fa47-71ca-11e1-9e33-c80aa9429562:1-5:8-19,3e11fa47-71ca-11e1-9e33-c80aa9429562:ops:7''
   \<and> (\<exists>u. ParseGTIDSetLenient (String demo_text) = Some u \<and> canonical u \<and> gtids u = gtids demo_text)"
proof
  show "String demo_text =
     ''3e11fa47-71ca-11e1-9e33-c80aa9429562:1-5:8-19,3e11fa47-71ca-11e1-9e33-c80aa9429562:ops:7''"
    by code_simp
  have uuid: "looksUUID demo_uuid" "to_lower demo_uuid = demo_uuid" "to_lower ''ops'' = ''ops''"
    by code_simp+
  have "\<forall>c \<in> set ''ops''. c \<noteq> CHR '':'' \<and> c \<noteq> CHR '','' \<and> \<not> is_space c" "\<not> is_digit (hd ''ops'')"
    by code_simp+
  then have "key_ok demo_uuid" "key_ok (demo_uuid @ CHR '':'' # ''ops'')"
    using uuid unfolding key_ok_def by blast+
  then have "\<forall>k \<in> fst ` set demo_text. key_ok k" by (simp add: demo_text_def)
  moreover have "canonical demo_text" "\<not> IsEmpty demo_text"
    by (simp_all add: demo_text_def demo_uuid_def canonical_def range_ok_def apart_def max_int64_def IsEmpty_def)
  ultimately show "\<exists>u. ParseGTIDSetLenient (String demo_text) = Some u \<and> canonical u \<and> gtids u = gtids demo_text"
    by (intro String_parse_roundtrip)
qed

section \<open>At the largest sequence\<close>

text \<open>At the largest \<open>int64\<close> the end of an interval plus one wraps to the smallest, so the test
  whether a new interval touches the last one succeeds wrongly: adding 5 to a set that already
  holds every sequence from 1 appends a second interval inside the first, and the set is no longer
  sorted and merged.\<close>

lemma Add_wraps_at_max:
  "Add (Add [] ''a'' 1 max_int64) ''a'' 5 5 = [(''a'', [GTIDRange 1 max_int64, GTIDRange 5 5])]"
  by (simp add: Add_def add_range_def lookup_def wrap64_def max_int64_def)

end
