(* ===== verification/Bin_Scan.thy ===== *)
theory Bin_Scan
  imports Gtid_Text "HOL-Library.Word"
begin

text \<open>
  The byte-level readers of a binlog segment: \<open>internal/binlog/gtid_set_scan.go\<close> (the MySQL GTID
  events of a segment), \<open>internal/binlog/cover_scan.go\<close> (every event with its offsets, time and
  GTID) and \<open>internal/binlog/event_time.go\<close> (the time span), with \<open>formatSID\<close> of
  \<open>internal/binlog/gtid_pos.go\<close>.

  A reader is the bytes it still yields, the error it answers after them (\<open>None\<close> is a plain end of
  file) and whether it can say how many bytes are left. What the sources take from go-mysql, the
  event type codes and the decoders of event bodies, is the parameter \<open>goreplication\<close>; the sizes
  of the event header, the checksum trailer and the server id are those of the binlog format.
  A Go result \<open>(value, error)\<close> is a pair whose second part is an optional error.
\<close>

section \<open>Readers\<close>

type_synonym byte = "8 word"

record Reader =
  rBytes :: "byte list"
  rFail :: "string option"
  rSized :: bool

datatype read_result = Full "byte list" Reader | EOF | UnexpectedEOF nat | Failed string

definition ReadFull :: "Reader \<Rightarrow> nat \<Rightarrow> read_result" where
  "ReadFull r n =
     (let bs = rBytes r
      in if n \<le> length bs then Full (take n bs) (r\<lparr>rBytes := drop n bs\<rparr>)
         else case rFail r of
                Some e \<Rightarrow> Failed e
              | None \<Rightarrow> if bs = [] then EOF else UnexpectedEOF (length bs))"

definition readerRemaining :: "Reader \<Rightarrow> int64" where
  "readerRemaining r = (if rSized r then int (length (rBytes r)) else - 1)"

primrec little_endian :: "byte list \<Rightarrow> int" where
  "little_endian [] = 0"
| "little_endian (b # bs) = uint b + 256 * little_endian bs"

definition slice :: "nat \<Rightarrow> nat \<Rightarrow> 'a list \<Rightarrow> 'a list" where
  "slice i j xs = take (j - i) (drop i xs)"

lemma little_endian_nonneg [simp]: "0 \<le> little_endian bs"
  by (induction bs) auto

lemma ReadFull_Full:
  "ReadFull r n = Full b r' \<longleftrightarrow> n \<le> length (rBytes r) \<and> b = take n (rBytes r) \<and> r' = r\<lparr>rBytes := drop n (rBytes r)\<rparr>"
  by (auto simp: ReadFull_def Let_def split: option.splits)

section \<open>Sizes and decoders\<close>

definition EventHeaderSize :: nat where "EventHeaderSize = 19"
definition BinlogChecksumLength :: nat where "BinlogChecksumLength = 4"
definition SidLength :: nat where "SidLength = 16"

record goreplication =
  FORMAT_DESCRIPTION_EVENT :: byte
  PREVIOUS_GTIDS_EVENT :: byte
  GTID_EVENT :: byte
  ROTATE_EVENT :: byte
  CHECKSUM_ALG_CRC32 :: byte
  decodeFormat :: "byte list \<Rightarrow> byte option"
  decodePrevious :: "byte list \<Rightarrow> string option"
  decodeRotate :: "byte list \<Rightarrow> string option"

definition durableMagic :: "byte list" where
  "durableMagic = [0xfe, 0x62, 0x69, 0x6e]"

definition maxEventBody :: int where
  "maxEventBody = 1073741824"

datatype scan_error =
    ErrCorruptEventSize
  | ErrSegmentTruncated string
  | ErrEventChecksum int
  | ErrPreviousGTIDs
  | ErrRead string

definition is_corrupt :: "scan_error \<Rightarrow> bool" where
  "is_corrupt e = (case e of ErrCorruptEventSize \<Rightarrow> True | ErrSegmentTruncated _ \<Rightarrow> True
                    | ErrEventChecksum _ \<Rightarrow> True | _ \<Rightarrow> False)"

definition UnreadableReason :: "scan_error \<Rightarrow> string" where
  "UnreadableReason e =
     (case e of ErrSegmentTruncated what \<Rightarrow> ''sealed segment is cut short: '' @ what
      | _ \<Rightarrow> ''corrupt binlog event size'')"

definition eventBodyBytes :: "int \<Rightarrow> int64 \<Rightarrow> bool \<Rightarrow> scan_error + int" where
  "eventBodyBytes eventSize remaining sealed =
     (let hdr = int EventHeaderSize;
          rest = eventSize - hdr
      in if eventSize < hdr then Inr (- 1)
         else if rest > maxEventBody then Inl ErrCorruptEventSize
         else if remaining \<ge> 0 \<and> rest > remaining then
           (if sealed then Inl ErrCorruptEventSize else Inr (- 1))
         else Inr rest)"

text \<open>The CRC32 of \<open>hash/crc32\<close> with the IEEE polynomial, bit by bit.\<close>

fun crc_bits :: "nat \<Rightarrow> 32 word \<Rightarrow> 32 word" where
  "crc_bits 0 c = c"
| "crc_bits (Suc n) c =
     crc_bits n (if bit c 0 then xor (drop_bit 1 c) 0xEDB88320 else drop_bit 1 c)"

definition crc_byte :: "32 word \<Rightarrow> byte \<Rightarrow> 32 word" where
  "crc_byte c b = crc_bits 8 (xor c (ucast b))"

definition crc_update :: "32 word \<Rightarrow> byte list \<Rightarrow> 32 word" where
  "crc_update c bs = not (foldl crc_byte (not c) bs)"

definition eventCRCOK :: "byte list \<Rightarrow> byte list \<Rightarrow> bool" where
  "eventCRCOK hdr body =
     (if length body < BinlogChecksumLength then False
      else (let n = length body - BinlogChecksumLength;
                sum = crc_update (crc_update 0 hdr) (take n body)
            in uint sum = little_endian (drop n body)))"

definition fdChecksum :: "goreplication \<Rightarrow> byte list \<Rightarrow> bool" where
  "fdChecksum g body =
     (if length body < 57 then False
      else case decodeFormat g body of
             None \<Rightarrow> False
           | Some alg \<Rightarrow> alg = CHECKSUM_ALG_CRC32 g)"

definition decodePreviousGTIDs :: "goreplication \<Rightarrow> byte list \<Rightarrow> bool \<Rightarrow> string option" where
  "decodePreviousGTIDs g body crc32 =
     (case (if crc32 then None else decodePrevious g body) of
        Some text \<Rightarrow> Some text
      | None \<Rightarrow>
         (case (if length body \<ge> BinlogChecksumLength
                then decodePrevious g (take (length body - BinlogChecksumLength) body) else None) of
            Some text \<Rightarrow> Some text
          | None \<Rightarrow> if crc32 then None else decodePrevious g body))"

definition hex_digit :: "nat \<Rightarrow> char" where
  "hex_digit d = ''0123456789abcdef'' ! d"

definition hex_encode :: "byte list \<Rightarrow> string" where
  "hex_encode bs = concat (map (\<lambda>b. [hex_digit (nat (uint b div 16)), hex_digit (nat (uint b mod 16))]) bs)"

definition formatSID :: "byte list \<Rightarrow> string" where
  "formatSID raw =
     (let h = hex_encode raw
      in if length h \<noteq> 32 then ''''
         else slice 0 8 h @ ''-'' @ slice 8 12 h @ ''-'' @ slice 12 16 h @ ''-'' @ slice 16 20 h @ ''-'' @ slice 20 32 h)"

text \<open>\<open>time.Unix\<close>, in nanoseconds since the zero time.\<close>

definition unix_time :: "int \<Rightarrow> instant" where
  "unix_time ts = (ts + 62135596800) * second"

definition gtidEventRef :: "byte list \<Rightarrow> int \<Rightarrow> byte list \<Rightarrow> GTIDEventRef option" where
  "gtidEventRef body offset hdr =
     (let need = 1 + SidLength + 8;
          seq = wrap64 (little_endian (slice (1 + SidLength) need body));
          uuid = formatSID (slice 1 (1 + SidLength) body)
      in if length body < need then None
         else if seq \<le> 0 then None
         else if uuid = '''' then None
         else Some \<lparr>evUUID = uuid, evSeq = seq, evOffset = offset,
                    evWhen = unix_time (little_endian (slice 0 4 hdr))\<rparr>)"

section \<open>One event\<close>

text \<open>Both scans read an event the same way: the header, the size and its bounds, the body, the
  checksum of a sealed segment. \<open>Done\<close> is a return with what was read so far, \<open>Fail\<close> a return of the
  zero value with an error, \<open>FailKeep\<close> the error of \<open>eventBodyBytes\<close>, which the GTID scan returns
  beside what it read.\<close>

datatype next_event =
    Done
  | Fail scan_error
  | FailKeep scan_error
  | Event "byte list" "byte list" int Reader int64

definition read_body :: "Reader \<Rightarrow> int \<Rightarrow> (byte list \<times> Reader) option" where
  "read_body r rest =
     (if rest > 0 then (case ReadFull r (nat rest) of Full body r' \<Rightarrow> Some (body, r') | _ \<Rightarrow> None)
      else Some ([], r))"

definition crc_bad :: "goreplication \<Rightarrow> bool \<Rightarrow> bool \<Rightarrow> byte list \<Rightarrow> byte list \<Rightarrow> bool" where
  "crc_bad g sealed hasCRC hdr body \<longleftrightarrow>
     sealed \<and> (hasCRC \<or> (hdr ! 4 = FORMAT_DESCRIPTION_EVENT g \<and> fdChecksum g body)) \<and> \<not> eventCRCOK hdr body"

definition read_event :: "goreplication \<Rightarrow> Reader \<Rightarrow> int64 \<Rightarrow> bool \<Rightarrow> int \<Rightarrow> bool \<Rightarrow> next_event" where
  "read_event g r remaining sealed offset hasCRC =
     (case ReadFull r EventHeaderSize of
        UnexpectedEOF n \<Rightarrow>
          if sealed then Fail (ErrSegmentTruncated (''it ends inside an event header at offset '' @ format_int offset))
          else Done
      | EOF \<Rightarrow> Done
      | Failed e \<Rightarrow> Fail (ErrRead e)
      | Full hdr r1 \<Rightarrow>
          (let remaining = (if remaining \<ge> 0 then remaining - int EventHeaderSize else remaining);
               eventSize = little_endian (slice 9 13 hdr)
           in if eventSize < int EventHeaderSize then (if sealed then Fail ErrCorruptEventSize else Done)
              else case eventBodyBytes eventSize remaining sealed of
                     Inl e \<Rightarrow> FailKeep e
                   | Inr rest \<Rightarrow>
                      if rest < 0 then Done
                      else (case read_body r1 rest of
                              None \<Rightarrow> if sealed then Fail ErrCorruptEventSize else Done
                            | Some (body, r2) \<Rightarrow>
                                (let remaining = (if remaining \<ge> 0 then remaining - rest else remaining)
                                 in if crc_bad g sealed hasCRC hdr body then Fail (ErrEventChecksum offset)
                                    else Event hdr body eventSize r2 remaining))))"

lemma read_event_Event:
  assumes "read_event g r remaining sealed offset hasCRC = Event hdr body esz r' remaining'"
  shows "rBytes r = hdr @ body @ rBytes r'" and "length hdr = EventHeaderSize"
    and "esz = int (length hdr + length body)" and "int (length body) \<le> maxEventBody"
    and "rFail r' = rFail r" and "rSized r' = rSized r"
    and "remaining = int (length (rBytes r)) \<Longrightarrow> remaining' = int (length (rBytes r'))"
proof -
  obtain r1 where r1: "ReadFull r EventHeaderSize = Full hdr r1"
    using assms by (auto simp: read_event_def Let_def split: read_result.splits sum.splits if_splits option.splits)
  define rem1 where "rem1 = (if remaining \<ge> 0 then remaining - int EventHeaderSize else remaining)"
  define sz where "sz = little_endian (slice 9 13 hdr)"
  have *: "\<not> sz < int EventHeaderSize" "\<exists>rest. eventBodyBytes sz rem1 sealed = Inr rest \<and> \<not> rest < 0
      \<and> read_body r1 rest = Some (body, r') \<and> remaining' = (if rem1 \<ge> 0 then rem1 - rest else rem1)"
    and sz: "esz = sz"
    using assms r1 by (auto simp: read_event_def Let_def sz_def rem1_def
        split: read_result.splits sum.splits if_splits option.splits)
  then obtain rest where rest: "eventBodyBytes sz rem1 sealed = Inr rest" "0 \<le> rest"
      "read_body r1 rest = Some (body, r')" and rem': "remaining' = (if rem1 \<ge> 0 then rem1 - rest else rem1)"
    by auto
  have h: "hdr = take EventHeaderSize (rBytes r)" "EventHeaderSize \<le> length (rBytes r)"
      "r1 = r\<lparr>rBytes := drop EventHeaderSize (rBytes r)\<rparr>"
    using r1 by (simp_all add: ReadFull_Full)
  have body: "body = take (nat rest) (rBytes r1)" "nat rest \<le> length (rBytes r1)"
      "r' = r1\<lparr>rBytes := drop (nat rest) (rBytes r1)\<rparr>"
    using rest(3,2) by (auto simp: read_body_def ReadFull_Full split: if_splits read_result.splits)
  have rs: "rest = sz - int EventHeaderSize" "rest \<le> maxEventBody"
    using rest(1,2) *(1) by (auto simp: eventBodyBytes_def Let_def split: if_splits)
  have "rBytes r1 = body @ rBytes r'" using body by simp
  moreover have "rBytes r = hdr @ rBytes r1" using h by simp
  ultimately show "rBytes r = hdr @ body @ rBytes r'" by simp
  show "length hdr = EventHeaderSize" using h by simp
  then show "esz = int (length hdr + length body)" "int (length body) \<le> maxEventBody"
    using sz rs rest(2) body(1,2) by simp_all
  show "rFail r' = rFail r" "rSized r' = rSized r" using h body by simp_all
  show "remaining' = int (length (rBytes r'))" if "remaining = int (length (rBytes r))"
    using that rem' h body rest(2) by (auto simp: rem1_def)
qed

section \<open>The GTID scan\<close>

record SegmentGTIDLog =
  lPrevious :: string
  lHasPrevious :: bool
  lEvents :: "GTIDEventRef list"

definition zero_log :: SegmentGTIDLog where
  "zero_log = \<lparr>lPrevious = '''', lHasPrevious = False, lEvents = []\<rparr>"

definition note_event :: "goreplication \<Rightarrow> byte list \<Rightarrow> byte list \<Rightarrow> int \<Rightarrow> bool \<Rightarrow> SegmentGTIDLog
    \<Rightarrow> (bool \<times> SegmentGTIDLog) option" where
  "note_event g hdr body offset hasCRC out =
     (let eventType = hdr ! 4
      in if eventType = FORMAT_DESCRIPTION_EVENT g then Some (hasCRC \<or> fdChecksum g body, out)
         else if eventType = PREVIOUS_GTIDS_EVENT g then
           (case decodePreviousGTIDs g body hasCRC of
              None \<Rightarrow> None
            | Some text \<Rightarrow> Some (hasCRC, out\<lparr>lHasPrevious := True, lPrevious := text\<rparr>))
         else if eventType = GTID_EVENT g then
           (case gtidEventRef body offset hdr of
              None \<Rightarrow> Some (hasCRC, out)
            | Some ref \<Rightarrow> Some (hasCRC, out\<lparr>lEvents := lEvents out @ [ref]\<rparr>))
         else Some (hasCRC, out))"

function gtid_loop :: "goreplication \<Rightarrow> Reader \<Rightarrow> int64 \<Rightarrow> bool \<Rightarrow> int \<Rightarrow> bool \<Rightarrow> SegmentGTIDLog
    \<Rightarrow> SegmentGTIDLog \<times> scan_error option" where
  "gtid_loop g r remaining sealed offset hasCRC out =
     (case read_event g r remaining sealed offset hasCRC of
        Done \<Rightarrow> (out, None)
      | Fail e \<Rightarrow> (zero_log, Some e)
      | FailKeep e \<Rightarrow> (out, Some e)
      | Event hdr body esz r' remaining' \<Rightarrow>
         (case note_event g hdr body offset hasCRC out of
            None \<Rightarrow> (zero_log, Some ErrPreviousGTIDs)
          | Some (hasCRC', out') \<Rightarrow> gtid_loop g r' remaining' sealed (offset + esz) hasCRC' out'))"
  by pat_completeness auto

lemma read_event_shorter:
  "read_event g r remaining sealed offset hasCRC = Event hdr body esz r' remaining' \<Longrightarrow>
   length (rBytes r') < length (rBytes r)"
  using read_event_Event(1,2) [of g r remaining sealed offset hasCRC hdr body esz r' remaining']
  by (simp add: EventHeaderSize_def)

termination gtid_loop
  by (relation "measure (\<lambda>(g, r, _). length (rBytes r))") (auto dest: read_event_shorter)

declare gtid_loop.simps [simp del]

definition scanSegmentGTIDsBounded :: "goreplication \<Rightarrow> Reader \<Rightarrow> int64 \<Rightarrow> bool \<Rightarrow> SegmentGTIDLog \<times> scan_error option" where
  "scanSegmentGTIDsBounded g r remaining sealed =
     (case ReadFull r 4 of
        EOF \<Rightarrow> if sealed then (zero_log, Some (ErrSegmentTruncated (''it holds 0 bytes, fewer than the binlog magic'')))
               else (zero_log, None)
      | UnexpectedEOF n \<Rightarrow>
          if sealed then (zero_log, Some (ErrSegmentTruncated
            (''it holds '' @ format_int (int n) @ '' bytes, fewer than the binlog magic'')))
          else (zero_log, None)
      | Failed e \<Rightarrow> (zero_log, Some (ErrRead e))
      | Full magic r1 \<Rightarrow>
          if magic \<noteq> durableMagic then (zero_log, None)
          else gtid_loop g r1 (if remaining \<ge> 0 then remaining - 4 else remaining) sealed 4 False zero_log)"

definition scanSegmentGTIDs :: "goreplication \<Rightarrow> Reader \<Rightarrow> SegmentGTIDLog \<times> scan_error option" where
  "scanSegmentGTIDs g r = scanSegmentGTIDsBounded g r (readerRemaining r) False"

section \<open>The coverage scan\<close>

record CoverEvent =
  cWhen :: instant
  cOffset :: int
  cEnd :: int
  cUUID :: string
  cSeq :: int64
  cCounts :: bool

record CoverScan =
  sEvents :: "CoverEvent list"
  sPrevious :: string
  sHasPrevious :: bool
  sEnd :: int

definition zero_scan :: CoverScan where
  "zero_scan = \<lparr>sEvents = [], sPrevious = '''', sHasPrevious = False, sEnd = 0\<rparr>"

definition spanEventCounts :: "goreplication \<Rightarrow> byte \<Rightarrow> bool" where
  "spanEventCounts g eventType \<longleftrightarrow> \<not> (eventType = FORMAT_DESCRIPTION_EVENT g \<or> eventType = PREVIOUS_GTIDS_EVENT g)"

definition cover_event :: "goreplication \<Rightarrow> int \<Rightarrow> int \<Rightarrow> byte list \<Rightarrow> CoverEvent" where
  "cover_event g offset esz hdr =
     (let ts = little_endian (slice 0 4 hdr)
      in \<lparr>cWhen = (if ts \<noteq> 0 then unix_time ts else 0), cOffset = offset, cEnd = offset + esz,
          cUUID = '''', cSeq = 0, cCounts = spanEventCounts g (hdr ! 4)\<rparr>)"

definition add_event :: "CoverEvent \<Rightarrow> CoverScan \<Rightarrow> CoverScan" where
  "add_event ev out = out\<lparr>sEvents := sEvents out @ [ev]\<rparr>"

definition cover_note :: "goreplication \<Rightarrow> byte list \<Rightarrow> byte list \<Rightarrow> int \<Rightarrow> int \<Rightarrow> bool \<Rightarrow> CoverScan
    \<Rightarrow> (bool \<times> CoverScan) option" where
  "cover_note g hdr body offset esz hasCRC out =
     (let eventType = hdr ! 4; ev = cover_event g offset esz hdr
      in if eventType = FORMAT_DESCRIPTION_EVENT g then Some (hasCRC \<or> fdChecksum g body, add_event ev out)
         else if eventType = PREVIOUS_GTIDS_EVENT g then
           (case decodePreviousGTIDs g body hasCRC of
              None \<Rightarrow> None
            | Some text \<Rightarrow> Some (hasCRC, add_event ev (out\<lparr>sHasPrevious := True, sPrevious := text\<rparr>)))
         else if eventType = GTID_EVENT g then
           (case gtidEventRef body offset hdr of
              None \<Rightarrow> Some (hasCRC, add_event ev out)
            | Some ref \<Rightarrow> Some (hasCRC, add_event (ev\<lparr>cUUID := evUUID ref, cSeq := evSeq ref, cWhen := evWhen ref\<rparr>) out))
         else Some (hasCRC, add_event ev out))"

function cover_loop :: "goreplication \<Rightarrow> Reader \<Rightarrow> int64 \<Rightarrow> bool \<Rightarrow> int \<Rightarrow> bool \<Rightarrow> CoverScan
    \<Rightarrow> CoverScan \<times> scan_error option" where
  "cover_loop g r remaining sealed offset hasCRC out =
     (case read_event g r remaining sealed offset hasCRC of
        Done \<Rightarrow> (out\<lparr>sEnd := offset\<rparr>, None)
      | Fail e \<Rightarrow> (zero_scan, Some e)
      | FailKeep e \<Rightarrow> (zero_scan, Some e)
      | Event hdr body esz r' remaining' \<Rightarrow>
         (case cover_note g hdr body offset esz hasCRC out of
            None \<Rightarrow> (zero_scan, Some ErrPreviousGTIDs)
          | Some (hasCRC', out') \<Rightarrow> cover_loop g r' remaining' sealed (offset + esz) hasCRC' out'))"
  by pat_completeness auto

termination cover_loop
  by (relation "measure (\<lambda>(g, r, _). length (rBytes r))") (auto dest: read_event_shorter)

declare cover_loop.simps [simp del]

definition scanCover :: "goreplication \<Rightarrow> Reader \<Rightarrow> int64 \<Rightarrow> bool \<Rightarrow> CoverScan \<times> scan_error option" where
  "scanCover g r remaining sealed =
     (case ReadFull r 4 of
        EOF \<Rightarrow> if sealed then (zero_scan, Some (ErrSegmentTruncated (''it holds 0 bytes, fewer than the binlog magic'')))
               else (zero_scan, None)
      | UnexpectedEOF n \<Rightarrow>
          if sealed then (zero_scan, Some (ErrSegmentTruncated
            (''it holds '' @ format_int (int n) @ '' bytes, fewer than the binlog magic'')))
          else (zero_scan, None)
      | Failed e \<Rightarrow> (zero_scan, Some (ErrRead e))
      | Full magic r1 \<Rightarrow>
          if magic \<noteq> durableMagic then (zero_scan, None)
          else cover_loop g r1 (if remaining \<ge> 0 then remaining - 4 else remaining) sealed 4 False zero_scan)"

definition ScanCover :: "goreplication \<Rightarrow> Reader \<Rightarrow> bool \<Rightarrow> CoverScan \<times> scan_error option" where
  "ScanCover g r sealed = scanCover g r (readerRemaining r) sealed"

section \<open>The time span\<close>

record span =
  spFirst :: instant
  spLast :: instant
  spOk :: bool

definition widen :: "span \<Rightarrow> instant \<Rightarrow> span" where
  "widen s w = \<lparr>spFirst = (if \<not> spOk s \<or> w < spFirst s then w else spFirst s),
                spLast = (if \<not> spOk s \<or> w > spLast s then w else spLast s), spOk = True\<rparr>"

definition zero_span :: span where
  "zero_span = \<lparr>spFirst = 0, spLast = 0, spOk = False\<rparr>"

definition count_header :: "goreplication \<Rightarrow> byte list \<Rightarrow> span \<Rightarrow> span" where
  "count_header g hdr s =
     (let ts = little_endian (slice 0 4 hdr)
      in if \<not> spanEventCounts g (hdr ! 4) then s else if ts = 0 then s else widen s (unix_time ts))"

function span_loop :: "goreplication \<Rightarrow> Reader \<Rightarrow> span \<Rightarrow> span \<times> scan_error option" where
  "span_loop g r s =
     (case ReadFull r EventHeaderSize of
        EOF \<Rightarrow> (s, None)
      | UnexpectedEOF _ \<Rightarrow> (s, None)
      | Failed e \<Rightarrow> (zero_span, Some (ErrRead e))
      | Full hdr r1 \<Rightarrow>
          (let eventSize = little_endian (slice 9 13 hdr)
           in if eventSize < int EventHeaderSize then (s, None)
              else case eventBodyBytes eventSize (readerRemaining r1) False of
                     Inl e \<Rightarrow> (s, Some e)
                   | Inr rest \<Rightarrow>
                      if rest < 0 then (s, None)
                      else (case read_body r1 rest of
                              None \<Rightarrow> (s, None)
                            | Some (_, r2) \<Rightarrow> span_loop g r2 (count_header g hdr s))))"
  by pat_completeness auto

lemma read_body_shorter: "read_body r rest = Some (b, r') \<Longrightarrow> length (rBytes r') \<le> length (rBytes r)"
  by (auto simp: read_body_def ReadFull_Full split: if_splits read_result.splits)

termination span_loop
proof (relation "measure (\<lambda>(g, r, _). length (rBytes r))")
  fix g :: goreplication and r :: Reader and s hdr r1 eventSize rest p b r2
  assume "ReadFull r EventHeaderSize = Full hdr r1" and "read_body r1 rest = Some p" and "(b, r2) = p"
  then show "((g, r2, count_header g hdr s), g, r, s) \<in> measure (\<lambda>(g, r, _). length (rBytes r))"
    using read_body_shorter [of r1 rest b r2] by (auto simp: ReadFull_Full EventHeaderSize_def)
qed simp

declare span_loop.simps [simp del]

definition EventTimeSpan :: "goreplication \<Rightarrow> Reader \<Rightarrow> span \<times> scan_error option" where
  "EventTimeSpan g r =
     (case ReadFull r 4 of
        EOF \<Rightarrow> (zero_span, None)
      | UnexpectedEOF _ \<Rightarrow> (zero_span, None)
      | Failed e \<Rightarrow> (zero_span, Some (ErrRead e))
      | Full magic r1 \<Rightarrow> if magic \<noteq> durableMagic then (zero_span, None) else span_loop g r1 zero_span)"

end
