(* ===== verification/Bin_Scan_Props.thy ===== *)
theory Bin_Scan_Props
  imports Bin_Scan "HOL-Library.Sublist"
begin

text \<open>
  What the segment scans guarantee: the coverage scan and the GTID scan see the same transactions,
  the events of a scan tile the bytes of the segment, and a torn tail loses only the events after
  the tear.
\<close>

section \<open>The two scans agree\<close>

definition refs :: "CoverEvent list \<Rightarrow> GTIDEventRef list" where
  "refs evs = map (\<lambda>e. \<lparr>evUUID = cUUID e, evSeq = cSeq e, evOffset = cOffset e, evWhen = cWhen e\<rparr>)
                (filter (\<lambda>e. 0 < cSeq e) evs)"

definition same_log :: "SegmentGTIDLog \<Rightarrow> CoverScan \<Rightarrow> bool" where
  "same_log l c \<longleftrightarrow> lHasPrevious l = sHasPrevious c \<and> lPrevious l = sPrevious c \<and> lEvents l = refs (sEvents c)"

lemma gtidEventRef_Some:
  "gtidEventRef body offset hdr = Some ref \<Longrightarrow> 0 < evSeq ref \<and> evOffset ref = offset \<and> evUUID ref \<noteq> ''''"
  by (auto simp: gtidEventRef_def Let_def split: if_splits)

lemma same_log_simps [simp]:
  "same_log zero_log zero_scan" "same_log l (c\<lparr>sEnd := x\<rparr>) = same_log l c"
  "same_log l (add_event (cover_event g o' n h) c) = same_log l c"
  "same_log l c \<Longrightarrow> same_log (l\<lparr>lHasPrevious := True, lPrevious := t\<rparr>)
     (c\<lparr>sHasPrevious := True, sPrevious := t\<rparr>)"
  by (simp_all add: same_log_def zero_log_def zero_scan_def add_event_def refs_def cover_event_def Let_def)

lemma same_log_event:
  assumes "same_log l c" and "gtidEventRef body offset hdr = Some ref"
  shows "same_log (l\<lparr>lEvents := lEvents l @ [ref]\<rparr>)
    (add_event ((cover_event g offset n hdr)\<lparr>cUUID := evUUID ref, cSeq := evSeq ref, cWhen := evWhen ref\<rparr>) c)"
  using assms gtidEventRef_Some [OF assms(2)]
  by (simp add: same_log_def add_event_def refs_def cover_event_def Let_def)

lemma notes_agree:
  assumes "same_log out cov"
  shows "case (note_event g hdr body offset hasCRC out, cover_note g hdr body offset esz hasCRC cov) of
      (None, None) \<Rightarrow> True
    | (Some (b, l), Some (b', c)) \<Rightarrow> b = b' \<and> same_log l c
    | _ \<Rightarrow> False"
  using assms same_log_event [OF assms, of body offset hdr]
  by (simp add: note_event_def cover_note_def Let_def split: option.split)

lemma loops_agree:
  "same_log out cov \<Longrightarrow>
   snd (gtid_loop g r remaining sealed offset hasCRC out) = snd (cover_loop g r remaining sealed offset hasCRC cov)
   \<and> (snd (gtid_loop g r remaining sealed offset hasCRC out) = None \<longrightarrow>
        same_log (fst (gtid_loop g r remaining sealed offset hasCRC out))
                 (fst (cover_loop g r remaining sealed offset hasCRC cov)))"
proof (induction g r remaining sealed offset hasCRC out arbitrary: cov rule: gtid_loop.induct)
  case (1 g r remaining sealed offset hasCRC out)
  note unfold = gtid_loop.simps [of g r remaining sealed offset hasCRC out]
    cover_loop.simps [of g r remaining sealed offset hasCRC cov]
  show ?case
  proof (cases "read_event g r remaining sealed offset hasCRC")
    case (Event hdr body esz r' remaining')
    note agree = notes_agree [OF "1.prems", of g hdr body offset hasCRC esz]
    show ?thesis
    proof (cases "note_event g hdr body offset hasCRC out")
      case None
      then show ?thesis using agree by (simp add: unfold Event split: option.splits)
    next
      case (Some p)
      then obtain crc l c where p: "p = (crc, l)" "cover_note g hdr body offset esz hasCRC cov = Some (crc, c)"
          "same_log l c"
        using agree by (auto split: option.splits)
      show ?thesis using "1.IH" [OF Event Some p(1) [symmetric] p(3)] Some p by (simp add: unfold Event)
    qed
  qed (simp_all add: unfold "1.prems")
qed

section \<open>Events tile the bytes\<close>

fun tiles :: "int \<Rightarrow> CoverEvent list \<Rightarrow> int \<Rightarrow> bool" where
  "tiles a [] b \<longleftrightarrow> a = b"
| "tiles a (e # es) b \<longleftrightarrow> cOffset e = a \<and> a + int EventHeaderSize \<le> cEnd e
     \<and> cEnd e \<le> a + int EventHeaderSize + maxEventBody \<and> tiles (cEnd e) es b"

lemma tiles_append: "tiles a (xs @ ys) c \<longleftrightarrow> (\<exists>b. tiles a xs b \<and> tiles b ys c)"
  by (induction xs arbitrary: a) auto

lemma tiles_snoc:
  "tiles a xs b \<Longrightarrow> cOffset e = b \<Longrightarrow> b + int EventHeaderSize \<le> cEnd e \<Longrightarrow>
   cEnd e \<le> b + int EventHeaderSize + maxEventBody \<Longrightarrow> tiles a (xs @ [e]) (cEnd e)"
  by (auto simp: tiles_append)

lemma cover_note_tiles:
  assumes "tiles a (sEvents out) offset" and "read_event g r remaining sealed offset hasCRC = Event hdr body esz r' remaining'"
    and "cover_note g hdr body offset esz hasCRC out = Some (crc, out')"
  shows "tiles a (sEvents out') (offset + esz)" and "\<exists>ev. sEvents out' = sEvents out @ [ev]"
proof -
  obtain ev where ev: "sEvents out' = sEvents out @ [ev]" "cOffset ev = offset" "cEnd ev = offset + esz"
    using assms(3) that by (auto simp: cover_note_def Let_def add_event_def cover_event_def split: if_splits option.splits)
  then show "\<exists>ev. sEvents out' = sEvents out @ [ev]" by blast
  show "tiles a (sEvents out') (offset + esz)"
    using tiles_snoc [OF assms(1) ev(2)] ev read_event_Event(2-4) [OF assms(2)] by simp
qed

lemma read_event_Done_sealed:
  "read_event g r remaining True offset hasCRC = Done \<Longrightarrow> rBytes r = []"
  by (auto simp: read_event_def ReadFull_def eventBodyBytes_def Let_def
      split: if_splits option.splits)

lemma cover_loop_tiles:
  "snd (cover_loop g r remaining sealed offset hasCRC out) = None \<Longrightarrow> tiles a (sEvents out) offset \<Longrightarrow>
   cover_loop g r remaining sealed offset hasCRC out = (c, e) \<Longrightarrow>
   tiles a (sEvents c) (sEnd c) \<and> sEnd c \<le> offset + int (length (rBytes r))
    \<and> (sealed \<longrightarrow> sEnd c = offset + int (length (rBytes r)))"
proof (induction g r remaining sealed offset hasCRC out rule: cover_loop.induct)
  case (1 g r remaining sealed offset hasCRC out)
  note unfold = cover_loop.simps [of g r remaining sealed offset hasCRC out]
  show ?case
  proof (cases "read_event g r remaining sealed offset hasCRC")
    case Done
    then have "c = out\<lparr>sEnd := offset\<rparr>" using "1.prems"(3) by (simp add: unfold)
    moreover have "sealed \<longrightarrow> rBytes r = []" using Done read_event_Done_sealed by auto
    ultimately show ?thesis using "1.prems"(2) by simp
  next
    case (Event hdr body esz r' remaining')
    have len: "int (length (rBytes r)) = esz + int (length (rBytes r'))"
      using read_event_Event(1,3) [OF Event] by simp
    show ?thesis
    proof (cases "cover_note g hdr body offset esz hasCRC out")
      case None
      then show ?thesis using "1.prems"(1) by (simp add: unfold Event)
    next
      case (Some p)
      obtain crc out' where p: "p = (crc, out')" by fastforce
      show ?thesis
        using "1.IH" [OF Event Some p [symmetric]] cover_note_tiles(1) [OF "1.prems"(2) Event Some [unfolded p]]
          "1.prems"(1,3) Some p len by (simp add: unfold Event)
    qed
  qed (use "1.prems"(1) in \<open>simp_all add: unfold\<close>)
qed

section \<open>Torn tails\<close>

text \<open>A reader over a prefix of the bytes, with the same knowledge of how many are left.\<close>

definition shorter :: "Reader \<Rightarrow> int64 \<Rightarrow> Reader \<Rightarrow> int64 \<Rightarrow> bool" where
  "shorter r rem' s srem \<longleftrightarrow> prefix (rBytes r) (rBytes s) \<and> rFail r = None \<and> rFail s = None \<and>
     (rem' = - 1 \<and> srem = - 1 \<or> rem' = int (length (rBytes r)) \<and> srem = int (length (rBytes s)))"

lemma eventBodyBytes_longer:
  assumes "eventBodyBytes sz rem' False = Inr rest" "0 \<le> rest" and "srem < 0 \<or> 0 \<le> rem' \<and> rem' \<le> srem"
  shows "eventBodyBytes sz srem False = Inr rest"
  using assms by (auto simp: eventBodyBytes_def Let_def split: if_splits)

lemma read_body_longer:
  assumes "read_body r rest = Some (body, r')" and "prefix (rBytes r) (rBytes s)" and "0 \<le> rest"
  shows "read_body s rest = Some (body, s\<lparr>rBytes := drop (nat rest) (rBytes s)\<rparr>)
    \<and> r' = r\<lparr>rBytes := drop (nat rest) (rBytes r)\<rparr> \<and> nat rest \<le> length (rBytes r)"
proof -
  obtain ys where s: "rBytes s = rBytes r @ ys" using assms(2) by (auto simp: prefix_def)
  show ?thesis using assms(1,3) s
    by (auto simp: read_body_def ReadFull_def Let_def split: if_splits read_result.splits option.splits)
qed

lemma read_event_longer:
  assumes "shorter r rem' s srem"
    and "read_event g r rem' False offset hasCRC = Event hdr body esz r' rem''"
  shows "\<exists>s' srem'. read_event g s srem False offset hasCRC = Event hdr body esz s' srem' \<and> shorter r' rem'' s' srem'"
proof -
  define rem1 where "rem1 = (if rem' \<ge> 0 then rem' - int EventHeaderSize else rem')"
  define srem1 where "srem1 = (if srem \<ge> 0 then srem - int EventHeaderSize else srem)"
  obtain ys where s: "rBytes s = rBytes r @ ys" and f: "rFail r = None" "rFail s = None"
    using assms(1) by (auto simp: shorter_def prefix_def)
  obtain r1 where r1: "ReadFull r EventHeaderSize = Full hdr r1"
    using assms(2) by (auto simp: read_event_def Let_def split: read_result.splits sum.splits if_splits option.splits)
  define s1 where "s1 = s\<lparr>rBytes := drop EventHeaderSize (rBytes s)\<rparr>"
  have h: "EventHeaderSize \<le> length (rBytes r)" "hdr = take EventHeaderSize (rBytes r)"
      "r1 = r\<lparr>rBytes := drop EventHeaderSize (rBytes r)\<rparr>" using r1 by (simp_all add: ReadFull_Full)
  then have s1: "ReadFull s EventHeaderSize = Full hdr s1" and p1: "prefix (rBytes r1) (rBytes s1)"
    using s by (simp_all add: ReadFull_Full s1_def)
  define sz where "sz = little_endian (slice 9 13 hdr)"
  obtain rest where rest: "\<not> sz < int EventHeaderSize" "eventBodyBytes sz rem1 False = Inr rest" "0 \<le> rest"
      "read_body r1 rest = Some (body, r')" "rem'' = (if rem1 \<ge> 0 then rem1 - rest else rem1)" "esz = sz"
    using assms(2) r1 by (auto simp: read_event_def Let_def sz_def rem1_def
        split: read_result.splits sum.splits if_splits option.splits)
  have rr: "srem1 < 0 \<or> 0 \<le> rem1 \<and> rem1 \<le> srem1"
    using assms(1) h(1) s by (auto simp: shorter_def rem1_def srem1_def)
  note b = read_body_longer [OF rest(4) p1 rest(3)]
  have e: "read_event g s srem False offset hasCRC
      = Event hdr body sz (s1\<lparr>rBytes := drop (nat rest) (rBytes s1)\<rparr>) (if srem1 \<ge> 0 then srem1 - rest else srem1)"
    using s1 rest(1,3) eventBodyBytes_longer [OF rest(2,3) rr] b
    by (simp add: read_event_def Let_def sz_def srem1_def crc_bad_def)
  have "shorter r' rem'' (s1\<lparr>rBytes := drop (nat rest) (rBytes s1)\<rparr>) (if srem1 \<ge> 0 then srem1 - rest else srem1)"
  proof -
    define n where "n = nat rest + EventHeaderSize"
    have r': "rBytes r' = drop n (rBytes r)" "rFail r' = None" using b h f by (simp_all add: n_def)
    have n: "n \<le> length (rBytes r)" using b h(1,3) unfolding n_def by simp linarith
    have s': "rBytes (s1\<lparr>rBytes := drop (nat rest) (rBytes s1)\<rparr>) = drop n (rBytes s)"
      by (simp add: s1_def n_def)
    have "prefix (drop n (rBytes r)) (drop n (rBytes s))" using s n by (simp add: prefix_def)
    moreover have "rem'' = - 1 \<and> srem = - 1 \<or> rem'' = int (length (drop n (rBytes r))) \<and> srem = int (length (rBytes s))"
      using assms(1) rest(3,5) n by (auto simp: shorter_def rem1_def n_def)
    moreover have "n \<le> length (rBytes s)" using n s by simp
    ultimately show ?thesis using r' s' f rest(3) by (auto simp: shorter_def s1_def srem1_def n_def)
  qed
  with e rest(6) show ?thesis by blast
qed

lemma read_event_FailKeep_longer:
  assumes "shorter r rem' s srem"
    and "read_event g r rem' False offset hasCRC = FailKeep e"
  shows "read_event g s srem False offset hasCRC = FailKeep e"
proof -
  obtain ys where s: "rBytes s = rBytes r @ ys" using assms(1) by (auto simp: shorter_def prefix_def)
  obtain hdr r1 where r1: "ReadFull r EventHeaderSize = Full hdr r1"
    using assms(2) by (auto simp: read_event_def split: read_result.splits if_splits)
  define sz where "sz = little_endian (slice 9 13 hdr)"
  have "\<exists>rem1. eventBodyBytes sz rem1 False = Inl e" and l: "\<not> sz < int EventHeaderSize"
    using assms(2) r1
    by (auto simp: read_event_def Let_def sz_def split: sum.splits if_splits option.splits)
  then have "eventBodyBytes sz n False = Inl e" for n
    by (auto simp: eventBodyBytes_def Let_def split: if_splits)
  moreover have "\<exists>s1. ReadFull s EventHeaderSize = Full hdr s1"
    using r1 s by (simp add: ReadFull_Full)
  ultimately show ?thesis using l by (auto simp: read_event_def Let_def sz_def)
qed

lemma read_event_no_Fail:
  "rFail r = None \<Longrightarrow> read_event g r rem' False offset hasCRC \<noteq> Fail e"
  by (auto simp: read_event_def ReadFull_def crc_bad_def Let_def split: option.splits sum.splits if_splits)

lemma cover_loop_extends:
  "snd (cover_loop g r remaining sealed offset hasCRC out) = None \<Longrightarrow>
   prefix (sEvents out) (sEvents (fst (cover_loop g r remaining sealed offset hasCRC out)))"
proof (induction g r remaining sealed offset hasCRC out rule: cover_loop.induct)
  case (1 g r remaining sealed offset hasCRC out)
  note unfold = cover_loop.simps [of g r remaining sealed offset hasCRC out]
  show ?case
  proof (cases "read_event g r remaining sealed offset hasCRC")
    case (Event hdr body esz r' remaining')
    show ?thesis
    proof (cases "cover_note g hdr body offset esz hasCRC out")
      case (Some p)
      obtain crc out' where p: "p = (crc, out')" by fastforce
      have "prefix (sEvents out) (sEvents out')"
        using Some p by (auto simp: cover_note_def Let_def add_event_def split: if_splits option.splits)
      then show ?thesis using "1.IH" [OF Event Some p [symmetric]] "1.prems" Some p
        by (auto simp: unfold Event intro: prefix_order.trans)
    qed (use "1.prems" in \<open>simp add: unfold Event\<close>)
  qed (use "1.prems" in \<open>simp_all add: unfold\<close>)
qed

lemma cover_loop_torn:
  "shorter r remaining s srem \<Longrightarrow> \<not> sealed \<Longrightarrow>
   snd (cover_loop g s srem False offset hasCRC out) = None \<Longrightarrow>
   snd (cover_loop g r remaining sealed offset hasCRC out) = None
   \<and> prefix (sEvents (fst (cover_loop g r remaining sealed offset hasCRC out)))
            (sEvents (fst (cover_loop g s srem False offset hasCRC out)))"
proof (induction g r remaining sealed offset hasCRC out arbitrary: s srem rule: cover_loop.induct)
  case (1 g r remaining sealed offset hasCRC out)
  note unfold = cover_loop.simps [of g r remaining sealed offset hasCRC out]
  note unfold' = cover_loop.simps [of g s srem False offset hasCRC out]
  have sealed: "sealed = False" using "1.prems"(2) by simp
  show ?case
  proof (cases "read_event g r remaining sealed offset hasCRC")
    case Done
    then show ?thesis using cover_loop_extends [OF "1.prems"(3)] by (simp add: unfold)
  next
    case (Fail e)
    then show ?thesis using read_event_no_Fail [of r] "1.prems"(1) sealed by (simp add: shorter_def)
  next
    case (FailKeep e)
    then show ?thesis
      using read_event_FailKeep_longer [OF "1.prems"(1)] "1.prems"(3) sealed by (simp add: unfold')
  next
    case (Event hdr body esz r' remaining')
    obtain s' srem' where s': "read_event g s srem False offset hasCRC = Event hdr body esz s' srem'"
        "shorter r' remaining' s' srem'"
      using read_event_longer [OF "1.prems"(1) Event [unfolded sealed]] by blast
    show ?thesis
    proof (cases "cover_note g hdr body offset esz hasCRC out")
      case None
      then show ?thesis using "1.prems"(3) s' by (simp add: unfold')
    next
      case (Some p)
      obtain crc out' where p: "p = (crc, out')" by fastforce
      show ?thesis using "1.IH" [OF Event Some p [symmetric] s'(2) "1.prems"(2)] "1.prems"(3) s' Some p
        by (simp add: unfold unfold' Event)
    qed
  qed
qed

section \<open>Properties\<close>

lemma scan_start:
  assumes "ReadFull r 4 = Full durableMagic r1"
  shows "scanCover g r n sealed = cover_loop g r1 (if n \<ge> 0 then n - 4 else n) sealed 4 False zero_scan"
    and "scanSegmentGTIDsBounded g r n sealed = gtid_loop g r1 (if n \<ge> 0 then n - 4 else n) sealed 4 False zero_log"
  using assms by (simp_all add: scanCover_def scanSegmentGTIDsBounded_def)

lemma scan_short:
  "length (rBytes r) < 4 \<Longrightarrow> rFail r = None \<Longrightarrow> ScanCover g r False = (zero_scan, None)"
  by (simp add: ScanCover_def scanCover_def ReadFull_def Let_def)

text \<open>A demonstration segment: a format description, one transaction and a torn event.\<close>

definition demo_go :: goreplication where
  "demo_go = \<lparr>FORMAT_DESCRIPTION_EVENT = 15, PREVIOUS_GTIDS_EVENT = 35, GTID_EVENT = 33, ROTATE_EVENT = 4,
     CHECKSUM_ALG_CRC32 = 1, decodeFormat = (\<lambda>_. Some 0), decodePrevious = (\<lambda>_. None), decodeRotate = (\<lambda>_. None)\<rparr>"

definition demo_header :: "byte \<Rightarrow> byte \<Rightarrow> byte list" where
  "demo_header ty sz = [7, 0, 0, 0, ty, 0, 0, 0, 0, sz, 0, 0, 0, 0, 0, 0, 0, 0, 0]"

definition demo_bytes :: "byte list" where
  "demo_bytes = durableMagic @ demo_header 15 20 @ [0] @ demo_header 33 44 @ [0] @ replicate 16 171 @ [9, 0, 0, 0, 0, 0, 0, 0]"

definition demo_reader :: "byte list \<Rightarrow> Reader" where
  "demo_reader bs = \<lparr>rBytes = bs, rFail = None, rSized = True\<rparr>"

definition demo_scan :: CoverScan where
  "demo_scan = \<lparr>sEvents =
      [\<lparr>cWhen = unix_time 7, cOffset = 4, cEnd = 24, cUUID = '''', cSeq = 0, cCounts = False\<rparr>,
       \<lparr>cWhen = unix_time 7, cOffset = 24, cEnd = 68, cUUID = ''abababab-abab-abab-abab-abababababab'', cSeq = 9, cCounts = True\<rparr>],
     sPrevious = '''', sHasPrevious = False, sEnd = 68\<rparr>"

lemma demo_scan_sealed: "ScanCover demo_go (demo_reader demo_bytes) True = (demo_scan, None)"
  by code_simp

lemma demo_scan_open: "ScanCover demo_go (demo_reader demo_bytes) False = (demo_scan, None)"
  by code_simp

text \<open>C34. The coverage scan and the GTID scan agree on every input: they fail with the same error, and
  when they do not fail they report the same previous-GTIDs header and the same transactions with the
  same offsets and times.\<close>

theorem scans_agree:
  "snd (scanSegmentGTIDsBounded g r n sealed) = snd (scanCover g r n sealed)
   \<and> (snd (scanCover g r n sealed) = None \<longrightarrow>
       same_log (fst (scanSegmentGTIDsBounded g r n sealed)) (fst (scanCover g r n sealed)))"
proof (cases "\<exists>r1. ReadFull r 4 = Full durableMagic r1")
  case True
  then show ?thesis using loops_agree [OF same_log_simps(1)] by (auto simp: scan_start)
next
  case False
  then show ?thesis
    by (auto simp: scanSegmentGTIDsBounded_def scanCover_def split: read_result.splits)
qed

theorem scans_agree_witness:
  "lEvents (fst (scanSegmentGTIDsBounded demo_go (demo_reader demo_bytes) 68 True)) =
     [\<lparr>evUUID = ''abababab-abab-abab-abab-abababababab'', evSeq = 9, evOffset = 24, evWhen = unix_time 7\<rparr>]"
proof -
  have "readerRemaining (demo_reader demo_bytes) = 68" by code_simp
  then have "scanCover demo_go (demo_reader demo_bytes) 68 True = (demo_scan, None)"
    using demo_scan_sealed by (simp add: ScanCover_def)
  then show ?thesis using scans_agree [of demo_go "demo_reader demo_bytes" 68 True]
    by (simp add: same_log_def refs_def demo_scan_def)
qed

text \<open>The events of a successful scan tile the segment: the first begins after the magic, each
  begins where the one before it ends, an event is at least a header and at most the body limit long,
  and the scan ends where the last event ends, within the file. A sealed segment that scans without an
  error holds nothing else: the events reach exactly to its last byte.\<close>

lemma scan_tiles_segment:
  assumes "scanCover g r n sealed = (c, None)" and "prefix durableMagic (rBytes r)"
  shows "tiles 4 (sEvents c) (sEnd c) \<and> sEnd c \<le> int (length (rBytes r))
    \<and> (sealed \<longrightarrow> sEnd c = int (length (rBytes r)))"
proof -
  obtain ys where ys: "rBytes r = durableMagic @ ys" using assms(2) by (auto simp: prefix_def)
  have "ReadFull r 4 = Full durableMagic (r\<lparr>rBytes := ys\<rparr>)"
    using ys by (simp add: ReadFull_Full durableMagic_def)
  from scan_start(1) [OF this, of g n sealed] assms(1)
  have "cover_loop g (r\<lparr>rBytes := ys\<rparr>) (if n \<ge> 0 then n - 4 else n) sealed 4 False zero_scan = (c, None)" by simp
  from cover_loop_tiles [OF _ _ this, of 4] this show ?thesis
    using ys by (simp add: zero_scan_def durableMagic_def)
qed

text \<open>C36. Cutting an open segment short anywhere, as a torn write does, loses only events at the end: the
  scan of the cut file does not fail and its events are a prefix of the events of the whole file.\<close>

theorem torn_tail_keeps_prefix:
  assumes "rFail r = None" and "ScanCover g r False = (c, None)"
  shows "\<exists>c'. ScanCover g (r\<lparr>rBytes := take n (rBytes r)\<rparr>) False = (c', None) \<and> prefix (sEvents c') (sEvents c)"
proof (cases "n < 4 \<or> length (rBytes r) < 4")
  case True
  then have "length (rBytes (r\<lparr>rBytes := take n (rBytes r)\<rparr>)) < 4" by auto
  from scan_short [OF this] have "ScanCover g (r\<lparr>rBytes := take n (rBytes r)\<rparr>) False = (zero_scan, None)"
    using assms(1) by simp
  then show ?thesis by (simp add: zero_scan_def)
next
  case False
  define r1 where "r1 = r\<lparr>rBytes := drop 4 (rBytes r)\<rparr>"
  define s1 where "s1 = r\<lparr>rBytes := drop 4 (take n (rBytes r))\<rparr>"
  define k where "k = (if rSized r then int (length (rBytes r1)) else - 1)"
  define m where "m = (if rSized r then int (length (rBytes s1)) else - 1)"
  have f: "ReadFull r 4 = Full (take 4 (rBytes r)) r1"
      "ReadFull (r\<lparr>rBytes := take n (rBytes r)\<rparr>) 4 = Full (take 4 (rBytes r)) s1"
    using False by (simp_all add: ReadFull_Full r1_def s1_def min_def)
  have sh: "shorter s1 m r1 k"
    using assms(1) by (auto simp: shorter_def s1_def r1_def m_def k_def drop_take take_is_prefix)
  have k: "(if readerRemaining r \<ge> 0 then readerRemaining r - 4 else readerRemaining r) = k"
      "(if readerRemaining (r\<lparr>rBytes := take n (rBytes r)\<rparr>) \<ge> 0
        then readerRemaining (r\<lparr>rBytes := take n (rBytes r)\<rparr>) - 4
        else readerRemaining (r\<lparr>rBytes := take n (rBytes r)\<rparr>)) = m"
    using False by (auto simp: readerRemaining_def k_def m_def r1_def s1_def)
  show ?thesis
  proof (cases "take 4 (rBytes r) = durableMagic")
    case True
    have "cover_loop g r1 k False 4 False zero_scan = (c, None)"
      using assms(2) scan_start(1) [of r r1 g] f(1) True k(1) by (simp add: ScanCover_def)
    then show ?thesis
      using cover_loop_torn [OF sh, of False g 4 False zero_scan] k(2) f(2) True
        scan_start(1) [of "r\<lparr>rBytes := take n (rBytes r)\<rparr>" s1 g]
      by (cases "cover_loop g s1 m False 4 False zero_scan") (simp add: ScanCover_def)
  next
    case no_magic: False
    then show ?thesis using f by (simp add: ScanCover_def scanCover_def zero_scan_def)
  qed
qed

theorem torn_tail_keeps_prefix_witness:
  "\<exists>c'. ScanCover demo_go (demo_reader (take 60 demo_bytes)) False = (c', None) \<and> prefix (sEvents c') (sEvents demo_scan)"
  using torn_tail_keeps_prefix [OF _ demo_scan_open, of 60] by (simp add: demo_reader_def)

end
