(* ===== verification/Bin_Segment.thy ===== *)
theory Bin_Segment
  imports Go_Text
begin

text \<open>
  The segment-name classifier of \<open>internal/binlog/segment.go\<close>: a base name of the task directory is
  a plain sealed segment \<open>source.000001\<close>, an open one \<open>source.000001.open.e5\<close>, a later seal
  \<open>source.000001.sealed.e5\<close>, or no segment at all. \<open>None\<close> is the second result \<open>false\<close>.
\<close>

section \<open>The classifier\<close>

definition openEpochMark :: string where "openEpochMark = ''.open.e''"
definition sealedEpochMark :: string where "sealedEpochMark = ''.sealed.e''"

record SegmentName =
  nSource :: string
  nSeq :: int
  nEpoch :: int64
  nOpen :: bool

definition parseEpochSuffix :: "string \<Rightarrow> int64 option" where
  "parseEpochSuffix text =
     (if text = [] \<or> list_ex (\<lambda>c. c \<in> set [CHR ''.'', CHR ''/'', CHR 0x5C]) text then None
      else case parse_int text of
             None \<Rightarrow> None
           | Some n \<Rightarrow> if n < 0 then None else Some n)"

definition source_seq :: "string \<Rightarrow> int option" where
  "source_seq source =
     (let dot = last_index source ''.''
      in if dot \<le> 0 \<or> dot = int (length source) - 1 then None
         else case parse_uint (drop (nat dot + 1) source) of
                None \<Rightarrow> None
              | Some seq \<Rightarrow> if take (nat dot) source = [] then None else Some seq)"

definition segment_of :: "string \<Rightarrow> int64 \<Rightarrow> bool \<Rightarrow> SegmentName option" where
  "segment_of source epoch opn =
     (case source_seq source of
        None \<Rightarrow> None
      | Some seq \<Rightarrow> Some \<lparr>nSource = source, nSeq = seq, nEpoch = epoch, nOpen = opn\<rparr>)"

definition marked :: "string \<Rightarrow> string \<Rightarrow> bool \<Rightarrow> SegmentName option" where
  "marked name mark opn =
     (let idx = nat (last_index name mark)
      in case parseEpochSuffix (drop (idx + length mark) name) of
           None \<Rightarrow> None
         | Some n \<Rightarrow> segment_of (take idx name) n opn)"

definition ClassifySegment :: "string \<Rightarrow> SegmentName option" where
  "ClassifySegment name =
     (if name = [] \<or> has_prefix name ''.'' then None
      else if last_index name openEpochMark > 0 then marked name openEpochMark True
      else if last_index name sealedEpochMark > 0 then marked name sealedEpochMark False
      else segment_of name (- 1) False)"

definition OpenName :: "string \<Rightarrow> bool" where
  "OpenName name = (case ClassifySegment name of None \<Rightarrow> False | Some named \<Rightarrow> nOpen named)"

definition SealedName :: "string \<Rightarrow> bool" where
  "SealedName name = (case ClassifySegment name of None \<Rightarrow> False | Some named \<Rightarrow> \<not> nOpen named)"

section \<open>Names as the runner builds them\<close>

lemma parseEpochSuffix_format:
  "0 \<le> e \<Longrightarrow> e \<le> max_int64 \<Longrightarrow> parseEpochSuffix (format_int e) = Some e"
proof -
  assume e: "0 \<le> e" "e \<le> max_int64"
  have "c \<notin> set (format_int e)" if "\<not> is_digit c" for c
    using format_int_digits [OF e(1)] that by (auto simp: list_all_iff)
  then have "\<not> list_ex (\<lambda>c. c \<in> set [CHR ''.'', CHR ''/'', CHR 0x5C]) (format_int e)"
    by (auto simp: list_ex_iff is_digit_def less_eq_char_def)
  then show ?thesis using format_int_digits [OF e(1)] parse_format [OF e] e
    by (simp add: parseEpochSuffix_def)
qed

lemma parseEpochSuffix_nonneg: "parseEpochSuffix t = Some n \<Longrightarrow> 0 \<le> n"
  by (auto simp: parseEpochSuffix_def split: if_splits option.splits)

lemma segment_of_fields:
  "segment_of s e b = Some n \<Longrightarrow> nSource n = s \<and> nEpoch n = e \<and> nOpen n = b \<and> source_seq s = Some (nSeq n)"
  by (auto simp: segment_of_def split: option.splits)

lemma format_no_dot: "0 \<le> e \<Longrightarrow> CHR ''.'' \<notin> set (format_int e)"
  using format_int_digits [of e] by (auto simp: list_all_iff is_digit_def less_eq_char_def)

text \<open>Both marks begin with a dot and a letter other than \<open>e\<close>, and every further dot of them is
  followed by an \<open>e\<close>. So a mark is found neither inside an appended mark and number nor across the
  place where one is appended.\<close>

definition mark_like :: "string \<Rightarrow> bool" where
  "mark_like m \<longleftrightarrow> 1 < length m \<and> m ! 0 = CHR ''.'' \<and> m ! 1 \<noteq> CHR ''e'' \<and>
     list_all (\<lambda>k. m ! k = CHR ''.'' \<longrightarrow> Suc k < length m \<and> m ! Suc k = CHR ''e'') [1..<length m]"

lemma marks_like: "mark_like openEpochMark" "mark_like sealedEpochMark"
  by code_simp+

lemma mark_likeD:
  "mark_like m \<Longrightarrow> 0 < k \<Longrightarrow> k < length m \<Longrightarrow> m ! k = CHR ''.'' \<Longrightarrow> Suc k < length m \<and> m ! Suc k = CHR ''e''"
  by (simp add: mark_like_def list_all_iff)

lemma mark_not_later:
  assumes "mark_like m" "mark_like m'" and "CHR ''.'' \<notin> set tail" and "length a < j"
  shows "\<not> occurs_at (a @ m' @ tail) m j"
proof
  assume o: "occurs_at (a @ m' @ tail) m j"
  define d where "d = j - length a"
  have d: "0 < d" "j = length a + d" using assms(4) by (simp_all add: d_def)
  have m: "0 < length m" "1 < length m" "m ! 0 = CHR ''.''" "m ! 1 \<noteq> CHR ''e''"
    using assms(1) by (auto simp: mark_like_def)
  have n0: "(m' @ tail) ! d = CHR ''.''" "d < length (m' @ tail)"
    using occurs_at_nth [OF o m(1)] d m(3) by (auto simp: nth_append)
  have l: "d < length m'"
  proof (rule ccontr)
    assume "\<not> ?thesis"
    then have "(m' @ tail) ! d \<in> set tail" using n0(2) by (auto simp: nth_append intro!: nth_mem)
    then show False using n0(1) assms(3) by simp
  qed
  then have "m' ! d = CHR ''.''" using n0(1) by (simp add: nth_append)
  from mark_likeD [OF assms(2) d(1) l this] have "(m' @ tail) ! Suc d = CHR ''e''"
    by (simp add: nth_append)
  moreover have "(m' @ tail) ! Suc d = m ! 1"
    using occurs_at_nth [OF o m(2)] d(2) by (auto simp: nth_append)
  ultimately show False using m(4) by simp
qed

lemma mark_not_across:
  assumes "mark_like m" "mark_like m'" and "occurs_at (a @ m' @ tail) m i" and "i < length a"
  shows "occurs_at a m i"
proof -
  have "i + length m \<le> length a"
  proof (rule ccontr)
    assume n: "\<not> ?thesis"
    define d where "d = length a - i"
    have d: "0 < d" "d < length m" "i + d = length a" using n assms(4) by (simp_all add: d_def)
    have m': "0 < length m'" "1 < length m'" "m' ! 0 = CHR ''.''" "m' ! 1 \<noteq> CHR ''e''"
      using assms(2) by (auto simp: mark_like_def)
    have "m ! d = (a @ m' @ tail) ! (i + d)" using occurs_at_nth [OF assms(3) d(2)] by simp
    then have "m ! d = CHR ''.''" using d(3) m' by (simp add: nth_append)
    from mark_likeD [OF assms(1) d(1,2) this] have s: "Suc d < length m" "m ! Suc d = CHR ''e''" by auto
    have "(a @ m' @ tail) ! (i + Suc d) = m' ! 1" using d(3) m'(2) by (simp add: nth_append)
    then show False using occurs_at_nth [OF assms(3) s(1)] s(2) m'(4) by simp
  qed
  then show ?thesis using assms(3) by (simp add: occurs_at_def)
qed

lemma last_index_appended:
  assumes "mark_like m" and "CHR ''.'' \<notin> set tail"
  shows "last_index (a @ m @ tail) m = int (length a)"
proof (rule last_index_eq)
  show "length a < length (a @ m @ tail)" using assms(1) by (auto simp: mark_like_def)
  show "occurs_at (a @ m @ tail) m (length a)" by (simp add: occurs_at_def)
qed (use mark_not_later [OF assms(1) assms(1) assms(2)] in blast)

lemma last_index_other:
  assumes "mark_like m" "mark_like m'" and "CHR ''.'' \<notin> set tail" and "m' ! 1 \<noteq> m ! 1"
    and none: "last_index a m = - 1"
  shows "last_index (a @ m' @ tail) m = - 1"
proof (rule last_index_none)
  fix j
  have "m \<noteq> []" "1 < length m" "1 < length m'" using assms(1,2) by (auto simp: mark_like_def)
  then have "\<not> occurs_at (a @ m' @ tail) m (length a)"
    using occurs_at_nth [of "a @ m' @ tail" m "length a" 1] assms(4) by (auto simp: nth_append)
  moreover have "\<not> occurs_at a m j" if "j < length a"
    using last_index_cases [of a m] none that by auto
  ultimately show "\<not> occurs_at (a @ m' @ tail) m j"
    using mark_not_across [OF assms(1,2), of a tail j] mark_not_later [OF assms(1-3), of a j]
    by (metis linorder_neqE_nat)
qed

lemma plain_name:
  assumes "ClassifySegment src = Some n" and "nEpoch n = - 1"
  shows "src \<noteq> []" and "hd src \<noteq> CHR ''.''" and "segment_of src (- 1) False = Some n"
    and "last_index src openEpochMark = - 1" and "last_index src sealedEpochMark = - 1"
proof -
  have ne: "src \<noteq> []" and p: "\<not> has_prefix src ''.''"
    using assms(1) by (auto simp: ClassifySegment_def split: if_splits)
  then show "src \<noteq> []" "hd src \<noteq> CHR ''.''" by (cases src; simp add: has_prefix_def)+
  have no: "\<not> occurs_at src (CHR ''.'' # r) 0" for r
    using p ne by (cases src) (auto simp: occurs_at_def has_prefix_def)
  have "last_index src (CHR ''.'' # r) = - 1 \<or> last_index src (CHR ''.'' # r) > 0" for r
    using last_index_cases [of src "CHR ''.'' # r"] no [of r] by (metis gr0I of_nat_0_less_iff)
  moreover have "marked src m b \<noteq> Some n" for m b
    using assms(2) by (auto simp: marked_def Let_def split: option.splits dest!: parseEpochSuffix_nonneg segment_of_fields)
  ultimately show "segment_of src (- 1) False = Some n"
    and "last_index src openEpochMark = - 1" and "last_index src sealedEpochMark = - 1"
    using assms(1) ne p by (auto simp: ClassifySegment_def openEpochMark_def sealedEpochMark_def split: if_splits)
qed

lemma marked_name:
  assumes "ClassifySegment src = Some n" and "nEpoch n = - 1" and "0 \<le> e" "e \<le> max_int64"
    and "mark_like mark"
  shows "marked (src @ mark @ format_int e) mark b = Some (n\<lparr>nEpoch := e, nOpen := b\<rparr>)"
    and "last_index (src @ mark @ format_int e) mark > 0"
    and "\<not> has_prefix (src @ mark @ format_int e) ''.''"
proof -
  note plain = plain_name [OF assms(1,2)]
  have i: "last_index (src @ mark @ format_int e) mark = int (length src)"
    by (rule last_index_appended [OF assms(5) format_no_dot [OF assms(3)]])
  then show "last_index (src @ mark @ format_int e) mark > 0" using plain(1) by simp
  show "\<not> has_prefix (src @ mark @ format_int e) ''.''"
    using plain(1,2) by (cases src) (simp_all add: has_prefix_def)
  show "marked (src @ mark @ format_int e) mark b = Some (n\<lparr>nEpoch := e, nOpen := b\<rparr>)"
    using plain(3) i parseEpochSuffix_format [OF assms(3,4)]
    by (auto simp: marked_def segment_of_def split: option.splits)
qed

text \<open>The name of a plain segment with an open or a sealed epoch mark and a printed epoch is read
  back: same source file and index, that epoch, open exactly for the open mark. A takeover leftover
  such as \<open>.takeover-1\<close> and every other name that begins with a dot is neither open nor sealed.\<close>

lemma segment_name_roundtrip:
  assumes "ClassifySegment src = Some n" and "nEpoch n = - 1" and "0 \<le> e" and "e \<le> max_int64"
  shows "ClassifySegment (src @ openEpochMark @ format_int e) = Some (n\<lparr>nEpoch := e, nOpen := True\<rparr>)
    \<and> ClassifySegment (src @ sealedEpochMark @ format_int e) = Some (n\<lparr>nEpoch := e, nOpen := False\<rparr>)
    \<and> OpenName (src @ openEpochMark @ format_int e) \<and> SealedName (src @ sealedEpochMark @ format_int e)
    \<and> \<not> OpenName (CHR ''.'' # src) \<and> \<not> SealedName (CHR ''.'' # src)"
proof -
  note plain = plain_name [OF assms(1,2)]
  note opened = marked_name [OF assms marks_like(1)] and sealed = marked_name [OF assms marks_like(2)]
  have "last_index (src @ sealedEpochMark @ format_int e) openEpochMark = - 1"
    by (rule last_index_other [OF marks_like(1) marks_like(2) format_no_dot [OF assms(3)] _ plain(4)])
      (simp add: openEpochMark_def sealedEpochMark_def)
  then have c: "ClassifySegment (src @ openEpochMark @ format_int e) = Some (n\<lparr>nEpoch := e, nOpen := True\<rparr>)"
      "ClassifySegment (src @ sealedEpochMark @ format_int e) = Some (n\<lparr>nEpoch := e, nOpen := False\<rparr>)"
    using opened sealed plain(1) by (simp_all add: ClassifySegment_def)
  have "ClassifySegment (CHR ''.'' # src) = None" by (simp add: ClassifySegment_def has_prefix_def)
  then show ?thesis using c by (simp add: OpenName_def SealedName_def)
qed

end
