(* ===== verification/Bin_Ledger.thy ===== *)
theory Bin_Ledger
  imports Bin_Scan_Props Bin_Segment "HOL-Library.Product_Lexorder"
begin

text \<open>
  The segment ledger of one task directory: \<open>internal/binlog/ledger.go\<close> (the segments in binlog
  order, what each stores, the stored set and its holes) and \<open>internal/binlog/storage_consistency.go\<close>
  (the re-dump damage signature, the recovery sets, unreadable sealed segments).

  The directory is a value: its listing (or the error of reading it), the bytes of each file (\<open>None\<close>
  when it cannot be opened) and the size at seal its \<open>.seal-sha256\<close> records. One question is asked
  of one such value, as the code builds a new ledger for each question; its caches, which return
  what a second read of the unchanged file would, are left out.
\<close>

section \<open>The directory\<close>

record Disk =
  kDir :: string
  kEntries :: "string + (string \<times> bool) list"
  kFile :: "string \<Rightarrow> byte list option"
  kSealSize :: "string \<Rightarrow> int64 option"

record LedgerSegment =
  gName :: string
  gNamed :: SegmentName

definition file_reader :: "byte list \<Rightarrow> Reader" where
  "file_reader bs = \<lparr>rBytes = bs, rFail = None, rSized = True\<rparr>"

definition ledger_segment :: "string \<times> bool \<Rightarrow> LedgerSegment option" where
  "ledger_segment entry =
     (if snd entry then None
      else case ClassifySegment (fst entry) of
             None \<Rightarrow> None
           | Some named \<Rightarrow> Some \<lparr>gName = fst entry, gNamed = named\<rparr>)"

definition binlog_order :: "LedgerSegment \<Rightarrow> int \<times> int64 \<times> string" where
  "binlog_order s = (nSeq (gNamed s), nEpoch (gNamed s), gName s)"

definition Segments :: "Disk \<Rightarrow> string + LedgerSegment list" where
  "Segments d =
     (if kDir d = '''' then Inl ''file does not exist''
      else case kEntries d of
             Inl err \<Rightarrow> Inl err
           | Inr entries \<Rightarrow> Inr (sort_key binlog_order (List.map_filter ledger_segment entries)))"

definition segments_or_none :: "Disk \<Rightarrow> LedgerSegment list" where
  "segments_or_none d = (case Segments d of Inl _ \<Rightarrow> [] | Inr segs \<Rightarrow> segs)"

section \<open>What a segment stores\<close>

record SegmentContents =
  tLog :: SegmentGTIDLog
  tGTIDs :: GTIDSet

definition readSegmentContents :: "goreplication \<Rightarrow> Reader \<Rightarrow> bool \<Rightarrow> scan_error + SegmentContents" where
  "readSegmentContents g r sealed =
     (case scanSegmentGTIDsBounded g r (readerRemaining r) sealed of
        (log, Some err) \<Rightarrow> Inl err
      | (log, None) \<Rightarrow> Inr \<lparr>tLog = log, tGTIDs = AddEvents [] (lEvents log)\<rparr>)"

definition ReadSegmentContents :: "goreplication \<Rightarrow> Reader \<Rightarrow> scan_error + SegmentContents" where
  "ReadSegmentContents g r = readSegmentContents g r False"

definition ReadSealedSegmentContents :: "goreplication \<Rightarrow> Reader \<Rightarrow> scan_error + SegmentContents" where
  "ReadSealedSegmentContents g r = readSegmentContents g r True"

definition Contents :: "goreplication \<Rightarrow> Disk \<Rightarrow> string \<Rightarrow> scan_error + SegmentContents" where
  "Contents g d name =
     (case kFile d name of
        None \<Rightarrow> Inl (ErrRead ''open'')
      | Some bs \<Rightarrow> ReadSegmentContents g (file_reader bs))"

definition add_contents :: "goreplication \<Rightarrow> Disk \<Rightarrow> GTIDSet \<Rightarrow> LedgerSegment \<Rightarrow> GTIDSet" where
  "add_contents g d out seg = (case Contents g d (gName seg) of Inl _ \<Rightarrow> out | Inr c \<Rightarrow> AddAll out (tGTIDs c))"

definition Stored :: "goreplication \<Rightarrow> Disk \<Rightarrow> GTIDSet" where
  "Stored g d = foldl (add_contents g d) [] (segments_or_none d)"

definition SealedStored :: "goreplication \<Rightarrow> Disk \<Rightarrow> GTIDSet" where
  "SealedStored g d =
     foldl (\<lambda>out seg. if nOpen (gNamed seg) then out else add_contents g d out seg) [] (segments_or_none d)"

definition StoredHoles :: "GTIDSet \<Rightarrow> GTIDSet \<Rightarrow> GTIDSet" where
  "StoredHoles stored start = Minus (InteriorGaps stored) start"

definition Holes :: "goreplication \<Rightarrow> Disk \<Rightarrow> GTIDSet \<Rightarrow> GTIDSet" where
  "Holes g d start = StoredHoles (Stored g d) start"

definition SealedText :: "goreplication \<Rightarrow> Disk \<Rightarrow> string \<Rightarrow> string" where
  "SealedText g d flavor =
     (let f = trim_space flavor
      in if f \<noteq> '''' \<and> f \<noteq> ''mysql'' then '''' else String (SealedStored g d))"

definition sealedSegmentCorrupt :: "goreplication \<Rightarrow> Disk \<Rightarrow> string \<Rightarrow> string option" where
  "sealedSegmentCorrupt g d name =
     (case kFile d name of
        None \<Rightarrow> None
      | Some bs \<Rightarrow>
         (case snd (scanSegmentGTIDsBounded g (file_reader bs) (int (length bs)) True) of
            Some e \<Rightarrow> if is_corrupt e then Some (UnreadableReason e) else None
          | None \<Rightarrow> None))"

section \<open>Damage of one segment\<close>

definition uint32_at :: "byte list \<Rightarrow> nat \<Rightarrow> nat \<Rightarrow> int" where
  "uint32_at bs offset i = little_endian (slice (offset + i) (offset + i + 4) bs)"

function regress_loop :: "byte list \<Rightarrow> nat \<Rightarrow> int \<Rightarrow> (int \<times> int) option" where
  "regress_loop bs offset prev =
     (if offset + EventHeaderSize \<le> length bs then
        (let eventSize = nat (uint32_at bs offset 9); logPos = uint32_at bs offset 13
         in if eventSize < EventHeaderSize \<or> offset + eventSize > length bs then None
            else if logPos = 0 then regress_loop bs (offset + eventSize) prev
            else if prev \<noteq> 0 \<and> logPos < prev then Some (logPos, prev)
            else regress_loop bs (offset + eventSize) (if logPos > prev then logPos else prev))
      else None)"
  by pat_completeness auto

termination regress_loop
  by (relation "measure (\<lambda>(bs, offset, prev). length bs - offset)") (auto simp: EventHeaderSize_def)

declare regress_loop.simps [simp del]

definition positionRegresses :: "byte list \<Rightarrow> (int \<times> int) option" where
  "positionRegresses bs = (if take 4 bs \<noteq> durableMagic then None else regress_loop bs 4 0)"

definition trim_right_zero :: "string \<Rightarrow> string" where
  "trim_right_zero s = rev (dropWhile (\<lambda>c. c = CHR 0x00) (rev s))"

definition first_index :: "string \<Rightarrow> char \<Rightarrow> int" where
  "first_index s c = (if c \<in> set s then int (length (takeWhile (\<lambda>x. x \<noteq> c) s)) else - 1)"

definition looksStintPrefix :: "string \<Rightarrow> bool" where
  "looksStintPrefix s =
     (let i = first_index s CHR ''~''
      in if i > 0 then
           (let n = drop (nat i + 1) s
            in if n = '''' then False
               else if \<not> list_all is_digit n then False
               else looksUUID (take (nat i) s))
         else looksUUID s)"

definition plainBinlog :: "string \<Rightarrow> (string \<times> int) option" where
  "plainBinlog name =
     (let name = trim_right_zero (trim_space name);
          i = first_index name CHR ''.'';
          name = (if i > 0 \<and> looksStintPrefix (take (nat i) name) then drop (nat i + 1) name else name);
          dot = last_index name ''.''
      in if dot \<le> 0 \<or> dot = int (length name) - 1 then None
         else case parse_uint (drop (nat dot + 1) name) of
                None \<Rightarrow> None
              | Some seq \<Rightarrow> if take (nat dot) name = '''' then None else Some (take (nat dot) name, seq))"

definition sameBinlogStream :: "string \<Rightarrow> string \<Rightarrow> (int \<times> int) option" where
  "sameBinlogStream segmentSource rotateNext =
     (case (plainBinlog segmentSource, plainBinlog rotateNext) of
        (Some (segBase, segSeq), Some (nextBase, nextSeq)) \<Rightarrow>
          if segBase \<noteq> nextBase then None else Some (segSeq, nextSeq)
      | _ \<Rightarrow> None)"

definition rotate_body :: "goreplication \<Rightarrow> byte list \<Rightarrow> nat \<Rightarrow> nat \<Rightarrow> byte list" where
  "rotate_body g bs offset eventSize =
     (let bodyLen = eventSize - EventHeaderSize; eventType = bs ! (offset + 4);
          keep = (eventType = FORMAT_DESCRIPTION_EVENT g \<or> eventType = ROTATE_EVENT g)
      in if keep \<and> bodyLen > 0 \<and> int bodyLen \<le> 1048576 then slice (offset + EventHeaderSize) (offset + eventSize) bs
         else [])"

definition stray_rotate :: "goreplication \<Rightarrow> string \<Rightarrow> byte list \<Rightarrow> bool \<Rightarrow> string option" where
  "stray_rotate g segmentSource body crc32 =
     (let raw = (if crc32 \<and> length body \<ge> BinlogChecksumLength
                 then take (length body - BinlogChecksumLength) body else body)
      in case decodeRotate g raw of
           None \<Rightarrow> None
         | Some nextName \<Rightarrow>
            (let nxt = trim_space (trim_right_zero nextName)
             in case sameBinlogStream segmentSource nxt of
                  None \<Rightarrow> None
                | Some (segSeq, nextSeq) \<Rightarrow> if nextSeq \<le> segSeq then Some nxt else None))"

function rotate_loop :: "goreplication \<Rightarrow> string \<Rightarrow> byte list \<Rightarrow> nat \<Rightarrow> bool \<Rightarrow> string option" where
  "rotate_loop g segmentSource bs offset crc32 =
     (if offset + EventHeaderSize \<le> length bs then
        (let eventSize = nat (uint32_at bs offset 9); eventType = bs ! (offset + 4)
         in if eventSize < EventHeaderSize \<or> offset + eventSize > length bs then None
            else (let body = rotate_body g bs offset eventSize;
                      crc32 = (crc32 \<or> (eventType = FORMAT_DESCRIPTION_EVENT g \<and> fdChecksum g body))
                  in if eventType \<noteq> ROTATE_EVENT g \<or> length body < 8
                     then rotate_loop g segmentSource bs (offset + eventSize) crc32
                     else case stray_rotate g segmentSource body crc32 of
                            Some nxt \<Rightarrow> Some nxt
                          | None \<Rightarrow> rotate_loop g segmentSource bs (offset + eventSize) crc32))
      else None)"
  by pat_completeness auto

termination rotate_loop
  by (relation "measure (\<lambda>(g, s, bs, offset, c). length bs - offset)") (auto simp: EventHeaderSize_def)

declare rotate_loop.simps [simp del]

definition strayRotate :: "goreplication \<Rightarrow> byte list \<Rightarrow> string \<Rightarrow> string option" where
  "strayRotate g bs segmentSource = (if take 4 bs \<noteq> durableMagic then None else rotate_loop g segmentSource bs 4 False)"

definition segmentDamageUncached :: "goreplication \<Rightarrow> byte list \<Rightarrow> string \<Rightarrow> string \<Rightarrow> string option" where
  "segmentDamageUncached g bs diskName segmentSource =
     (case strayRotate g bs segmentSource of
        Some nxt \<Rightarrow> Some (''Segment '' @ diskName @ '' contains a rotate to '' @ nxt @ '', which is not a newer binlog file.'')
      | None \<Rightarrow>
         (case positionRegresses bs of
            Some (pos, prev) \<Rightarrow> Some (''Segment '' @ diskName @ '' has event end pos '' @ format_int pos @
                                 '' behind earlier end pos '' @ format_int prev @ ''.'')
          | None \<Rightarrow> None))"

definition segmentDamage :: "goreplication \<Rightarrow> Disk \<Rightarrow> string \<Rightarrow> string \<Rightarrow> string option" where
  "segmentDamage g d name source =
     (case kFile d name of None \<Rightarrow> None | Some bs \<Rightarrow> segmentDamageUncached g bs name source)"

definition SegmentDamage :: "goreplication \<Rightarrow> Disk \<Rightarrow> string \<Rightarrow> string option" where
  "SegmentDamage g d name =
     (case ClassifySegment name of None \<Rightarrow> None | Some named \<Rightarrow> segmentDamage g d name (nSource named))"

section \<open>The storage verdict\<close>

record StorageProblem =
  pMessage :: string
  pSegment :: string
  pDetail :: string
  pReason :: string
  pMissing :: string
  pValid :: "string list"
  pRestart :: string

definition isMariaDBStorage :: "string \<Rightarrow> bool" where
  "isMariaDBStorage flavor = equal_fold (trim_space flavor) ''mariadb''"

definition lenient_or_empty :: "string \<Rightarrow> GTIDSet" where
  "lenient_or_empty text = (case ParseGTIDSetLenient text of None \<Rightarrow> [] | Some s \<Rightarrow> s)"

definition recovery_base :: "goreplication \<Rightarrow> Disk \<Rightarrow> LedgerSegment list \<Rightarrow> string \<Rightarrow> GTIDSet" where
  "recovery_base g d segs startGTID =
     (let base = AddAll [] (lenient_or_empty startGTID)
      in case segs of
           [] \<Rightarrow> base
         | seg # _ \<Rightarrow> (case Contents g d (gName seg) of
                          Inl _ \<Rightarrow> base
                        | Inr c \<Rightarrow> AddAll base (lenient_or_empty (lPrevious (tLog c)))))"

definition recovery_missing :: "GTIDSet \<Rightarrow> GTIDSet \<Rightarrow> string \<Rightarrow> GTIDSet" where
  "recovery_missing base stored checkpointGTID =
     (case ParseGTIDSetLenient checkpointGTID of
        None \<Rightarrow> []
      | Some claimed \<Rightarrow> Minus (Minus claimed base) stored)"

definition recovery_restart :: "goreplication \<Rightarrow> Disk \<Rightarrow> GTIDSet \<Rightarrow> LedgerSegment list \<Rightarrow> GTIDSet" where
  "recovery_restart g d base valid = (if base = [] then [] else foldl (add_contents g d) base valid)"

definition recoverySets :: "goreplication \<Rightarrow> Disk \<Rightarrow> LedgerSegment list \<Rightarrow> LedgerSegment list \<Rightarrow> string \<Rightarrow> string
    \<Rightarrow> string \<times> string" where
  "recoverySets g d segs valid checkpointGTID startGTID =
     (let base = recovery_base g d segs startGTID;
          stored = foldl (add_contents g d) [] segs
      in (String (recovery_missing base stored checkpointGTID), String (recovery_restart g d base valid)))"

definition storageRecoveryText :: string where
  "storageRecoveryText = ''Do not start this task again and do not restore the damaged segment or any later one; replay from this task stops before it. Create a new task from a GTID the source still has''"

definition valid_text :: "string \<Rightarrow> string list \<Rightarrow> string" where
  "valid_text segment valid =
     (case valid of
        [] \<Rightarrow> '' No segment before '' @ segment @ '' is left to restore.''
      | [v] \<Rightarrow> '' The segment before '' @ segment @ '' ('' @ v @ '') was written before the damage and still restores.''
      | v # _ \<Rightarrow> '' The '' @ format_int (int (length valid)) @ '' segments before '' @ segment @ '' ('' @ v @ '' to '' @
                  last valid @ '') were written before the damage and still restore.'')"

definition storageMessage :: "StorageProblem \<Rightarrow> string" where
  "storageMessage p =
     pDetail p @ '' This is the re-dump damage that loses transactions.''
     @ (if pMissing p \<noteq> '''' then '' Transactions the checkpoint lists that no segment holds: '' @ pMissing p @ ''.'' else '''')
     @ valid_text (pSegment p) (pValid p) @ '' '' @ storageRecoveryText
     @ (if pRestart p \<noteq> ''''
        then '': start mode GTID with gtid_set '' @ pRestart p @ '' continues right after those segments and fetches the missing transactions again. Do it before the source purges them.''
        else ''.'')
     @ '' Leave these files for forensics.''"

definition zero_problem :: StorageProblem where
  "zero_problem = \<lparr>pMessage = '''', pSegment = '''', pDetail = '''', pReason = '''', pMissing = '''', pValid = [], pRestart = ''''\<rparr>"

definition lower_index :: "LedgerSegment list \<Rightarrow> LedgerSegment \<Rightarrow> LedgerSegment list" where
  "lower_index before seg = filter (\<lambda>prev. nSeq (gNamed prev) < nSeq (gNamed seg)) before"

definition damage_problem :: "goreplication \<Rightarrow> Disk \<Rightarrow> LedgerSegment list \<Rightarrow> LedgerSegment list \<Rightarrow> LedgerSegment
    \<Rightarrow> string \<Rightarrow> string \<Rightarrow> string \<Rightarrow> string \<Rightarrow> StorageProblem" where
  "damage_problem g d segs before seg detail checkpointGTID startGTID flavor =
     (let valid = lower_index before seg;
          (missing, restart) = (if isMariaDBStorage flavor then ('''', '''')
                                else recoverySets g d segs valid checkpointGTID startGTID);
          problem = zero_problem\<lparr>pSegment := gName seg, pDetail := detail, pValid := map gName valid,
                                 pMissing := missing, pRestart := restart\<rparr>
      in problem\<lparr>pMessage := storageMessage problem\<rparr>)"

fun damage_loop :: "goreplication \<Rightarrow> Disk \<Rightarrow> LedgerSegment list \<Rightarrow> string \<Rightarrow> string \<Rightarrow> string
    \<Rightarrow> LedgerSegment list \<Rightarrow> LedgerSegment list \<Rightarrow> StorageProblem option" where
  "damage_loop g d segs checkpointGTID startGTID flavor before [] = None"
| "damage_loop g d segs checkpointGTID startGTID flavor before (seg # rest) =
     (case segmentDamage g d (gName seg) (nSource (gNamed seg)) of
        None \<Rightarrow> damage_loop g d segs checkpointGTID startGTID flavor (before @ [seg]) rest
      | Some detail \<Rightarrow> Some (damage_problem g d segs before seg detail checkpointGTID startGTID flavor))"

definition Damage :: "goreplication \<Rightarrow> Disk \<Rightarrow> string \<Rightarrow> string \<Rightarrow> string \<Rightarrow> StorageProblem option" where
  "Damage g d checkpointGTID startGTID flavor =
     (case Segments d of
        Inl _ \<Rightarrow> None
      | Inr segs \<Rightarrow> damage_loop g d segs checkpointGTID startGTID flavor [] segs)"

definition IsDamaged :: "goreplication \<Rightarrow> Disk \<Rightarrow> bool" where
  "IsDamaged g d =
     (case Segments d of
        Inl _ \<Rightarrow> False
      | Inr segs \<Rightarrow> list_ex (\<lambda>seg. segmentDamage g d (gName seg) (nSource (gNamed seg)) \<noteq> None) segs)"

definition seal_size_reason :: "Disk \<Rightarrow> string \<Rightarrow> string option" where
  "seal_size_reason d name =
     (case (kSealSize d name, kFile d name) of
        (Some sealed, Some bs) \<Rightarrow>
          if sealed \<ge> 0 \<and> int (length bs) \<noteq> sealed
          then Some (''it is '' @ format_int (int (length bs)) @ '' bytes on disk, but it was '' @
                     format_int sealed @ '' bytes at seal (.seal-sha256)'')
          else None
      | _ \<Rightarrow> None)"

definition contents_reason :: "goreplication \<Rightarrow> Disk \<Rightarrow> string \<Rightarrow> string option" where
  "contents_reason g d name =
     (case Contents g d name of
        Inl e \<Rightarrow> if is_corrupt e then Some (UnreadableReason e) else None
      | Inr _ \<Rightarrow> None)"

definition SegmentUnreadable :: "goreplication \<Rightarrow> Disk \<Rightarrow> string \<Rightarrow> string option" where
  "SegmentUnreadable g d name =
     (case ClassifySegment name of
        None \<Rightarrow> None
      | Some named \<Rightarrow>
         if nOpen named then None
         else if segmentDamage g d name (nSource named) \<noteq> None then None
         else (case contents_reason g d name of
                 Some reason \<Rightarrow> Some reason
               | None \<Rightarrow> (case sealedSegmentCorrupt g d name of
                           Some reason \<Rightarrow> Some reason
                         | None \<Rightarrow> seal_size_reason d name)))"

definition unreadable_problem :: "LedgerSegment list \<Rightarrow> LedgerSegment \<Rightarrow> string \<Rightarrow> StorageProblem" where
  "unreadable_problem before seg reason =
     (let detail = ''Segment '' @ gName seg @ '' is not readable: '' @ reason @ ''.''
      in zero_problem\<lparr>pSegment := gName seg, pReason := reason, pDetail := detail,
           pValid := map gName (lower_index before seg),
           pMessage := detail @ '' Its bytes on disk are damaged; replay and the recovery window stop before it, and it and every later segment are left out. Restore it from object storage or the source if either still has it, and leave the file for forensics.''\<rparr>)"

fun unreadable_loop :: "goreplication \<Rightarrow> Disk \<Rightarrow> LedgerSegment list \<Rightarrow> LedgerSegment list \<Rightarrow> StorageProblem option" where
  "unreadable_loop g d before [] = None"
| "unreadable_loop g d before (seg # rest) =
     (if nOpen (gNamed seg) then unreadable_loop g d (before @ [seg]) rest
      else case SegmentUnreadable g d (gName seg) of
             None \<Rightarrow> unreadable_loop g d (before @ [seg]) rest
           | Some reason \<Rightarrow> Some (unreadable_problem before seg reason))"

definition Unreadable :: "goreplication \<Rightarrow> Disk \<Rightarrow> StorageProblem option" where
  "Unreadable g d = (case Segments d of Inl _ \<Rightarrow> None | Inr segs \<Rightarrow> unreadable_loop g d [] segs)"

end
