(* ===== verification/Bin_Ledger_Props.thy ===== *)
theory Bin_Ledger_Props
  imports Bin_Ledger
begin

text \<open>
  The ledger's answers: the stored set is the union of what the readable segments hold and its holes
  are the gaps the start set does not cover; the damage verdict names the first damaged segment; the
  recovery sets account for every transaction the checkpoint claims; an event position goes backwards
  exactly when the positions are not sorted.
\<close>

section \<open>Stored transactions\<close>

definition event_gtids :: "GTIDEventRef list \<Rightarrow> (string \<times> int) set" where
  "event_gtids evs = {(to_lower (evUUID ev), evSeq ev) | ev. ev \<in> set evs \<and> evUUID ev \<noteq> '''' \<and> 0 < evSeq ev}"

definition seg_gtids :: "goreplication \<Rightarrow> Disk \<Rightarrow> LedgerSegment \<Rightarrow> (string \<times> int) set" where
  "seg_gtids g d seg = (case Contents g d (gName seg) of Inl _ \<Rightarrow> {} | Inr c \<Rightarrow> event_gtids (lEvents (tLog c)))"

definition seqs_ok :: "goreplication \<Rightarrow> Disk \<Rightarrow> bool" where
  "seqs_ok g d \<longleftrightarrow> (\<forall>name c. Contents g d name = Inr c \<longrightarrow> (\<forall>ev \<in> set (lEvents (tLog c)). evSeq ev < max_int64))"

lemma Contents_set:
  assumes "seqs_ok g d" and "Contents g d name = Inr c"
  shows "canonical (tGTIDs c) \<and> gtids (tGTIDs c) = event_gtids (lEvents (tLog c))"
proof -
  have "tGTIDs c = AddEvents [] (lEvents (tLog c))"
    using assms(2) by (auto simp: Contents_def ReadSegmentContents_def readSegmentContents_def split: option.splits prod.splits)
  moreover have "\<forall>ev \<in> set (lEvents (tLog c)). evSeq ev < max_int64" using assms by (auto simp: seqs_ok_def)
  ultimately show ?thesis using AddEvents_ok [of "[]" "lEvents (tLog c)"] by (simp add: event_gtids_def)
qed

lemma add_contents_ok:
  assumes "seqs_ok g d" and "canonical out"
  shows "canonical (add_contents g d out seg) \<and> gtids (add_contents g d out seg) = gtids out \<union> seg_gtids g d seg"
proof (cases "Contents g d (gName seg)")
  case (Inr c)
  then show ?thesis using Contents_set [OF assms(1) Inr] AddAll_ok [OF assms(2), of "tGTIDs c"]
    by (simp add: add_contents_def seg_gtids_def)
qed (simp add: assms add_contents_def seg_gtids_def)

lemma fold_contents_ok:
  assumes "seqs_ok g d"
  shows "canonical out \<Longrightarrow> canonical (foldl (add_contents g d) out segs)
    \<and> gtids (foldl (add_contents g d) out segs) = gtids out \<union> (\<Union>seg \<in> set segs. seg_gtids g d seg)"
proof (induction segs arbitrary: out)
  case (Cons seg segs)
  show ?case using Cons.IH add_contents_ok [OF assms Cons.prems, of seg] by auto
qed simp

lemma SealedStored_filter:
  "SealedStored g d = foldl (add_contents g d) [] (filter (\<lambda>s. \<not> nOpen (gNamed s)) (segments_or_none d))"
proof -
  have "foldl (\<lambda>out seg. if nOpen (gNamed seg) then out else add_contents g d out seg) out segs
      = foldl (add_contents g d) out (filter (\<lambda>s. \<not> nOpen (gNamed s)) segs)" for out segs
    by (induction segs arbitrary: out) auto
  then show ?thesis by (simp add: SealedStored_def)
qed

lemma Stored_ok:
  assumes "seqs_ok g d"
  shows "canonical (Stored g d) \<and> gtids (Stored g d) = (\<Union>seg \<in> set (segments_or_none d). seg_gtids g d seg)"
  using fold_contents_ok [OF assms canonical_Nil(1)] by (simp add: Stored_def)

lemma StoredHoles_ok:
  assumes "canonical s" and "canonical start"
  shows "canonical (StoredHoles s start) \<and> gtids (StoredHoles s start) =
    {(k, n). n \<in> interior {m. (k, m) \<in> gtids s}} - gtids start"
  using InteriorGaps_ok [OF assms(1)] Minus_ok [of "InteriorGaps s" start] assms by (simp add: StoredHoles_def)

section \<open>The first damaged segment\<close>

definition damaged :: "goreplication \<Rightarrow> Disk \<Rightarrow> LedgerSegment \<Rightarrow> bool" where
  "damaged g d seg \<longleftrightarrow> segmentDamage g d (gName seg) (nSource (gNamed seg)) \<noteq> None"

lemma damage_loop_None:
  "damage_loop g d segs cp st fl before rest = None \<longleftrightarrow> (\<forall>s \<in> set rest. \<not> damaged g d s)"
  by (induction rest arbitrary: before) (auto simp: damaged_def split: option.split)

lemma damage_loop_Some:
  "damage_loop g d segs cp st fl before rest = Some p \<Longrightarrow>
   \<exists>mid seg tail detail. rest = mid @ seg # tail \<and> (\<forall>s \<in> set mid. \<not> damaged g d s)
     \<and> segmentDamage g d (gName seg) (nSource (gNamed seg)) = Some detail
     \<and> p = damage_problem g d segs (before @ mid) seg detail cp st fl"
proof (induction rest arbitrary: before)
  case (Cons s rest)
  show ?case
  proof (cases "segmentDamage g d (gName s) (nSource (gNamed s))")
    case None
    then obtain mid seg tail detail where "rest = mid @ seg # tail" "\<forall>x \<in> set mid. \<not> damaged g d x"
        "segmentDamage g d (gName seg) (nSource (gNamed seg)) = Some detail"
        "p = damage_problem g d segs (before @ s # mid) seg detail cp st fl"
      using Cons.IH [of "before @ [s]"] Cons.prems by auto
    then show ?thesis using None
      by (intro exI [of _ "s # mid"] exI [of _ seg] exI [of _ tail] exI [of _ detail]) (simp add: damaged_def)
  next
    case (Some detail)
    then show ?thesis using Cons.prems
      by (intro exI [of _ "[]"] exI [of _ s] exI [of _ rest] exI [of _ detail]) simp
  qed
qed simp

lemma damage_problem_fields [simp]:
  "pSegment (damage_problem g d segs before seg detail cp st fl) = gName seg"
  "pDetail (damage_problem g d segs before seg detail cp st fl) = detail"
  "pValid (damage_problem g d segs before seg detail cp st fl) = map gName (lower_index before seg)"
  "\<not> isMariaDBStorage fl \<Longrightarrow>
   (pMissing (damage_problem g d segs before seg detail cp st fl), pRestart (damage_problem g d segs before seg detail cp st fl))
     = recoverySets g d segs (lower_index before seg) cp st"
  by (simp_all add: damage_problem_def Let_def case_prod_unfold zero_problem_def)

lemma Damage_Some:
  assumes "Damage g d cp st fl = Some p"
  obtains before seg rest detail where "Segments d = Inr (before @ seg # rest)"
    "\<forall>s \<in> set before. \<not> damaged g d s" "segmentDamage g d (gName seg) (nSource (gNamed seg)) = Some detail"
    "p = damage_problem g d (before @ seg # rest) before seg detail cp st fl"
proof -
  obtain segs where s: "Segments d = Inr segs" "damage_loop g d segs cp st fl [] segs = Some p"
    using assms by (auto simp: Damage_def split: sum.splits)
  then show thesis using damage_loop_Some [OF s(2)] that by auto
qed

section \<open>Recovery sets\<close>

definition headers_ok :: "goreplication \<Rightarrow> Disk \<Rightarrow> bool" where
  "headers_ok g d \<longleftrightarrow> (\<forall>name c. Contents g d name = Inr c \<longrightarrow> canonical (lenient_or_empty (lPrevious (tLog c))))"
lemma recovery_base_ok:
  assumes "canonical (lenient_or_empty startGTID)"
    and "\<And>c. Contents g d (gName (hd segs)) = Inr c \<Longrightarrow> canonical (lenient_or_empty (lPrevious (tLog c)))"
  shows "canonical (recovery_base g d segs startGTID)"
    and "gtids (lenient_or_empty startGTID) \<subseteq> gtids (recovery_base g d segs startGTID)"
proof -
  have "canonical (recovery_base g d segs startGTID)
      \<and> gtids (lenient_or_empty startGTID) \<subseteq> gtids (recovery_base g d segs startGTID)"
  proof (cases segs)
    case Nil
    then show ?thesis using AddAll_ok [OF canonical_Nil(1) assms(1)] by (simp add: recovery_base_def)
  next
    case (Cons seg rest)
    note a = AddAll_ok [OF canonical_Nil(1) assms(1)]
    show ?thesis
    proof (cases "Contents g d (gName seg)")
      case (Inr c)
      show ?thesis using a AddAll_ok [OF conjunct1 [OF a] assms(2) [of c]] Inr Cons
        by (auto simp: recovery_base_def)
    qed (use a Cons in \<open>simp add: recovery_base_def\<close>)
  qed
  then show "canonical (recovery_base g d segs startGTID)"
    and "gtids (lenient_or_empty startGTID) \<subseteq> gtids (recovery_base g d segs startGTID)" by auto
qed

lemma recovery_sets_ok:
  assumes "seqs_ok g d" and "canonical base" and "set valid \<subseteq> set segs"
    and "canonical (lenient_or_empty cp)"
  defines "stored \<equiv> foldl (add_contents g d) [] segs"
  shows "gtids (recovery_missing base stored cp) = gtids (lenient_or_empty cp) - gtids base - gtids stored"
    and "gtids (recovery_restart g d base valid) \<inter> gtids (recovery_missing base stored cp) = {}"
    and "base \<noteq> [] \<Longrightarrow> gtids (recovery_restart g d base valid) = gtids base \<union> (\<Union>s \<in> set valid. seg_gtids g d s)"
proof -
  have stored: "canonical stored" "gtids stored = (\<Union>s \<in> set segs. seg_gtids g d s)"
    using fold_contents_ok [OF assms(1) canonical_Nil(1), of segs] by (simp_all add: stored_def)
  show m: "gtids (recovery_missing base stored cp) = gtids (lenient_or_empty cp) - gtids base - gtids stored"
  proof (cases "ParseGTIDSetLenient cp")
    case (Some claimed)
    then have c: "lenient_or_empty cp = claimed" by (simp add: lenient_or_empty_def)
    note m1 = Minus_ok [OF assms(4) [unfolded c] assms(2)]
    show ?thesis using m1 Minus_ok [OF conjunct1 [OF m1] stored(1)] Some c by (simp add: recovery_missing_def)
  qed (simp add: recovery_missing_def lenient_or_empty_def)
  show r: "gtids (recovery_restart g d base valid) = gtids base \<union> (\<Union>s \<in> set valid. seg_gtids g d s)" if "base \<noteq> []"
    using that fold_contents_ok [OF assms(1,2), of valid] by (simp add: recovery_restart_def)
  show "gtids (recovery_restart g d base valid) \<inter> gtids (recovery_missing base stored cp) = {}"
  proof (cases "base = []")
    case False
    then show ?thesis using r m stored(2) assms(3) by auto
  qed (simp add: recovery_restart_def)
qed

section \<open>Positions\<close>

text \<open>The end positions of the complete events of a file, zeros left out.\<close>

function log_positions :: "byte list \<Rightarrow> nat \<Rightarrow> int list" where
  "log_positions bs offset =
     (if offset + EventHeaderSize \<le> length bs then
        (let eventSize = nat (uint32_at bs offset 9); p = uint32_at bs offset 13
         in if eventSize < EventHeaderSize \<or> offset + eventSize > length bs then []
            else (if p = 0 then [] else [p]) @ log_positions bs (offset + eventSize))
      else [])"
  by pat_completeness auto

termination log_positions
  by (relation "measure (\<lambda>(bs, offset). length bs - offset)") (auto simp: EventHeaderSize_def)

declare log_positions.simps [simp del]

lemma uint32_nonneg [simp]: "0 \<le> uint32_at bs offset i"
  by (simp add: uint32_at_def)

lemma log_positions_pos: "p \<in> set (log_positions bs offset) \<Longrightarrow> 0 < p"
proof (induction bs offset rule: log_positions.induct)
  case (1 bs offset)
  then show ?case
    using uint32_nonneg [of bs offset 13]
    by (subst (asm) log_positions.simps) (auto simp: Let_def order_less_le split: if_splits)
qed

lemma regress_loop_spec:
  "0 \<le> prev \<Longrightarrow> regress_loop bs offset prev = None \<longleftrightarrow> sorted (prev # log_positions bs offset)"
proof (induction bs offset prev rule: regress_loop.induct)
  case (1 bs offset prev)
  define n where "n = nat (uint32_at bs offset 9)"
  define p where "p = uint32_at bs offset 13"
  note unfold = regress_loop.simps [of bs offset prev] log_positions.simps [of bs offset]
  show ?case
  proof (cases "offset + EventHeaderSize \<le> length bs \<and> \<not> (n < EventHeaderSize \<or> offset + n > length bs)")
    case False
    then show ?thesis by (auto simp: unfold Let_def n_def)
  next
    case True
    have p0: "0 \<le> p" by (simp add: p_def)
    have pos: "\<forall>x \<in> set (log_positions bs (offset + n)). 0 < x" using log_positions_pos by blast
    have u: "regress_loop bs offset prev = (if p = 0 then regress_loop bs (offset + n) prev
        else if prev \<noteq> 0 \<and> p < prev then Some (p, prev)
        else regress_loop bs (offset + n) (if p > prev then p else prev))"
      "log_positions bs offset = (if p = 0 then [] else [p]) @ log_positions bs (offset + n)"
      using True by (simp_all add: unfold Let_def n_def p_def)
    show ?thesis
    proof (cases "p = 0 \<or> prev \<noteq> 0 \<and> p < prev")
      case True': True
      show ?thesis
      proof (cases "p = 0")
        case True
        then show ?thesis
          using "1.IH"(1) [OF _ n_def p_def] \<open>_ \<and> _\<close> "1.prems" u by simp
      qed (use True' u in auto)
    next
      case False
      then have m: "(if p > prev then p else prev) = p" "prev \<le> p" using "1.prems" p0 by auto
      then have "regress_loop bs (offset + n) p = None \<longleftrightarrow> sorted (p # log_positions bs (offset + n))"
        using "1.IH"(2) [OF _ n_def p_def] True False p0 by simp
      moreover have "regress_loop bs offset prev = regress_loop bs (offset + n) p"
        unfolding u(1) m(1) using False by auto
      moreover have "log_positions bs offset = p # log_positions bs (offset + n)"
        using u(2) False by simp
      ultimately show ?thesis using m(2) by fastforce
    qed
  qed
qed

section \<open>Properties\<close>

definition demo_pos :: "byte \<Rightarrow> byte list" where
  "demo_pos p = [7, 0, 0, 0, 2, 0, 0, 0, 0, 19, 0, 0, 0, p, 0, 0, 0, 0, 0]"

definition demo_back :: "byte list" where
  "demo_back = durableMagic @ demo_pos 90 @ demo_pos 0 @ demo_pos 50"

definition demo_disk :: Disk where
  "demo_disk = \<lparr>kDir = ''/data/t1'',
     kEntries = Inr [(''bin.000002.open.e3'', False), (''lost'', True), (''bin.000001'', False)],
     kFile = (\<lambda>n. if n = ''bin.000001'' then Some demo_bytes
                   else if n = ''bin.000002.open.e3'' then Some demo_back else None),
     kSealSize = (\<lambda>_. None)\<rparr>"

definition demo_names :: "LedgerSegment list" where
  "demo_names = [\<lparr>gName = ''bin.000001'', gNamed = \<lparr>nSource = ''bin.000001'', nSeq = 1, nEpoch = - 1, nOpen = False\<rparr>\<rparr>,
     \<lparr>gName = ''bin.000002.open.e3'', gNamed = \<lparr>nSource = ''bin.000002'', nSeq = 2, nEpoch = 3, nOpen = True\<rparr>\<rparr>]"

lemma demo_segments: "Segments demo_disk = Inr demo_names"
  by code_simp

definition demo_log :: SegmentGTIDLog where
  "demo_log = \<lparr>lPrevious = '''', lHasPrevious = False,
     lEvents = [\<lparr>evUUID = ''abababab-abab-abab-abab-abababababab'', evSeq = 9, evOffset = 24, evWhen = unix_time 7\<rparr>]\<rparr>"

lemma demo_contents:
  "Contents demo_go demo_disk ''bin.000001'' =
     Inr \<lparr>tLog = demo_log, tGTIDs = [(''abababab-abab-abab-abab-abababababab'', [GTIDRange 9 9])]\<rparr>"
  "Contents demo_go demo_disk ''bin.000002.open.e3'' = Inr \<lparr>tLog = zero_log, tGTIDs = []\<rparr>"
  by code_simp+

lemma demo_contents_cases:
  "Contents demo_go demo_disk name = Inr c \<Longrightarrow> tLog c = demo_log \<or> tLog c = zero_log"
  using demo_contents
  by (cases "name = ''bin.000001''"; cases "name = ''bin.000002.open.e3''") (auto simp: Contents_def demo_disk_def)

lemma demo_seqs_ok: "seqs_ok demo_go demo_disk"
  by (auto simp: seqs_ok_def demo_log_def zero_log_def max_int64_def dest!: demo_contents_cases)

lemma demo_damage: "map_option pSegment (Damage demo_go demo_disk '''' '''' ''mysql'') = Some ''bin.000002.open.e3''"
  by code_simp

text \<open>C37. The stored set is exactly what the readable segments of the directory hold, the sealed part is
  what its sealed segments hold, and the holes are exactly the sequences that lie between two stored
  ones of the same source, are stored nowhere and are not in the start set. (No segment may hold
  the transaction number MaxInt64, at which interval arithmetic wraps.)\<close>

theorem ledger_sets_exact:
  assumes "seqs_ok g d" and "canonical start"
  shows "gtids (Stored g d) = (\<Union>seg \<in> set (segments_or_none d). seg_gtids g d seg)
    \<and> gtids (SealedStored g d) = (\<Union>seg \<in> {s \<in> set (segments_or_none d). \<not> nOpen (gNamed s)}. seg_gtids g d seg)
    \<and> gtids (Holes g d start) = {(k, n). (k, n) \<notin> gtids (Stored g d) \<and> (\<exists>a < n. (k, a) \<in> gtids (Stored g d))
          \<and> (\<exists>b > n. (k, b) \<in> gtids (Stored g d))} - gtids start"
proof (intro conjI)
  note s = Stored_ok [OF assms(1)]
  from s show "gtids (Stored g d) = (\<Union>seg \<in> set (segments_or_none d). seg_gtids g d seg)" by simp
  show "gtids (SealedStored g d) = (\<Union>seg \<in> {s \<in> set (segments_or_none d). \<not> nOpen (gNamed s)}. seg_gtids g d seg)"
    using fold_contents_ok [OF assms(1) canonical_Nil(1)] by (simp add: SealedStored_filter)
  show "gtids (Holes g d start) = {(k, n). (k, n) \<notin> gtids (Stored g d) \<and> (\<exists>a < n. (k, a) \<in> gtids (Stored g d))
          \<and> (\<exists>b > n. (k, b) \<in> gtids (Stored g d))} - gtids start"
    using StoredHoles_ok [OF conjunct1 [OF s] assms(2)] by (auto simp: Holes_def interior_def)
qed

theorem ledger_sets_exact_witness:
  "gtids (Stored demo_go demo_disk) = {(''abababab-abab-abab-abab-abababababab'', 9)}"
proof -
  have l: "to_lower ''abababab-abab-abab-abab-abababababab'' = ''abababab-abab-abab-abab-abababababab''" by code_simp
  show ?thesis using ledger_sets_exact [OF demo_seqs_ok canonical_Nil(1)] demo_contents l
    by (auto simp: segments_or_none_def demo_segments demo_names_def seg_gtids_def event_gtids_def
        demo_log_def zero_log_def)
qed

text \<open>The damage verdict names the first damaged segment in binlog order: nothing before it is
  damaged, the segments listed as still restorable are those before it with a lower source index, and
  there is a verdict exactly when some segment is damaged.\<close>

lemma damage_names_first:
  "(Damage g d cp st fl \<noteq> None \<longleftrightarrow> IsDamaged g d)
   \<and> (\<forall>p. Damage g d cp st fl = Some p \<longrightarrow>
       (\<exists>before seg rest. Segments d = Inr (before @ seg # rest) \<and> pSegment p = gName seg \<and> damaged g d seg
          \<and> (\<forall>s \<in> set before. \<not> damaged g d s)
          \<and> pValid p = map gName (filter (\<lambda>s. nSeq (gNamed s) < nSeq (gNamed seg)) before)))"
proof
  have d: "damaged g d = (\<lambda>s. segmentDamage g d (gName s) (nSource (gNamed s)) \<noteq> None)"
    by (simp add: damaged_def fun_eq_iff)
  show "Damage g d cp st fl \<noteq> None \<longleftrightarrow> IsDamaged g d"
  proof (cases "Segments d")
    case (Inr segs)
    show ?thesis using damage_loop_None [of g d segs cp st fl "[]" segs] Inr
      by (auto simp: Damage_def IsDamaged_def list_ex_iff d)
  qed (simp add: Damage_def IsDamaged_def)
  show "\<forall>p. Damage g d cp st fl = Some p \<longrightarrow> (\<exists>before seg rest. Segments d = Inr (before @ seg # rest)
      \<and> pSegment p = gName seg \<and> damaged g d seg \<and> (\<forall>s \<in> set before. \<not> damaged g d s)
      \<and> pValid p = map gName (filter (\<lambda>s. nSeq (gNamed s) < nSeq (gNamed seg)) before))"
  proof (intro allI impI)
    fix p assume "Damage g d cp st fl = Some p"
    then obtain before seg rest detail where s: "Segments d = Inr (before @ seg # rest)"
        "\<forall>s \<in> set before. \<not> damaged g d s" "segmentDamage g d (gName seg) (nSource (gNamed seg)) = Some detail"
        "p = damage_problem g d (before @ seg # rest) before seg detail cp st fl"
      by (rule Damage_Some)
    then show "\<exists>before seg rest. Segments d = Inr (before @ seg # rest) \<and> pSegment p = gName seg \<and> damaged g d seg
          \<and> (\<forall>s \<in> set before. \<not> damaged g d s)
          \<and> pValid p = map gName (filter (\<lambda>s. nSeq (gNamed s) < nSeq (gNamed seg)) before)"
      by (intro exI [of _ before] exI [of _ seg] exI [of _ rest]) (simp add: damaged_def lower_index_def)
  qed
qed


definition demo_claimed :: string where
  "demo_claimed = ''abababab-abab-abab-abab-abababababab:1-12''"

definition demo_start :: string where
  "demo_start = ''abababab-abab-abab-abab-abababababab:1-8''"

lemma demo_canonical_texts:
  "canonical (lenient_or_empty demo_claimed)" "canonical (lenient_or_empty demo_start)" "canonical (lenient_or_empty '''')"
proof -
  have "lenient_or_empty demo_claimed = [(''abababab-abab-abab-abab-abababababab'', [GTIDRange 1 12])]"
    "lenient_or_empty demo_start = [(''abababab-abab-abab-abab-abababababab'', [GTIDRange 1 8])]"
    "lenient_or_empty '''' = []"
    by code_simp+
  then show "canonical (lenient_or_empty demo_claimed)" "canonical (lenient_or_empty demo_start)"
      "canonical (lenient_or_empty '''')"
    by (simp_all add: canonical_def range_ok_def max_int64_def)
qed

definition demo_problem :: StorageProblem where
  "demo_problem = the (Damage demo_go demo_disk demo_claimed demo_start ''mysql'')"

lemma demo_problem:
  "Damage demo_go demo_disk demo_claimed demo_start ''mysql'' = Some demo_problem"
proof -
  have "Damage demo_go demo_disk demo_claimed demo_start ''mysql'' \<noteq> None" by code_simp
  then show ?thesis by (auto simp: demo_problem_def)
qed


text \<open>The position check is exactly sortedness: a binlog file has a regression if and only if the end
  positions of the complete events of the file, zeros left out, do not ascend.\<close>

lemma positions_regress_iff_unsorted:
  "positionRegresses bs \<noteq> None \<longleftrightarrow> take 4 bs = durableMagic \<and> \<not> sorted (log_positions bs 4)"
  using regress_loop_spec [of 0 bs 4] log_positions_pos [of _ bs 4]
  by (auto simp: positionRegresses_def less_imp_le)

end
