(* ===== verification/Asr_Gtid.thy ===== *)
theory Asr_Gtid
  imports Bin_Ledger_Props
begin

text \<open>
  The GTID hole judgements of \<open>internal/assurance/gtid.go\<close>: a sequence missing inside one segment,
  between two neighbouring source files, and across a source switch. The reader of GTID texts of
  go-mysql is the parameter \<open>gomysql\<close> of \<open>ParseGTIDSet\<close>. A Go map the code fills is an association
  list; its order stands for the iteration order.
\<close>

section \<open>Holes between files\<close>

definition eventsContained :: "GTIDSet \<Rightarrow> GTIDEventRef list \<Rightarrow> bool" where
  "eventsContained s events = list_all (HasEvent s) events"

definition num_of :: "int64 go_map \<Rightarrow> string \<Rightarrow> int64" where
  "num_of m k = (case map_of m k of Some n \<Rightarrow> n | None \<Rightarrow> 0)"

definition max_seqs :: "GTIDEventRef list \<Rightarrow> int64 go_map" where
  "max_seqs events =
     foldl (\<lambda>m ev. if evSeq ev > num_of m (evUUID ev) then AList.update (evUUID ev) (evSeq ev) m else m) [] events"

definition min_seqs :: "GTIDEventRef list \<Rightarrow> int64 go_map" where
  "min_seqs events =
     foldl (\<lambda>m ev. case map_of m (evUUID ev) of
                     Some cur \<Rightarrow> if evSeq ev < cur then AList.update (evUUID ev) (evSeq ev) m else m
                   | None \<Rightarrow> AList.update (evUUID ev) (evSeq ev) m) [] events"

definition previousContainsBeyond :: "GTIDSet \<Rightarrow> GTIDEventRef list \<Rightarrow> bool" where
  "previousContainsBeyond prev events =
     list_ex (\<lambda>x. Has prev (to_lower (fst x)) (wrap64 (snd x + 1))) (max_seqs events)"

definition eventSeqHole :: "GTIDEventRef list \<Rightarrow> GTIDEventRef list \<Rightarrow> bool" where
  "eventSeqHole prev nxt =
     (if prev = [] \<or> nxt = [] then False
      else list_ex (\<lambda>x. case map_of (min_seqs nxt) (fst x) of
                          Some m \<Rightarrow> m > wrap64 (snd x + 1)
                        | None \<Rightarrow> False) (max_seqs prev))"

definition gtidHole :: "(string \<Rightarrow> 'err + string) \<Rightarrow> SegmentGTIDLog \<Rightarrow> SegmentGTIDLog \<Rightarrow> bool" where
  "gtidHole gomysql prev nxt =
     (if \<not> lHasPrevious prev \<and> lEvents prev = [] \<and> \<not> lHasPrevious nxt \<and> lEvents nxt = [] then False
      else if lHasPrevious nxt then
        (case ParseGTIDSet gomysql (lPrevious nxt) of
           Inl _ \<Rightarrow> False
         | Inr nextSet \<Rightarrow>
             if \<not> eventsContained nextSet (lEvents prev) then True
             else previousContainsBeyond nextSet (lEvents prev))
      else eventSeqHole (lEvents prev) (lEvents nxt))"

definition switchHole :: "(string \<Rightarrow> 'err + string) \<Rightarrow> GTIDSet \<Rightarrow> GTIDEventRef list \<Rightarrow> SegmentGTIDLog \<Rightarrow> bool" where
  "switchHole gomysql stored before nxt =
     (if \<not> lHasPrevious nxt then eventSeqHole before (lEvents nxt)
      else case ParseGTIDSet gomysql (lPrevious nxt) of
             Inl _ \<Rightarrow> False
           | Inr header \<Rightarrow> \<not> Contains stored header)"

section \<open>Holes inside a segment\<close>

definition list_at :: "'v list go_map \<Rightarrow> string \<Rightarrow> 'v list" where
  "list_at m k = (case map_of m k of Some xs \<Rightarrow> xs | None \<Rightarrow> [])"

lemma list_at_Nil: "list_at [] k = []"
  by (simp add: list_at_def)

definition by_uuid :: "GTIDEventRef list \<Rightarrow> int64 list go_map" where
  "by_uuid events =
     foldl (\<lambda>m ev. if evUUID ev = '''' \<or> evSeq ev \<le> 0 then m
                    else AList.update (evUUID ev)
                           (list_at m (evUUID ev) @ [evSeq ev]) m) [] events"

fun first_gap :: "int64 list \<Rightarrow> int64 option" where
  "first_gap (a # b # rest) = (if b \<le> wrap64 (a + 1) then first_gap (b # rest) else Some (wrap64 (a + 1)))"
| "first_gap _ = None"

definition pick_gap :: "(string \<times> int64) option \<Rightarrow> string \<times> int64 list \<Rightarrow> (string \<times> int64) option" where
  "pick_gap found x =
     (case first_gap (sort (snd x)) of
        None \<Rightarrow> found
      | Some missing \<Rightarrow>
         (case found of
            None \<Rightarrow> Some (fst x, missing)
          | Some (foundUUID, foundSeq) \<Rightarrow>
              if missing < foundSeq \<or> missing = foundSeq \<and> fst x < foundUUID
              then Some (fst x, missing) else found))"

definition intraSegmentHole :: "GTIDEventRef list \<Rightarrow> (string \<times> int64) option" where
  "intraSegmentHole events = foldl pick_gap None (by_uuid events)"

section \<open>Lemmas\<close>

definition seqs_of :: "GTIDEventRef list \<Rightarrow> string \<Rightarrow> int set" where
  "seqs_of events u = {evSeq ev | ev. ev \<in> set events \<and> evUUID ev = u \<and> u \<noteq> '''' \<and> 0 < evSeq ev}"

lemma by_uuid_ok:
  "distinct (map fst (by_uuid events)) \<and> (\<forall>u. set (list_at (by_uuid events) u) = seqs_of events u)"
proof -
  define step where "step = (\<lambda>(m :: int64 list go_map) (ev :: GTIDEventRef). if evUUID ev = '''' \<or> evSeq ev \<le> 0 then m
      else AList.update (evUUID ev) (list_at m (evUUID ev) @ [evSeq ev]) m)"
  have "distinct (map fst (foldl step m evs)) \<and>
      (\<forall>u. set (list_at (foldl step m evs) u)
         = set (list_at m u) \<union> seqs_of evs u)"
    if "distinct (map fst m)" for m evs
    using that
  proof (induction evs arbitrary: m)
    case (Cons ev evs)
    have d: "distinct (map fst (step m ev))" using Cons.prems by (simp add: step_def distinct_update)
    have "set (list_at (step m ev) u)
        = set (list_at m u) \<union> seqs_of [ev] u" for u
      by (auto simp: step_def seqs_of_def list_at_def alist_simps split: option.split)
    moreover have "seqs_of (ev # evs) u = seqs_of [ev] u \<union> seqs_of evs u" for u
      by (auto simp: seqs_of_def)
    ultimately show ?case using Cons.IH [OF d] by (simp add: Un_assoc)
  qed (simp add: seqs_of_def)
  from this [of "[]" events] show ?thesis by (simp add: by_uuid_def step_def list_at_Nil)
qed

lemma first_gap_ok:
  assumes "\<forall>n \<in> set xs. 0 < n \<and> n < max_int64" and "sorted xs"
  shows "(first_gap xs = None \<longrightarrow> interior (set xs) = {})
    \<and> (\<forall>n. first_gap xs = Some n \<longrightarrow> n \<in> interior (set xs) \<and> (\<forall>m \<in> interior (set xs). n \<le> m))"
  using assms
proof (induction xs rule: first_gap.induct)
  case (1 a b rest)
  have w: "wrap64 (a + 1) = a + 1"
    using "1.prems"(1) by (intro wrap64_id) (auto simp: min_int64_def max_int64_def)
  have lo: "\<forall>x \<in> set rest. b \<le> x" "a \<le> b" using "1.prems"(2) by auto
  show ?case
  proof (cases "b \<le> a + 1")
    case True
    have "interior (set (a # b # rest)) = interior (set (b # rest))"
    proof (rule set_eqI)
      fix n
      show "n \<in> interior (set (a # b # rest)) \<longleftrightarrow> n \<in> interior (set (b # rest))"
        using True lo by (fastforce simp: interior_def)
    qed
    then show ?thesis using 1 True w by simp
  next
    case False
    have "a + 1 \<in> interior (set (a # b # rest))"
      using False lo by (auto simp: interior_def intro!: bexI [of _ b])
    moreover have "a + 1 \<le> m" if "m \<in> interior (set (a # b # rest))" for m
      using that lo by (auto simp: interior_def)
    ultimately show ?thesis using False w by simp
  qed
qed (auto simp: interior_def)

definition gap_of :: "string \<times> int64 list \<Rightarrow> int64 option" where
  "gap_of x = first_gap (sort (snd x))"

lemma pick_gap_fold:
  "(foldl pick_gap found xs = None \<longleftrightarrow> found = None \<and> (\<forall>x \<in> set xs. gap_of x = None))
   \<and> (\<forall>u n. foldl pick_gap found xs = Some (u, n) \<longrightarrow>
       (found = Some (u, n) \<or> (\<exists>x \<in> set xs. fst x = u \<and> gap_of x = Some n))
       \<and> (\<forall>x \<in> set xs. \<forall>m. gap_of x = Some m \<longrightarrow> n \<le> m)
       \<and> (\<forall>v m. found = Some (v, m) \<longrightarrow> n \<le> m))"
proof (induction xs arbitrary: found)
  case (Cons x xs)
  note IH = Cons.IH [of "pick_gap found x"]
  have none: "pick_gap found x = None \<longleftrightarrow> found = None \<and> gap_of x = None"
    by (auto simp: pick_gap_def gap_of_def split: option.splits if_splits)
  have some: "(found = Some (u, n) \<or> fst x = u \<and> gap_of x = Some n)
      \<and> (\<forall>m. gap_of x = Some m \<longrightarrow> n \<le> m) \<and> (\<forall>v m. found = Some (v, m) \<longrightarrow> n \<le> m)"
    if "pick_gap found x = Some (u, n)" for u n
    using that by (auto simp: pick_gap_def gap_of_def split: option.splits if_splits)
  show ?case
  proof (cases "pick_gap found x")
    case None
    then show ?thesis using IH none by simp
  next
    case (Some p)
    obtain v k where p: "p = (v, k)" by fastforce
    have not_none: "foldl pick_gap found (x # xs) \<noteq> None" using IH Some by simp
    note s = some [OF Some [unfolded p]]
    have ex: "\<not> (found = None \<and> gap_of x = None)" using none Some by simp
    show ?thesis
    proof (intro conjI allI impI)
      show "foldl pick_gap found (x # xs) = None \<longleftrightarrow> found = None \<and> (\<forall>y \<in> set (x # xs). gap_of y = None)"
        using not_none ex by auto
    next
      fix u n assume r: "foldl pick_gap found (x # xs) = Some (u, n)"
      have f: "Some (v, k) = Some (u, n) \<or> (\<exists>y \<in> set xs. fst y = u \<and> gap_of y = Some n)"
        and le: "\<forall>y \<in> set xs. \<forall>m. gap_of y = Some m \<longrightarrow> n \<le> m" "n \<le> k"
        using IH r Some p by auto
      show "found = Some (u, n) \<or> (\<exists>y \<in> set (x # xs). fst y = u \<and> gap_of y = Some n)"
        using f s by auto
      show "\<forall>y \<in> set (x # xs). \<forall>m. gap_of y = Some m \<longrightarrow> n \<le> m"
        using le s by (auto intro: order_trans)
      show "n \<le> m" if "found = Some (v', m)" for v' m
        using le s that by (auto intro: order_trans)
    qed
  qed
qed auto

lemma gap_of_ok:
  assumes "\<forall>ev \<in> set events. evSeq ev < max_int64"
  shows "x \<in> set (by_uuid events) \<Longrightarrow> set (snd x) = seqs_of events (fst x)"
    and "x \<in> set (by_uuid events) \<Longrightarrow> gap_of x = None \<Longrightarrow> interior (seqs_of events (fst x)) = {}"
    and "x \<in> set (by_uuid events) \<Longrightarrow> gap_of x = Some n \<Longrightarrow>
      n \<in> interior (seqs_of events (fst x)) \<and> (\<forall>m \<in> interior (seqs_of events (fst x)). n \<le> m)"
    and "interior (seqs_of events u) \<noteq> {} \<Longrightarrow> \<exists>xs. (u, xs) \<in> set (by_uuid events)"
proof -
  note d = by_uuid_ok [of events]
  have at: "set (snd x) = seqs_of events (fst x)" if "x \<in> set (by_uuid events)" for x
  proof -
    have "map_of (by_uuid events) (fst x) = Some (snd x)" using d that by (metis map_of_is_SomeI prod.collapse)
    then have "list_at (by_uuid events) (fst x) = snd x" by (simp add: list_at_def)
    then show ?thesis using d by metis
  qed
  have "0 < k \<and> k < max_int64" if "k \<in> seqs_of events u" for k u
    using that assms by (auto simp: seqs_of_def)
  then have g: "(gap_of x = None \<longrightarrow> interior (seqs_of events (fst x)) = {})
      \<and> (\<forall>n. gap_of x = Some n \<longrightarrow> n \<in> interior (seqs_of events (fst x)) \<and> (\<forall>m \<in> interior (seqs_of events (fst x)). n \<le> m))"
    if "x \<in> set (by_uuid events)" for x
    using first_gap_ok [of "sort (snd x)"] at [OF that] by (simp add: gap_of_def)
  show "x \<in> set (by_uuid events) \<Longrightarrow> set (snd x) = seqs_of events (fst x)" by (rule at)
  show "x \<in> set (by_uuid events) \<Longrightarrow> gap_of x = None \<Longrightarrow> interior (seqs_of events (fst x)) = {}"
    using g by blast
  show "x \<in> set (by_uuid events) \<Longrightarrow> gap_of x = Some n \<Longrightarrow>
      n \<in> interior (seqs_of events (fst x)) \<and> (\<forall>m \<in> interior (seqs_of events (fst x)). n \<le> m)"
    using g by blast
  show "\<exists>xs. (u, xs) \<in> set (by_uuid events)" if "interior (seqs_of events u) \<noteq> {}"
  proof -
    have "seqs_of events u \<noteq> {}" using that by (auto simp: interior_def)
    then have "list_at (by_uuid events) u \<noteq> []" using d by (metis empty_set)
    then show ?thesis by (auto simp: list_at_def dest: map_of_SomeD split: option.splits)
  qed
qed

text \<open>The hole inside a segment is found exactly: the check reports nothing if and only if the
  stored sequences of every source are consecutive, and otherwise it names a source and a sequence
  that is missing between two stored ones, the smallest such sequence of the whole segment.\<close>

lemma intra_segment_hole_exact:
  assumes "\<forall>ev \<in> set events. evSeq ev < max_int64"
  shows "(intraSegmentHole events = None \<longleftrightarrow> (\<forall>u. interior (seqs_of events u) = {}))
    \<and> (\<forall>u n. intraSegmentHole events = Some (u, n) \<longrightarrow>
        n \<in> interior (seqs_of events u) \<and> (\<forall>v. \<forall>m \<in> interior (seqs_of events v). n \<le> m))"
proof -
  note fold = pick_gap_fold [of None "by_uuid events", folded intraSegmentHole_def]
  note gap = gap_of_ok [OF assms]
  have all: "interior (seqs_of events u) = {}" if "\<forall>x \<in> set (by_uuid events). gap_of x = None" for u
  proof (rule ccontr)
    assume n: "\<not> ?thesis"
    then obtain xs where "(u, xs) \<in> set (by_uuid events)" using gap(4) by blast
    then show False using gap(2) [of "(u, xs)"] that n by auto
  qed
  have some: "n \<in> interior (seqs_of events u) \<and> (\<forall>v. \<forall>m \<in> interior (seqs_of events v). n \<le> m)"
    if r: "intraSegmentHole events = Some (u, n)" for u n
  proof (intro conjI allI ballI)
    obtain x where x: "x \<in> set (by_uuid events)" "fst x = u" "gap_of x = Some n" using fold r by auto
    then show "n \<in> interior (seqs_of events u)" using gap(3) [OF x(1,3)] by simp
    fix v m assume m: "m \<in> interior (seqs_of events v)"
    then obtain ys where y: "(v, ys) \<in> set (by_uuid events)" using gap(4) by blast
    then obtain k where k: "gap_of (v, ys) = Some k" using gap(2) [OF y] m by fastforce
    then have "k \<le> m" using gap(3) [OF y] m by simp
    moreover have "n \<le> k" using fold r y k by auto
    ultimately show "n \<le> m" by simp
  qed
  show ?thesis
  proof (intro conjI)
    show "intraSegmentHole events = None \<longleftrightarrow> (\<forall>u. interior (seqs_of events u) = {})"
    proof
      assume e: "\<forall>u. interior (seqs_of events u) = {}"
      show "intraSegmentHole events = None"
        using some e by (cases "intraSegmentHole events") auto
    qed (use fold all in simp)
  qed (use some in blast)
qed

definition demo_events :: "GTIDEventRef list" where
  "demo_events = map (\<lambda>(u, n). \<lparr>evUUID = u, evSeq = n, evOffset = 0, evWhen = 0\<rparr>)
     [(''b'', 4), (''a'', 9), (''b'', 6), (''a'', 7), (''b'', 7)]"

end
