(* ===== verification/Asr_Cover.thy ===== *)
theory Asr_Cover
  imports Asr_Gtid
begin

text \<open>
  Coverage and the restore prechecks of \<open>internal/assurance/cover.go\<close>: whether a second or one MySQL
  GTID lies inside the retained chain, the prefix of segments that covers it with the stop offset, and
  the lines of a restore plan. A pointer to a time is an optional instant; \<open>Inl\<close> is the error.
\<close>

section \<open>Data\<close>

record Break =
  bFiles :: "string list"
  bReason :: string

record CoverSegment =
  vName :: string
  vSource :: string
  vSourceIdentity :: string
  vEpoch :: int64
  vLocalPath :: string
  vObjectKey :: string
  vUploadState :: string
  vChecksum :: string
  vSHA256 :: string
  vSize :: int64
  vLastVerified :: instant
  vReadable :: bool
  vPrevious :: string
  vHasPrevious :: bool
  vEvents :: "CoverEvent list"
  vEnd :: int

record CoverQuery =
  qAt :: "instant option"
  qGTID :: string
  qLatest :: bool

record CoverageSegment =
  wName :: string
  wSourceIdentity :: string
  wEpoch :: int64
  wFirstEventTime :: "instant option"
  wLastEventTime :: "instant option"
  wGTIDSet :: string
  wLocalPath :: string
  wObjectKey :: string
  wUploadState :: string
  wChecksum :: string
  wSHA256 :: string
  wSize :: int64
  wLastVerifiedAt :: "instant option"

record CoveragePos =
  cpSegment :: string
  cpPos :: int

record CoverageWindow =
  cwEarliest :: "instant option"
  cwLatest :: "instant option"
  cwBreaks :: "Break list"

record CoverResult =
  crCovered :: bool
  crReason :: string
  crSegments :: "CoverageSegment list"
  crStartFrom :: "CoveragePos option"
  crStopAt :: "CoveragePos option"
  crWindow :: CoverageWindow
  crApplied :: string

section \<open>The window and one segment's view\<close>

definition copiedEvent :: "CoverEvent \<Rightarrow> bool" where
  "copiedEvent ev \<longleftrightarrow> cCounts ev \<and> cWhen ev \<noteq> 0"

definition widen_window :: "CoverageWindow \<Rightarrow> CoverEvent \<Rightarrow> CoverageWindow" where
  "widen_window out ev =
     (if \<not> copiedEvent ev then out
      else out\<lparr>cwEarliest := (case cwEarliest out of None \<Rightarrow> Some (cWhen ev)
                              | Some e \<Rightarrow> if cWhen ev < e then Some (cWhen ev) else Some e),
               cwLatest := (case cwLatest out of None \<Rightarrow> Some (cWhen ev)
                            | Some l \<Rightarrow> if cWhen ev > l then Some (cWhen ev) else Some l)\<rparr>)"

definition coverWindow :: "CoverSegment list \<Rightarrow> Break list \<Rightarrow> CoverageWindow" where
  "coverWindow segs breaks =
     foldl widen_window \<lparr>cwEarliest = None, cwLatest = None, cwBreaks = breaks\<rparr> (concat (map vEvents segs))"

definition add_cover :: "GTIDSet \<Rightarrow> CoverEvent \<Rightarrow> GTIDSet" where
  "add_cover s ev = (if cSeq ev > 0 \<and> cUUID ev \<noteq> '''' then Add s (cUUID ev) (cSeq ev) (cSeq ev) else s)"

definition gtidText :: "CoverEvent list \<Rightarrow> string" where
  "gtidText events = (let s = foldl add_cover [] events in if IsEmpty s then '''' else String s)"

definition span_of :: "CoverEvent list \<Rightarrow> span" where
  "span_of events = foldl (\<lambda>s ev. if \<not> copiedEvent ev then s else widen s (cWhen ev)) zero_span events"

definition segmentView :: "CoverSegment \<Rightarrow> CoverageSegment" where
  "segmentView s =
     (let sp = span_of (vEvents s)
      in \<lparr>wName = vName s, wSourceIdentity = vSourceIdentity s, wEpoch = vEpoch s,
          wFirstEventTime = (if spOk sp then Some (spFirst sp) else None),
          wLastEventTime = (if spOk sp then Some (spLast sp) else None),
          wGTIDSet = gtidText (vEvents s), wLocalPath = vLocalPath s, wObjectKey = vObjectKey s,
          wUploadState = vUploadState s, wChecksum = vChecksum s, wSHA256 = vSHA256 s, wSize = vSize s,
          wLastVerifiedAt = (if vLastVerified s \<noteq> 0 then Some (vLastVerified s) else None)\<rparr>)"

definition uncovered :: "string \<Rightarrow> CoverageWindow \<Rightarrow> CoverResult" where
  "uncovered reason window =
     \<lparr>crCovered = False, crReason = reason, crSegments = [], crStartFrom = None, crStopAt = None,
      crWindow = window, crApplied = ''''\<rparr>"

section \<open>Breaks\<close>

definition names_segment :: "string list \<Rightarrow> CoverSegment \<Rightarrow> bool" where
  "names_segment files s = list_ex (\<lambda>f. f \<noteq> '''' \<and> (f = vName s \<or> f = vSource s)) files"

definition namedIndexes :: "CoverSegment list \<Rightarrow> string list \<Rightarrow> nat list" where
  "namedIndexes segs files = filter (\<lambda>i. names_segment files (segs ! i)) [0..<length segs]"

fun breakAt :: "CoverSegment list \<Rightarrow> nat \<Rightarrow> Break list \<Rightarrow> string" where
  "breakAt segs stopSeg [] = ''''"
| "breakAt segs stopSeg (b # bs) =
     (let idxs = namedIndexes segs (bFiles b)
      in if idxs = [] then breakAt segs stopSeg bs
         else (let k = (if length idxs > 1 then last idxs else hd idxs)
               in if stopSeg \<ge> k then bReason b else breakAt segs stopSeg bs))"

section \<open>The covered prefix\<close>

definition applied_set :: "CoverSegment list \<Rightarrow> nat \<Rightarrow> (CoverEvent \<Rightarrow> bool) \<Rightarrow> GTIDSet" where
  "applied_set segs stopSeg tk =
     foldl add_cover [] (concat (map vEvents (take stopSeg segs)) @ filter tk (vEvents (segs ! stopSeg)))"

definition finish_cover :: "CoverSegment list \<Rightarrow> nat \<Rightarrow> int \<Rightarrow> Break list \<Rightarrow> CoverageWindow \<Rightarrow> (CoverEvent \<Rightarrow> bool)
    \<Rightarrow> CoverResult" where
  "finish_cover segs stopSeg stopPos breaks window tk =
     (let reason = breakAt segs stopSeg breaks
      in if reason \<noteq> '''' then uncovered (''falls on break: '' @ reason) window
         else case find (\<lambda>s. \<not> vReadable s) (take (Suc stopSeg) segs) of
                Some s \<Rightarrow> uncovered (''segment '' @ vName s @ '' is not readable'') window
              | None \<Rightarrow>
                 (let applied = applied_set segs stopSeg tk
                  in \<lparr>crCovered = True, crReason = '''', crSegments = map segmentView (take (Suc stopSeg) segs),
                      crStartFrom = Some \<lparr>cpSegment = vName (segs ! 0), cpPos = 4\<rparr>,
                      crStopAt = Some \<lparr>cpSegment = vName (segs ! stopSeg), cpPos = stopPos\<rparr>,
                      crWindow = window,
                      crApplied = (if IsEmpty applied then '''' else String applied)\<rparr>))"

definition indexed_events :: "CoverSegment list \<Rightarrow> (nat \<times> nat \<times> CoverEvent) list" where
  "indexed_events segs =
     concat (map (\<lambda>(i, s). map (\<lambda>(j, ev). (i, j, ev)) (enumerate 0 (vEvents s))) (enumerate 0 segs))"

definition stop_at :: "CoverSegment list \<Rightarrow> instant \<Rightarrow> (nat \<times> int) option" where
  "stop_at segs at =
     foldl (\<lambda>st (i, j, ev). if \<not> copiedEvent ev \<or> cWhen ev > at then st else Some (i, cEnd ev)) None (indexed_events segs)"

definition coverTime :: "CoverSegment list \<Rightarrow> instant \<Rightarrow> Break list \<Rightarrow> CoverageWindow \<Rightarrow> CoverResult" where
  "coverTime segs at breaks window =
     (case (cwEarliest window, cwLatest window) of
        (Some earliest, Some latest) \<Rightarrow>
          if at < earliest then uncovered ''before earliest'' window
          else if at > latest then uncovered ''after latest'' window
          else (case stop_at segs at of
                  None \<Rightarrow> uncovered ''before earliest'' window
                | Some (stopSeg, stopPos) \<Rightarrow>
                    finish_cover segs stopSeg stopPos breaks window (\<lambda>ev. cSeq ev > 0 \<and> \<not> cWhen ev > at))
      | _ \<Rightarrow> uncovered ''empty chain'' window)"

definition looksCoverUUID :: "string \<Rightarrow> bool" where
  "looksCoverUUID s =
     (let parts = split_on CHR ''-'' s; widths = [8, 4, 4, 4, 12]
      in length parts = 5 \<and>
         list_all (\<lambda>(p, w). length p = w \<and>
             list_all (\<lambda>r. \<not> ((r < CHR ''0'' \<or> r > CHR ''9'') \<and> (r < CHR ''a'' \<or> r > CHR ''f''))) p)
           (zip parts widths))"

fun cover_digits :: "int64 \<Rightarrow> string \<Rightarrow> int64 option" where
  "cover_digits seq [] = (if seq \<le> 0 then None else Some seq)"
| "cover_digits seq (r # rs) =
     (if r < CHR ''0'' \<or> r > CHR ''9'' then None
      else (let seq = wrap64 (wrap64 (seq * 10) + digit_val r)
            in if seq \<le> 0 then None else cover_digits seq rs))"

definition parseCoverGTID :: "string \<Rightarrow> string + (string \<times> int64)" where
  "parseCoverGTID raw =
     (let raw = trim_space raw; colon = last_index raw '':''
      in if colon \<le> 0 \<or> colon = int (length raw) - 1 then Inl ''invalid gtid''
         else (let uuid = to_lower (take (nat colon) raw)
               in if \<not> looksCoverUUID uuid then Inl ''invalid gtid''
                  else case cover_digits 0 (drop (nat colon + 1) raw) of
                         None \<Rightarrow> Inl ''invalid gtid''
                       | Some seq \<Rightarrow> Inr (uuid, seq)))"

definition found_at :: "CoverSegment list \<Rightarrow> string \<Rightarrow> int64 \<Rightarrow> (nat \<times> nat) option" where
  "found_at segs uuid seq =
     foldl (\<lambda>st (i, j, ev). if cUUID ev = uuid \<and> cSeq ev = seq then Some (i, j) else st) None (indexed_events segs)"

definition gtid_stop :: "CoverSegment \<Rightarrow> nat \<Rightarrow> int" where
  "gtid_stop s j =
     (case find (\<lambda>ev. cUUID ev \<noteq> '''' \<and> cSeq ev > 0) (drop (Suc j) (vEvents s)) of
        Some ev \<Rightarrow> cOffset ev
      | None \<Rightarrow> vEnd s)"

definition coverGTID :: "CoverSegment list \<Rightarrow> string \<Rightarrow> Break list \<Rightarrow> CoverageWindow \<Rightarrow> string + CoverResult" where
  "coverGTID segs raw breaks window =
     (case parseCoverGTID raw of
        Inl err \<Rightarrow> Inl err
      | Inr (uuid, seq) \<Rightarrow>
         (case found_at segs uuid seq of
            None \<Rightarrow> Inr (uncovered ''gtid is not in the retained window'' window)
          | Some (i, j) \<Rightarrow>
              (let stopPos = gtid_stop (segs ! i) j
               in Inr (finish_cover segs i stopPos breaks window (\<lambda>ev. cSeq ev > 0 \<and> cOffset ev < stopPos)))))"

definition truncate_second :: "instant \<Rightarrow> instant" where
  "truncate_second t = t - t mod second"

definition Cover :: "CoverSegment list \<Rightarrow> CoverQuery \<Rightarrow> Break list \<Rightarrow> string + CoverResult" where
  "Cover segs q breaks =
     (if qAt q \<noteq> None \<and> trim_space (qGTID q) \<noteq> '''' then Inl ''at and gtid cannot both be set''
      else if qAt q = None \<and> trim_space (qGTID q) = '''' \<and> \<not> qLatest q then Inl ''at or gtid is required''
      else (let window = coverWindow segs breaks
            in if trim_space (qGTID q) \<noteq> '''' then coverGTID segs (trim_space (qGTID q)) breaks window
               else if qLatest q then
                 (case cwLatest window of
                    None \<Rightarrow> Inr (uncovered ''empty chain'' window)
                  | Some at \<Rightarrow> Inr (coverTime segs at breaks window))
               else Inr (coverTime segs (truncate_second (the (qAt q))) breaks window)))"

section \<open>Prechecks of a restore plan\<close>

record PlanCheck =
  hID :: string
  hDescription :: string
  hHow :: string
  hResult :: string

definition plan_check :: "string \<Rightarrow> string \<Rightarrow> string \<Rightarrow> string \<Rightarrow> PlanCheck" where
  "plan_check i descr how result = \<lparr>hID = i, hDescription = descr, hHow = how, hResult = result\<rparr>"

definition WindowPrecheck :: "CoverResult \<Rightarrow> PlanCheck" where
  "WindowPrecheck cov =
     (if crCovered cov then plan_check ''window'' ''the point is inside the retained chain'' ''GET /coverage'' ''green''
      else (let reason = (if crReason cov = '''' then ''the point is not covered'' else crReason cov)
            in plan_check ''window'' reason ''GET /coverage'' ''red''))"

definition minute :: duration where "minute = 60 * second"

definition coverFreshDefault :: duration where "coverFreshDefault = 48 * 60 * minute"

definition verifiedFresh :: "instant option \<Rightarrow> duration \<Rightarrow> instant \<Rightarrow> bool" where
  "verifiedFresh at fresh now =
     (case at of
        None \<Rightarrow> False
      | Some t \<Rightarrow> if t = 0 then False else if t > now + minute then False else time_sub now t \<le> fresh)"

fun checksum_loop :: "CoverageSegment list \<Rightarrow> duration \<Rightarrow> instant \<Rightarrow> string \<Rightarrow> PlanCheck" where
  "checksum_loop [] fresh now yellow =
     (if yellow \<noteq> ''''
      then plan_check ''checksum'' yellow ''run a verify pass or accept the local bytes'' ''yellow''
      else plan_check ''checksum'' ''every segment is checksum match or locally verified''
             ''catalog checksum, or last_verified_at'' ''green'')"
| "checksum_loop (s # ss) fresh now yellow =
     (let state = to_lower (trim_space (wChecksum s))
      in if state = ''mismatch'' then
           plan_check ''checksum'' (wName s @ '' checksum is mismatch'') ''re-upload the segment from the local file'' ''red''
         else if state = ''match'' then checksum_loop ss fresh now yellow
         else if wLocalPath s \<noteq> '''' \<and> verifiedFresh (wLastVerifiedAt s) fresh now then checksum_loop ss fresh now yellow
         else if wLocalPath s \<noteq> '''' then
           checksum_loop ss fresh now
             (if yellow = '''' then wName s @ '' is local and has not been verified recently'' else yellow)
         else plan_check ''checksum'' (wName s @ '' has no local copy and checksum is not match'')
                ''restore the object or re-verify the segment'' ''red'')"

definition ChecksumPrecheck :: "CoverResult \<Rightarrow> duration \<Rightarrow> instant \<Rightarrow> PlanCheck" where
  "ChecksumPrecheck cov fresh now =
     (if \<not> crCovered cov
      then plan_check ''checksum'' ''the point is not covered''
             ''checksum match, or a local file verified within the verify window'' ''red''
      else checksum_loop (crSegments cov) (if fresh \<le> 0 then coverFreshDefault else fresh) now '''')"

definition emptySet :: "string \<Rightarrow> string" where
  "emptySet s = (if trim_space s = '''' then ''(empty)'' else s)"

definition gtidIntersects :: "GTIDSet \<Rightarrow> GTIDSet \<Rightarrow> bool" where
  "gtidIntersects a b =
     list_ex (\<lambda>x. list_ex (\<lambda>iv. list_ex (\<lambda>h. gHi h \<ge> gLo iv \<and> gLo h \<le> gHi iv) (lookup a (fst x))) (snd x)) b"

definition is_error :: "'err + 'a \<Rightarrow> bool" where
  "is_error r = (case r of Inl _ \<Rightarrow> True | Inr _ \<Rightarrow> False)"

definition set_or_empty :: "'err + GTIDSet \<Rightarrow> GTIDSet" where
  "set_or_empty r = (case r of Inl _ \<Rightarrow> [] | Inr s \<Rightarrow> s)"

definition FullBackupPrecheck :: "(string \<Rightarrow> 'err + string) \<Rightarrow> string \<Rightarrow> string \<Rightarrow> string \<Rightarrow> PlanCheck" where
  "FullBackupPrecheck gomysql start applied full =
     (let how = ''SELECT @@gtid_executed''; full = trim_space full;
          check = (\<lambda>descr result. plan_check ''full_backup_gtid'' descr how result)
      in if full = '''' then
           check (''paste the full backup @@gtid_executed; it must contain '' @ emptySet start @
                  '' and must not intersect '' @ emptySet applied) ''manual''
         else case ParseGTIDSet gomysql full of
                Inl _ \<Rightarrow> check ''full_backup_gtid is not a MySQL GTID set'' ''red''
              | Inr got \<Rightarrow>
                 (let base = ParseGTIDSet gomysql start; use = ParseGTIDSet gomysql applied
                  in if trim_space start \<noteq> '''' \<and> is_error base
                     then check ''chain start GTID set is not a MySQL GTID set'' ''red''
                     else if trim_space applied \<noteq> '''' \<and> is_error use
                     then check ''applied GTID set is not a MySQL GTID set'' ''red''
                     else (let hole = (\<not> Contains got (set_or_empty base));
                               overlap = gtidIntersects got (set_or_empty use)
                           in if hole \<and> overlap
                              then check ''full backup GTID has a hole against the chain start and overlaps transactions this plan applies'' ''red''
                              else if hole then check ''full backup GTID has a hole against the chain start'' ''red''
                              else if overlap then check ''full backup GTID overlaps transactions this plan applies'' ''red''
                              else check ''full backup GTID meets the chain start without overlapping the applied transactions'' ''green'')))"

definition ManualPrechecks :: "string \<Rightarrow> PlanCheck list" where
  "ManualPrechecks client =
     (let client = (if client = '''' then ''mysqlbinlog'' else client)
      in [plan_check ''target_settings'' ''target gtid_mode, binlog_format, log_replica_updates, super_read_only, and version''
            ''SELECT @@gtid_mode, @@binlog_format, @@log_replica_updates, @@super_read_only, @@version'' ''manual'',
          plan_check ''client_version'' (client @ '' version must be at least the source version'')
            (client @ '' --version'') ''manual''])"

end
