(* ===== verification/Asr_Cover_Props.thy ===== *)
theory Asr_Cover_Props
  imports Asr_Cover
begin

text \<open>
  What a coverage answer promises: a covered point has a readable, unbroken prefix that ends at the
  last event of the point, with the transactions of that prefix; a restore plan is green against a
  full backup exactly when the backup reaches the chain start and repeats nothing.
\<close>

section \<open>The last match of a scan\<close>

lemma foldl_last_match:
  "foldl (\<lambda>st x. if P x then Some (f x) else st) st xs =
     (if filter P xs = [] then st else Some (f (last (filter P xs))))"
  by (induction xs arbitrary: st) auto

lemma last_filter_split:
  assumes "filter P xs \<noteq> []"
  obtains pre post where "xs = pre @ last (filter P xs) # post" "P (last (filter P xs))" "\<forall>y \<in> set post. \<not> P y"
proof -
  define y where "y = last (filter P xs)"
  have "filter P xs = butlast (filter P xs) @ [y]" using assms by (simp add: y_def)
  then have "filter P (rev xs) = y # rev (butlast (filter P xs))" by (metis rev_filter rev.simps(2) rev_rev_ident)
  then obtain u v where "rev xs = u @ y # v" "\<forall>x \<in> set u. \<not> P x" "P y"
    by (auto simp: filter_eq_Cons_iff)
  moreover from this(1) have "rev (rev xs) = rev v @ y # rev u" by (simp del: rev_rev_ident)
  then have "xs = rev v @ y # rev u" by (simp only: rev_rev_ident)
  ultimately show thesis using that [of "rev v" "rev u"] unfolding y_def by (metis set_rev)
qed

definition event_at :: "CoverSegment list \<Rightarrow> nat \<Rightarrow> nat \<Rightarrow> CoverEvent \<Rightarrow> bool" where
  "event_at segs i j ev \<longleftrightarrow> i < length segs \<and> j < length (vEvents (segs ! i)) \<and> ev = vEvents (segs ! i) ! j"

lemma set_indexed_events: "(i, j, ev) \<in> set (indexed_events segs) \<longleftrightarrow> event_at segs i j ev"
proof -
  have "(i, j, ev) \<in> set (indexed_events segs)
      \<longleftrightarrow> (\<exists>s. (i, s) \<in> set (enumerate 0 segs) \<and> (j, ev) \<in> set (enumerate 0 (vEvents s)))"
    by (auto simp: indexed_events_def)
  then show ?thesis by (auto simp: in_set_enumerate_eq event_at_def)
qed

definition before_pos :: "nat \<times> nat \<times> CoverEvent \<Rightarrow> nat \<times> nat \<times> CoverEvent \<Rightarrow> bool" where
  "before_pos x y \<longleftrightarrow> fst x < fst y \<or> fst x = fst y \<and> fst (snd x) < fst (snd y)"

lemma sorted_block: "sorted_wrt before_pos (map (\<lambda>(j, ev). (i, j, ev)) (enumerate n evs))"
  by (induction evs arbitrary: n) (auto simp: before_pos_def in_set_enumerate_eq)

lemma sorted_indexed: "sorted_wrt before_pos (indexed_events segs)"
proof -
  have "sorted_wrt before_pos (concat (map (\<lambda>(i, s). map (\<lambda>(j, ev). (i, j, ev)) (enumerate 0 (vEvents s))) (enumerate n segs)))" for n
  proof (induction segs arbitrary: n)
    case (Cons s segs)
    let ?rest = "concat (map (\<lambda>(i, s). map (\<lambda>(j, ev). (i, j, ev)) (enumerate 0 (vEvents s))) (enumerate (Suc n) segs))"
    have "n < fst y" if "y \<in> set ?rest" for y using that by (auto simp: in_set_enumerate_eq)
    moreover have "fst x = n" if "x \<in> set (map (\<lambda>(j, ev). (n, j, ev)) (enumerate 0 (vEvents s)))" for x
      using that by auto
    ultimately have "before_pos x y"
      if "x \<in> set (map (\<lambda>(j, ev). (n, j, ev)) (enumerate 0 (vEvents s)))" "y \<in> set ?rest" for x y
      using that by (simp add: before_pos_def)
    then show ?case using Cons.IH [of "Suc n"] sorted_block [of n 0 "vEvents s"]
      by (simp only: enumerate_simps list.map concat.simps sorted_wrt_append split_conv) blast
  qed simp
  then show ?thesis by (simp add: indexed_events_def)
qed

text \<open>The place a scan over all events settles on: it matches, and every other match comes before it.\<close>

lemma scan_last:
  assumes "foldl (\<lambda>st x. if P x then Some (f x) else st) None (indexed_events segs) = Some r"
  obtains i j ev where "event_at segs i j ev" "P (i, j, ev)" "r = f (i, j, ev)"
    "\<And>i' j' ev'. event_at segs i' j' ev' \<Longrightarrow> P (i', j', ev') \<Longrightarrow> i' < i \<or> i' = i \<and> j' \<le> j"
proof -
  let ?xs = "indexed_events segs"
  have ne: "filter P ?xs \<noteq> []" and r: "r = f (last (filter P ?xs))"
    using assms by (auto simp: foldl_last_match split: if_splits)
  obtain pre post where s: "?xs = pre @ last (filter P ?xs) # post" "P (last (filter P ?xs))" "\<forall>y \<in> set post. \<not> P y"
    by (rule last_filter_split [OF ne])
  obtain i j ev where l: "last (filter P ?xs) = (i, j, ev)" by (metis prod_cases3)
  have "event_at segs i j ev"
    using s(1) l set_indexed_events by (metis in_set_conv_decomp)
  moreover have "i' < i \<or> i' = i \<and> j' \<le> j" if e: "event_at segs i' j' ev'" and P: "P (i', j', ev')" for i' j' ev'
  proof -
    have "(i', j', ev') \<in> set ?xs" using e by (simp add: set_indexed_events)
    then have "(i', j', ev') \<in> set pre \<or> (i', j', ev') = (i, j, ev)" using s P l by (metis Un_iff set_ConsD set_append)
    moreover have "before_pos x (i, j, ev)" if "x \<in> set pre" for x
      using sorted_indexed [of segs] s(1) l that by (metis sorted_wrt_append list.set_intros(1))
    ultimately show ?thesis by (metis before_pos_def fst_conv snd_conv less_imp_le order_refl prod.inject)
  qed
  ultimately show thesis using that s(2) r l by metis
qed

lemma stop_at_last:
  assumes "stop_at segs at = Some (i, e)"
  obtains j ev where "event_at segs i j ev" "copiedEvent ev" "cWhen ev \<le> at" "e = cEnd ev"
    "\<And>i' j' ev'. event_at segs i' j' ev' \<Longrightarrow> copiedEvent ev' \<Longrightarrow> cWhen ev' \<le> at \<Longrightarrow> i' < i \<or> i' = i \<and> j' \<le> j"
proof -
  let ?P = "\<lambda>x :: nat \<times> nat \<times> CoverEvent. copiedEvent (snd (snd x)) \<and> cWhen (snd (snd x)) \<le> at"
  have "(\<lambda>st (i, j, ev). if \<not> copiedEvent ev \<or> cWhen ev > at then st else Some (i, cEnd ev))
      = (\<lambda>st x. if ?P x then Some (fst x, cEnd (snd (snd x))) else st)"
    by (auto simp: fun_eq_iff)
  with assms have "foldl (\<lambda>st x. if ?P x then Some (fst x, cEnd (snd (snd x))) else st) None (indexed_events segs) = Some (i, e)"
    by (simp add: stop_at_def)
  then show thesis by (rule scan_last) (use that in auto)
qed

lemma found_at_last:
  assumes "found_at segs uuid seq = Some (i, j)"
  shows "\<exists>ev. event_at segs i j ev \<and> cUUID ev = uuid \<and> cSeq ev = seq"
proof -
  let ?P = "\<lambda>x :: nat \<times> nat \<times> CoverEvent. cUUID (snd (snd x)) = uuid \<and> cSeq (snd (snd x)) = seq"
  have "(\<lambda>st (i, j, ev). if cUUID ev = uuid \<and> cSeq ev = seq then Some (i, j) else st)
      = (\<lambda>st x. if ?P x then Some (fst x, fst (snd x)) else st)"
    by (auto simp: fun_eq_iff)
  with assms have "foldl (\<lambda>st x. if ?P x then Some (fst x, fst (snd x)) else st) None (indexed_events segs) = Some (i, j)"
    by (simp add: found_at_def)
  then show ?thesis by (rule scan_last) auto
qed

section \<open>Breaks and the prefix\<close>

lemma set_namedIndexes: "k \<in> set (namedIndexes segs files) \<longleftrightarrow> k < length segs \<and> names_segment files (segs ! k)"
  by (auto simp: namedIndexes_def)

lemma breakAt_empty:
  assumes "\<forall>b \<in> set breaks. bReason b \<noteq> ''''" and "breakAt segs stop breaks = ''''"
    and "b \<in> set breaks" and "k < length segs" and "names_segment (bFiles b) (segs ! k)"
  shows "\<exists>k'. stop < k' \<and> k' < length segs \<and> names_segment (bFiles b) (segs ! k')"
  using assms
proof (induction breaks)
  case (Cons c breaks)
  let ?idxs = "namedIndexes segs (bFiles c)"
  show ?case
  proof (cases "b = c")
    case True
    then have ne: "?idxs \<noteq> []" using Cons.prems(4,5) set_namedIndexes by (metis empty_iff empty_set)
    define m where "m = (if length ?idxs > 1 then last ?idxs else hd ?idxs)"
    have "m \<in> set ?idxs" using ne by (auto simp: m_def)
    moreover have "\<not> stop \<ge> m" using Cons.prems(1,2) ne by (auto simp: m_def Let_def split: if_splits)
    ultimately show ?thesis using True set_namedIndexes by (metis not_le_imp_less)
  next
    case False
    then have "breakAt segs stop breaks = ''''"
      using Cons.prems(1,2) by (auto simp: Let_def split: if_splits)
    then show ?thesis using Cons False by auto
  qed
qed simp

lemma finish_covered:
  assumes "crCovered (finish_cover segs i p breaks w tk)"
  shows "breakAt segs i breaks = ''''" and "\<forall>s \<in> set (take (Suc i) segs). vReadable s"
    and "crSegments (finish_cover segs i p breaks w tk) = map segmentView (take (Suc i) segs)"
    and "crStopAt (finish_cover segs i p breaks w tk) = Some \<lparr>cpSegment = vName (segs ! i), cpPos = p\<rparr>"
    and "crApplied (finish_cover segs i p breaks w tk) =
      (if IsEmpty (applied_set segs i tk) then '''' else String (applied_set segs i tk))"
proof -
  have b: "breakAt segs i breaks = ''''" and f: "find (\<lambda>s. \<not> vReadable s) (take (Suc i) segs) = None"
    using assms by (auto simp: finish_cover_def uncovered_def Let_def split: if_splits option.splits)
  then show "breakAt segs i breaks = ''''" "\<forall>s \<in> set (take (Suc i) segs). vReadable s"
    by (auto simp: find_None_iff)
  show "crSegments (finish_cover segs i p breaks w tk) = map segmentView (take (Suc i) segs)"
    "crStopAt (finish_cover segs i p breaks w tk) = Some \<lparr>cpSegment = vName (segs ! i), cpPos = p\<rparr>"
    "crApplied (finish_cover segs i p breaks w tk) =
      (if IsEmpty (applied_set segs i tk) then '''' else String (applied_set segs i tk))"
    using b f by (simp_all add: finish_cover_def Let_def)
qed

lemma coverTime_covered:
  assumes "crCovered (coverTime segs at breaks w)"
  obtains i e where "stop_at segs at = Some (i, e)"
    "coverTime segs at breaks w = finish_cover segs i e breaks w (\<lambda>ev. cSeq ev > 0 \<and> \<not> cWhen ev > at)"
  using assms by (auto simp: coverTime_def uncovered_def split: option.splits if_splits)

section \<open>Applied transactions\<close>

definition cover_gtids :: "CoverEvent list \<Rightarrow> (string \<times> int) set" where
  "cover_gtids evs = {(cUUID ev, cSeq ev) | ev. ev \<in> set evs \<and> 0 < cSeq ev \<and> cUUID ev \<noteq> ''''}"

lemma add_cover_fold:
  "canonical s \<Longrightarrow> \<forall>ev \<in> set evs. cSeq ev < max_int64 \<Longrightarrow>
   canonical (foldl add_cover s evs) \<and> gtids (foldl add_cover s evs) = gtids s \<union> cover_gtids evs"
proof (induction evs arbitrary: s)
  case (Cons ev evs)
  have "canonical (add_cover s ev) \<and> gtids (add_cover s ev) = gtids s \<union> cover_gtids [ev]"
    using Add_ok [OF Cons.prems(1), of "cSeq ev" "cUUID ev" "cSeq ev"] Cons.prems
    by (auto simp: add_cover_def cover_gtids_def)
  moreover have "cover_gtids (ev # evs) = cover_gtids [ev] \<union> cover_gtids evs" by (auto simp: cover_gtids_def)
  ultimately show ?case using Cons.IH [of "add_cover s ev"] Cons.prems(2) by auto
qed (simp add: cover_gtids_def)

definition cover_seqs_ok :: "CoverSegment list \<Rightarrow> bool" where
  "cover_seqs_ok segs \<longleftrightarrow> (\<forall>s \<in> set segs. \<forall>ev \<in> set (vEvents s). cSeq ev < max_int64)"

lemma applied_set_ok:
  assumes "cover_seqs_ok segs" and "i < length segs"
  shows "canonical (applied_set segs i tk) \<and> gtids (applied_set segs i tk) =
    (\<Union>s \<in> set (take i segs). cover_gtids (vEvents s)) \<union> cover_gtids (filter tk (vEvents (segs ! i)))"
proof -
  define evs where "evs = concat (map vEvents (take i segs)) @ filter tk (vEvents (segs ! i))"
  have "\<forall>ev \<in> set evs. cSeq ev < max_int64"
    using assms nth_mem [OF assms(2)] by (auto simp: evs_def cover_seqs_ok_def dest: in_set_takeD)
  from add_cover_fold [OF canonical_Nil(1) this] show ?thesis
    by (auto simp: applied_set_def evs_def cover_gtids_def)
qed

section \<open>The stop after a transaction\<close>

lemma tiles_nth:
  "tiles a evs b \<Longrightarrow> k < length evs \<Longrightarrow>
   a \<le> cOffset (evs ! k) \<and> cOffset (evs ! k) < cEnd (evs ! k) \<and> cEnd (evs ! k) \<le> b
   \<and> (\<forall>l. k < l \<and> l < length evs \<longrightarrow> cEnd (evs ! k) \<le> cOffset (evs ! l))"
proof (induction evs arbitrary: a k)
  case (Cons e evs)
  have t: "tiles (cEnd e) evs b" and o: "cOffset e = a" "a < cEnd e"
    using Cons.prems(1) by (auto simp: EventHeaderSize_def)
  have up: "cEnd e \<le> b"
  proof (cases evs)
    case (Cons x xs)
    then show ?thesis using Cons.IH [OF t, of 0] by simp
  qed (use t in simp)
  have rest: "cEnd e \<le> cOffset (evs ! l)" if "l < length evs" for l using Cons.IH [OF t that] by simp
  show ?case
  proof (cases k)
    case 0
    then show ?thesis using o up rest by (auto simp: nth_Cons split: nat.split)
  next
    case (Suc m)
    then show ?thesis using Cons.IH [OF t, of m] Cons.prems(2) o by (auto simp: nth_Cons split: nat.split)
  qed
qed simp

lemma gtid_stop_cut:
  assumes "tiles a (vEvents s) (vEnd s)" and "j < length (vEvents s)"
  shows "cover_gtids (filter (\<lambda>ev. cOffset ev < gtid_stop s j) (vEvents s)) = cover_gtids (take (Suc j) (vEvents s))"
proof -
  define evs where "evs = vEvents s"
  note t = tiles_nth [OF assms(1) [folded evs_def]]
  have j: "j < length evs" using assms(2) by (simp add: evs_def)
  let ?G = "\<lambda>ev. cUUID ev \<noteq> '''' \<and> cSeq ev > 0"
  have stop: "cOffset (evs ! k) < gtid_stop s j \<longleftrightarrow> k \<le> j" if k: "k < length evs" and g: "?G (evs ! k)" for k
  proof (cases "find ?G (drop (Suc j) evs)")
    case None
    then have "\<not> ?G (evs ! m)" if "j < m" "m < length evs" for m
      using that by (auto simp: find_None_iff in_set_conv_nth dest!: spec [of _ "evs ! m"] spec [of _ "m - Suc j"])
    then have "k \<le> j" using k g by (metis not_le_imp_less)
    moreover have "gtid_stop s j = vEnd s" using None by (simp add: gtid_stop_def evs_def)
    ultimately show ?thesis using t [OF k] by simp
  next
    case (Some x)
    then obtain n where n: "n < length (drop (Suc j) evs)" "x = drop (Suc j) evs ! n" "\<forall>m < n. \<not> ?G (drop (Suc j) evs ! m)"
      by (auto simp: find_Some_iff)
    define l where "l = Suc j + n"
    have l: "l < length evs" "x = evs ! l" "j < l" using n by (simp_all add: l_def)
    have st: "gtid_stop s j = cOffset (evs ! l)" using Some l by (simp add: gtid_stop_def evs_def)
    show ?thesis
    proof (cases "k < l")
      case True
      have "k \<le> j"
      proof (rule ccontr)
        assume "\<not> ?thesis"
        then have "k - Suc j < n" "drop (Suc j) evs ! (k - Suc j) = evs ! k" using True j by (simp_all add: l_def nth_drop)
        then show False using n(3) g by metis
      qed
      then show ?thesis using t [OF k] True l st by fastforce
    next
      case False
      then have "k = l \<or> l < k \<and> k < length evs" using k by auto
      then have "cOffset (evs ! l) \<le> cOffset (evs ! k)" using t [OF l(1)] by auto
      then show ?thesis using st False l by simp
    qed
  qed
  have "set (take (Suc j) evs) = (!) evs ` {0..<Suc j}" using j nth_image [of "Suc j" evs] by simp
  then have pre: "set (take (Suc j) evs) = {evs ! k | k. k \<le> j}" by (auto simp: less_Suc_eq_le)
  have "ev \<in> set evs \<and> cOffset ev < gtid_stop s j \<longleftrightarrow> ev \<in> set (take (Suc j) evs)" if g: "?G ev" for ev
  proof
    assume e: "ev \<in> set evs \<and> cOffset ev < gtid_stop s j"
    then obtain k where k: "k < length evs" "ev = evs ! k" by (auto simp: in_set_conv_nth)
    then have "k \<le> j" using stop [OF k(1)] g e by simp
    then show "ev \<in> set (take (Suc j) evs)" using k pre by auto
  next
    assume "ev \<in> set (take (Suc j) evs)"
    then obtain k where k: "k \<le> j" "ev = evs ! k" using pre by auto
    then have "k < length evs" using j by simp
    then show "ev \<in> set evs \<and> cOffset ev < gtid_stop s j" using stop [of k] g k by simp
  qed
  then show ?thesis unfolding cover_gtids_def evs_def by (simp only: set_filter mem_Collect_eq) blast
qed

section \<open>Properties\<close>

definition demo_seg :: "string \<Rightarrow> CoverEvent list \<Rightarrow> int \<Rightarrow> CoverSegment" where
  "demo_seg name evs e = \<lparr>vName = name, vSource = name, vSourceIdentity = '''', vEpoch = 0, vLocalPath = ''/d/'' @ name,
     vObjectKey = '''', vUploadState = '''', vChecksum = ''match'', vSHA256 = '''', vSize = e, vLastVerified = 0,
     vReadable = True, vPrevious = '''', vHasPrevious = False, vEvents = evs, vEnd = e\<rparr>"

definition demo_ev :: "int \<Rightarrow> int \<Rightarrow> int \<Rightarrow> string \<Rightarrow> int \<Rightarrow> CoverEvent" where
  "demo_ev w off e u n = \<lparr>cWhen = w * second, cOffset = off, cEnd = e, cUUID = u, cSeq = n, cCounts = True\<rparr>"

abbreviation demo_u :: string where
  "demo_u \<equiv> ''abababab-abab-abab-abab-abababababab''"

definition demo_chain :: "CoverSegment list" where
  "demo_chain =
    [demo_seg ''bin.000001'' [demo_ev 5 4 60 demo_u 1, demo_ev 5 60 120 '''' 0] 120,
     demo_seg ''bin.000002'' [demo_ev 6 4 60 demo_u 2, demo_ev 9 60 120 demo_u 3, demo_ev 6 120 180 '''' 0] 180]"

definition demo_breaks :: "Break list" where
  "demo_breaks = [\<lparr>bFiles = [''bin.000001'', ''bin.000007''], bReason = ''checksum mismatch''\<rparr>]"

definition demo_query :: CoverQuery where
  "demo_query = \<lparr>qAt = Some (7 * second), qGTID = '''', qLatest = False\<rparr>"

definition demo_answer :: CoverResult where
  "demo_answer = finish_cover demo_chain 1 180 [] (coverWindow demo_chain []) (\<lambda>ev. cSeq ev > 0 \<and> \<not> cWhen ev > 7 * second)"

lemma demo_answer:
  "Cover demo_chain demo_query [] = Inr demo_answer" "crCovered demo_answer"
  by code_simp+

lemma demo_chain_seqs: "cover_seqs_ok demo_chain"
  by (simp add: cover_seqs_ok_def demo_chain_def demo_seg_def demo_ev_def max_int64_def)



text \<open>A covered GTID is in the applied set, on segments whose events tile their bytes as a scan
  leaves them: the answer stops after the transaction and before the next one in its segment, so that
  the applied set is exactly what lies before the stop.\<close>

lemma covered_gtid_applied:
  assumes "coverGTID segs raw breaks w = Inr r" and "crCovered r" and "parseCoverGTID raw = Inr (uuid, seq)"
    and "cover_seqs_ok segs" and "\<forall>s \<in> set segs. \<exists>a. tiles a (vEvents s) (vEnd s)"
    and "0 < seq" and "uuid \<noteq> ''''"
  shows "\<exists>i j stop applied. found_at segs uuid seq = Some (i, j)
    \<and> crStopAt r = Some \<lparr>cpSegment = vName (segs ! i), cpPos = stop\<rparr>
    \<and> crApplied r = String applied \<and> (uuid, seq) \<in> gtids applied
    \<and> gtids applied = (\<Union>s \<in> set (take i segs). cover_gtids (vEvents s))
        \<union> cover_gtids (filter (\<lambda>ev. cOffset ev < stop) (vEvents (segs ! i)))
    \<and> cover_gtids (filter (\<lambda>ev. cOffset ev < stop) (vEvents (segs ! i)))
        = cover_gtids (take (Suc j) (vEvents (segs ! i)))"
proof -
  obtain i j where f: "found_at segs uuid seq = Some (i, j)"
    using assms(1-3) by (auto simp: coverGTID_def uncovered_def split: option.splits)
  then obtain ev where ev: "event_at segs i j ev" "cUUID ev = uuid" "cSeq ev = seq"
    using found_at_last by blast
  define evs where "evs = vEvents (segs ! i)"
  define stop where "stop = gtid_stop (segs ! i) j"
  have i: "i < length segs" and j: "j < length evs" "ev = evs ! j"
    using ev(1) by (simp_all add: event_at_def evs_def)
  have r: "r = finish_cover segs i stop breaks w (\<lambda>ev. cSeq ev > 0 \<and> cOffset ev < stop)"
    using assms(1,3) f by (simp add: coverGTID_def stop_def Let_def)
  note fc = finish_covered [OF assms(2) [unfolded r], folded r]
  obtain a where "tiles a evs (vEnd (segs ! i))" using bspec [OF assms(5) nth_mem [OF i]] by (auto simp: evs_def)
  then have cut: "cover_gtids (filter (\<lambda>ev. cOffset ev < stop) evs) = cover_gtids (take (Suc j) evs)"
    unfolding evs_def stop_def by (rule gtid_stop_cut) (use j evs_def in simp)
  have "cover_gtids (filter (\<lambda>ev. cSeq ev > 0 \<and> cOffset ev < stop) evs) = cover_gtids (filter (\<lambda>ev. cOffset ev < stop) evs)"
    by (auto simp: cover_gtids_def)
  note ap = applied_set_ok [OF assms(4) i, of "\<lambda>ev. cSeq ev > 0 \<and> cOffset ev < stop", folded evs_def, unfolded this]
  have "ev \<in> set (take (Suc j) evs)" using j by (simp add: take_Suc_conv_app_nth)
  then have m: "(uuid, seq) \<in> cover_gtids (take (Suc j) evs)"
    using ev(2,3) assms(6,7) by (auto simp: cover_gtids_def)
  then have mem: "(uuid, seq) \<in> gtids (applied_set segs i (\<lambda>ev. cSeq ev > 0 \<and> cOffset ev < stop))"
    using ap cut by simp
  then have "\<not> IsEmpty (applied_set segs i (\<lambda>ev. cSeq ev > 0 \<and> cOffset ev < stop))"
    using IsEmpty_ok [OF conjunct1 [OF ap]] by auto
  with fc(5) have "crApplied r = String (applied_set segs i (\<lambda>ev. cSeq ev > 0 \<and> cOffset ev < stop))" by simp
  with f fc(4) mem ap cut show ?thesis unfolding evs_def by blast
qed

definition demo_gtid_answer :: CoverResult where
  "demo_gtid_answer = finish_cover demo_chain 1 60 [] (coverWindow demo_chain []) (\<lambda>ev. cSeq ev > 0 \<and> cOffset ev < 60)"

section \<open>Two divergences\<close>

text \<open>Event times need not ascend in a file. The prefix that covers a second reaches to the last event at or
  before it, so it also contains a transaction stamped later that lies before that event; the applied
  set leaves that transaction out, although a restore to the stop position applies it.\<close>

lemma applied_misses_late_stamped:
  "Cover demo_chain demo_query [] = Inr demo_answer
   \<and> crStopAt demo_answer = Some \<lparr>cpSegment = ''bin.000002'', cpPos = 180\<rparr>
   \<and> demo_ev 9 60 120 demo_u 3 \<in> set (vEvents (demo_chain ! 1))
   \<and> crApplied demo_answer = demo_u @ '':1-2''"
proof (intro conjI)
  show "Cover demo_chain demo_query [] = Inr demo_answer" by (rule demo_answer)
qed code_simp+

text \<open>The sequence of a GTID is multiplied and added in \<open>int64\<close>, and only a result that is not positive is
  refused: a sequence of twenty digits can wrap to a positive number and is accepted as that number.\<close>

lemma cover_gtid_wraps:
  "parseCoverGTID (demo_u @ '':20000000000000000000'') = Inr (demo_u, 1553255926290448384)"
  by code_simp


section \<open>The full backup check\<close>

lemma gtidIntersects_ok:
  assumes "canonical a" and "canonical b"
  shows "gtidIntersects a b \<longleftrightarrow> gtids a \<inter> gtids b \<noteq> {}"
proof -
  have lb: "lookup b (fst x) = snd x" if "x \<in> set b" for x
    using assms(2) that by (cases x) (simp add: canonical_def lookup_def map_of_is_SomeI)
  have meet: "(gHi h \<ge> gLo iv \<and> gLo h \<le> gHi iv) \<longleftrightarrow> {gLo h..gHi h} \<inter> {gLo iv..gHi iv} \<noteq> {}"
    if "range_ok h" "range_ok iv" for h iv
    using range_okD [OF that(1)] range_okD [OF that(2)] by (auto simp: Int_atLeastAtMost)
  have ok: "range_ok r" if "r \<in> set (lookup s k)" "canonical s" for r s k
    using canonical_lookup [OF that(2), of k] that(1) by (auto simp: canon_def list_all_iff)
  have "gtidIntersects a b \<longleftrightarrow> (\<exists>x \<in> set b. \<exists>iv \<in> set (snd x). \<exists>h \<in> set (lookup a (fst x)). {gLo h..gHi h} \<inter> {gLo iv..gHi iv} \<noteq> {})"
    unfolding gtidIntersects_def list_ex_iff using meet ok [OF _ assms(1)] ok [OF _ assms(2)] lb by metis
  also have "\<dots> \<longleftrightarrow> (\<exists>x \<in> set b. range_set (lookup a (fst x)) \<inter> range_set (snd x) \<noteq> {})"
    unfolding range_set_def by blast
  also have "\<dots> \<longleftrightarrow> (\<exists>k. range_set (lookup a k) \<inter> range_set (lookup b k) \<noteq> {})"
  proof
    assume "\<exists>x \<in> set b. range_set (lookup a (fst x)) \<inter> range_set (snd x) \<noteq> {}"
    then show "\<exists>k. range_set (lookup a k) \<inter> range_set (lookup b k) \<noteq> {}" using lb by metis
  next
    assume "\<exists>k. range_set (lookup a k) \<inter> range_set (lookup b k) \<noteq> {}"
    then obtain k where k: "range_set (lookup a k) \<inter> range_set (lookup b k) \<noteq> {}" by blast
    then have "(k, lookup b k) \<in> set b" by (auto simp: lookup_def dest: map_of_SomeD split: option.splits)
    then show "\<exists>x \<in> set b. range_set (lookup a (fst x)) \<inter> range_set (snd x) \<noteq> {}" using k by force
  qed
  also have "\<dots> \<longleftrightarrow> gtids a \<inter> gtids b \<noteq> {}" by (auto simp: gtids_def)
  finally show ?thesis .
qed

text \<open>The full-backup line of a restore plan is green exactly when the backup contains the chain start
  and shares no transaction with what the plan applies, and red otherwise, once all three texts are GTID
  sets and a backup set was pasted.\<close>

lemma full_backup_green_iff:
  assumes "trim_space full \<noteq> ''''" and "ParseGTIDSet gomysql (trim_space full) = Inr got" and "canonical got"
    and "ParseGTIDSet gomysql start = Inr base" and "canonical base"
    and "ParseGTIDSet gomysql applied = Inr use" and "canonical use"
  shows "(hResult (FullBackupPrecheck gomysql start applied full) = ''green''
      \<longleftrightarrow> gtids base \<subseteq> gtids got \<and> gtids got \<inter> gtids use = {})
    \<and> hResult (FullBackupPrecheck gomysql start applied full) \<in> {''green'', ''red''}"
  using assms Contains_ok [OF assms(3,5)] gtidIntersects_ok [OF assms(3,7)]
  by (auto simp: FullBackupPrecheck_def plan_check_def is_error_def set_or_empty_def Let_def)

definition demo_full :: GTIDSet where
  "demo_full = [(demo_u, [GTIDRange 1 8])]"

definition demo_use :: GTIDSet where
  "demo_use = [(demo_u, [GTIDRange 9 12])]"

definition demo_reader_text :: "string \<Rightarrow> string + string" where
  "demo_reader_text t = Inr t"

end
