(* ===== verification/Asr_Window.thy ===== *)
theory Asr_Window
  imports Asr_Cover
begin

text \<open>
  The recovery window of \<open>internal/assurance/window.go\<close>: the retained chain grouped by source file,
  its time bounds, its stored GTID set and its breaks, and the segments a restore keeps before a
  problem (\<open>KeepBefore\<close> of \<open>internal/assurance/health.go\<close>). Source indexes are 64-bit unsigned.
\<close>

section \<open>Data\<close>

record Window =
  winContinuous :: bool
  winEarliest :: "instant option"
  winLatest :: "instant option"
  winGTIDSet :: string
  winBreaks :: "Break list"

record WindowSegment =
  xBase :: string
  xSource :: string
  xPath :: string
  xOpen :: bool
  xChecksumMismatch :: bool
  xUploadState :: string
  xReadable :: bool
  xSpanOK :: bool
  xFirst :: instant
  xLast :: instant
  xLog :: SegmentGTIDLog

definition window_name :: "WindowSegment \<Rightarrow> string" where
  "window_name s = (if xBase s \<noteq> '''' then xBase s else trim_space (xSource s))"

record windowPart =
  ySeq :: int
  yPrefix :: string
  ySegs :: "WindowSegment list"

definition part_name :: "WindowSegment \<Rightarrow> string" where
  "part_name s =
     (if trim_space (xSource s) \<noteq> '''' then trim_space (xSource s)
      else case ClassifySegment (xBase s) of
             Some named \<Rightarrow> if nSource named \<noteq> '''' then nSource named else xBase s
           | None \<Rightarrow> xBase s)"

definition sourceName :: "windowPart \<Rightarrow> string" where
  "sourceName p = (case find (\<lambda>s. part_name s \<noteq> '''') (ySegs p) of Some s \<Rightarrow> part_name s | None \<Rightarrow> '''')"

section \<open>Grouping\<close>

definition splitSourceIndex :: "string \<Rightarrow> (string \<times> nat) option" where
  "splitSourceIndex name =
     (let dot = last_index name ''.''
      in if dot \<le> 0 \<or> dot = int (length name) - 1 then None
         else (let num = drop (nat dot + 1) name
               in if \<not> list_all is_digit num then None else Some (take (nat dot) name, length num)))"

definition group_step :: "windowPart list \<Rightarrow> WindowSegment \<Rightarrow> windowPart list" where
  "group_step parts s =
     (case ClassifySegment (path_base (xPath s)) of
        None \<Rightarrow> parts
      | Some named \<Rightarrow>
         (let pfx = (case splitSourceIndex (nSource named) of Some (p, _) \<Rightarrow> p | None \<Rightarrow> nSource named)
          in if parts = [] \<or> ySeq (last parts) \<noteq> nSeq named \<or> yPrefix (last parts) \<noteq> pfx
             then parts @ [\<lparr>ySeq = nSeq named, yPrefix = pfx, ySegs = [s]\<rparr>]
             else butlast parts @ [(last parts)\<lparr>ySegs := ySegs (last parts) @ [s]\<rparr>]))"

definition groupWindow :: "WindowSegment list \<Rightarrow> windowPart list" where
  "groupWindow segs = foldl group_step [] segs"

section \<open>Breaks of one segment and of two files\<close>

definition segmentBreaks :: "WindowSegment \<Rightarrow> bool \<Rightarrow> Break list" where
  "segmentBreaks s objectStorage =
     (let name = window_name s; sealed = (\<not> xOpen s); mismatch = (sealed \<and> xChecksumMismatch s);
          state = to_upper (trim_space (xUploadState s))
      in emit mismatch \<lparr>bFiles = [name], bReason = ''checksum mismatch''\<rparr>
         @ emit (objectStorage \<and> sealed \<and> \<not> mismatch \<and> (state = ''UPLOAD_FAILED'' \<or> state = ''LOCAL_ONLY''))
             \<lparr>bFiles = [name], bReason = ''segment is not durable off-host ('' @ state @ '')''\<rparr>
         @ emit (\<not> xReadable s) \<lparr>bFiles = [name], bReason = ''segment is not readable''\<rparr>)"

definition wrapu64 :: "int \<Rightarrow> int" where
  "wrapu64 x = x mod 18446744073709551616"

definition pad_int :: "nat \<Rightarrow> int \<Rightarrow> string" where
  "pad_int width n = replicate (width - length (format_int n)) CHR ''0'' @ format_int n"

fun join_text :: "string \<Rightarrow> string list \<Rightarrow> string" where
  "join_text sep [] = ''''"
| "join_text sep [x] = x"
| "join_text sep (x # y # xs) = x @ sep @ join_text sep (y # xs)"

definition missing_files :: "string \<Rightarrow> nat \<Rightarrow> int \<Rightarrow> int \<Rightarrow> string list" where
  "missing_files pfx width l r = map (\<lambda>seq. pfx @ ''.'' @ pad_int width seq) [l + 1..r - 1]"

definition missingIndexBreak :: "windowPart \<Rightarrow> windowPart \<Rightarrow> Break" where
  "missingIndexBreak left right =
     (let leftName = sourceName left; rightName = sourceName right;
          missing = (case (splitSourceIndex leftName, splitSourceIndex rightName) of
                       (Some (pfx, width), Some (rp, rw)) \<Rightarrow>
                         if pfx = rp \<and> width = rw then missing_files pfx width (ySeq left) (ySeq right) else []
                     | _ \<Rightarrow> []);
          listed = join_text '', '' missing;
          listed = (if listed = '''' then ''index '' @ format_int (wrapu64 (ySeq left + 1)) else listed)
      in \<lparr>bFiles = missing @ emit (leftName \<noteq> '''') leftName @ emit (rightName \<noteq> '''') rightName,
          bReason = ''missing source file '' @ listed @ '' between '' @ leftName @ '' and '' @ rightName\<rparr>)"

definition earlier :: "instant option \<Rightarrow> instant \<Rightarrow> instant option" where
  "earlier cur candidate =
     (if candidate = 0 then cur
      else case cur of None \<Rightarrow> Some candidate | Some c \<Rightarrow> if candidate < c then Some candidate else Some c)"

definition later :: "instant option \<Rightarrow> instant \<Rightarrow> instant option" where
  "later cur candidate =
     (if candidate = 0 then cur
      else case cur of None \<Rightarrow> Some candidate | Some c \<Rightarrow> if candidate > c then Some candidate else Some c)"

definition mergeLogs :: "WindowSegment list \<Rightarrow> SegmentGTIDLog" where
  "mergeLogs segs =
     foldl (\<lambda>out s. if \<not> xReadable s then out
                     else (if \<not> lHasPrevious out \<and> lHasPrevious (xLog s)
                           then out\<lparr>lHasPrevious := True, lPrevious := lPrevious (xLog s),
                                    lEvents := lEvents out @ lEvents (xLog s)\<rparr>
                           else out\<lparr>lEvents := lEvents out @ lEvents (xLog s)\<rparr>)) zero_log segs"

section \<open>Stored sets\<close>

definition windowStoredSet :: "(string \<Rightarrow> 'err + string) \<Rightarrow> WindowSegment list \<Rightarrow> string \<Rightarrow> 'err + GTIDSet" where
  "windowStoredSet gomysql segs startGTID =
     (let start = (case find (\<lambda>s. xReadable s \<and> lHasPrevious (xLog s)) segs of
                     Some s \<Rightarrow> lPrevious (xLog s) | None \<Rightarrow> '''')
      in case ParseGTIDSet gomysql start of
           Inl err \<Rightarrow> Inl err
         | Inr s0 \<Rightarrow>
            (let s1 = AddAll s0 (set_or_empty (ParseGTIDSet gomysql startGTID))
             in Inr (foldl (\<lambda>st s. if xReadable s then AddEvents st (lEvents (xLog s)) else st) s1 segs)))"

definition named_sets :: "WindowSegment list \<Rightarrow> (string \<times> GTIDSet) list" where
  "named_sets segs = map (\<lambda>s. (window_name s, AddEvents [] (lEvents (xLog s)))) (filter xReadable segs)"

definition hole_sides :: "(string \<times> GTIDSet) list \<Rightarrow> string \<Rightarrow> GTIDRange \<Rightarrow> string \<times> string" where
  "hole_sides sets k iv =
     foldl (\<lambda>lr ns. foldl (\<lambda>(left, right) r.
               (if gHi r < gLo iv then fst ns else left,
                if gLo r > gHi iv \<and> right = '''' then fst ns else right)) lr (lookup (snd ns) k)) ('''', '''') sets"

definition interiorHoleBreak :: "(string \<Rightarrow> 'err + string) \<Rightarrow> WindowSegment list \<Rightarrow> string \<Rightarrow> Break list \<Rightarrow> Break option" where
  "interiorHoleBreak gomysql segs startGTID breaks =
     (if list_ex (\<lambda>b. has_prefix (bReason b) ''gtid hole'' \<or> bReason b = ''segment is not readable'') breaks then None
      else (let sets = named_sets segs;
                stored = foldl (\<lambda>st ns. AddAll st (snd ns)) [] sets;
                gaps = StoredHoles stored (set_or_empty (ParseGTIDSet gomysql startGTID))
            in if gaps = [] then None
               else (let k = hd (sort (map fst gaps)); iv = hd (lookup gaps k);
                         (left, right) = hole_sides sets k iv
                     in Some \<lparr>bFiles = [left, right],
                              bReason = ''gtid hole: '' @ String gaps @ '' is stored in no segment between '' @ left @ '' and '' @ right\<rparr>)))"

section \<open>The window\<close>

record window_state =
  zBreaks :: "Break list"
  zEarliest :: "instant option"
  zLatest :: "instant option"
  zEvents :: "GTIDEventRef list"
  zBefore :: "GTIDEventRef list"

definition window_segment :: "bool \<Rightarrow> bool \<Rightarrow> window_state \<Rightarrow> WindowSegment \<Rightarrow> window_state" where
  "window_segment mysql objectStorage z s =
     (let z1 = z\<lparr>zBreaks := zBreaks z @ segmentBreaks s objectStorage\<rparr>;
          z2 = (if xReadable s \<and> xSpanOK s
                then z1\<lparr>zEarliest := earlier (zEarliest z1) (xFirst s), zLatest := later (zLatest z1) (xLast s)\<rparr> else z1)
      in if \<not> xReadable s then z2
         else (let z3 = z2\<lparr>zEvents := zEvents z2 @ lEvents (xLog s)\<rparr>
               in if mysql
                  then (case intraSegmentHole (lEvents (xLog s)) of
                          None \<Rightarrow> z3
                        | Some (uuid, seq) \<Rightarrow>
                            z3\<lparr>zBreaks := zBreaks z3 @ [\<lparr>bFiles = [window_name s],
                                bReason = ''gtid hole in '' @ window_name s @ '' at '' @ uuid @ '':'' @ format_int seq\<rparr>]\<rparr>)
                  else z3))"

definition file_hole :: "(string \<Rightarrow> 'err + string) \<Rightarrow> GTIDSet \<Rightarrow> GTIDEventRef list \<Rightarrow> windowPart \<Rightarrow> windowPart \<Rightarrow> bool" where
  "file_hole gomysql stored before part nxt =
     (if yPrefix part \<noteq> yPrefix nxt then switchHole gomysql stored before (mergeLogs (ySegs nxt))
      else gtidHole gomysql (mergeLogs (ySegs part)) (mergeLogs (ySegs nxt)))"

definition header_error :: "(string \<Rightarrow> 'err + string) \<Rightarrow> windowPart \<Rightarrow> 'err option" where
  "header_error gomysql nxt =
     (if lHasPrevious (mergeLogs (ySegs nxt))
      then (case ParseGTIDSet gomysql (lPrevious (mergeLogs (ySegs nxt))) of Inl e \<Rightarrow> Some e | Inr _ \<Rightarrow> None) else None)"

definition window_join :: "(string \<Rightarrow> 'err + string) \<Rightarrow> bool \<Rightarrow> GTIDSet \<Rightarrow> windowPart \<Rightarrow> windowPart \<Rightarrow> window_state
    \<Rightarrow> 'err + window_state" where
  "window_join gomysql mysql stored part nxt z =
     (let z1 = z\<lparr>zBreaks := zBreaks z @ emit (yPrefix part = yPrefix nxt \<and> ySeq nxt > wrapu64 (ySeq part + 1))
                                   (missingIndexBreak part nxt),
                 zBefore := zBefore z @ lEvents (mergeLogs (ySegs part))\<rparr>
      in if \<not> mysql then Inr z1
         else case header_error gomysql nxt of
                Some err \<Rightarrow> Inl err
              | None \<Rightarrow>
                 Inr (z1\<lparr>zBreaks := zBreaks z1 @ emit (file_hole gomysql stored (zBefore z1) part nxt)
                    \<lparr>bFiles = [sourceName part, sourceName nxt],
                     bReason = ''gtid hole between '' @ sourceName part @ '' and '' @ sourceName nxt\<rparr>\<rparr>))"

fun window_parts :: "(string \<Rightarrow> 'err + string) \<Rightarrow> bool \<Rightarrow> bool \<Rightarrow> GTIDSet \<Rightarrow> windowPart list \<Rightarrow> window_state
    \<Rightarrow> 'err + window_state" where
  "window_parts gomysql mysql os stored [] z = Inr z"
| "window_parts gomysql mysql os stored [part] z = Inr (foldl (window_segment mysql os) z (ySegs part))"
| "window_parts gomysql mysql os stored (part # nxt # rest) z =
     (case window_join gomysql mysql stored part nxt (foldl (window_segment mysql os) z (ySegs part)) of
        Inl err \<Rightarrow> Inl err
      | Inr z1 \<Rightarrow> window_parts gomysql mysql os stored (nxt # rest) z1)"

definition window_set :: "GTIDEventRef list \<Rightarrow> string" where
  "window_set events = (let s = AddEvents [] events in if IsEmpty s then '''' else String s)"

definition WindowOf :: "(string \<Rightarrow> 'err + string) \<Rightarrow> WindowSegment list \<Rightarrow> string \<Rightarrow> bool \<Rightarrow> string \<Rightarrow> 'err + Window" where
  "WindowOf gomysql segs flavor objectStorage startGTID =
     (let mysql = equal_fold (trim_space flavor) ''mysql'';
          parts = groupWindow segs
      in case (if mysql then windowStoredSet gomysql segs startGTID else Inr []) of
           Inl err \<Rightarrow> Inl err
         | Inr stored \<Rightarrow>
            (case window_parts gomysql mysql objectStorage stored parts
                    \<lparr>zBreaks = [], zEarliest = None, zLatest = None, zEvents = [], zBefore = []\<rparr> of
               Inl err \<Rightarrow> Inl err
             | Inr z \<Rightarrow>
                (let breaks = (if mysql
                               then (case interiorHoleBreak gomysql segs startGTID (zBreaks z) of
                                       Some b \<Rightarrow> zBreaks z @ [b] | None \<Rightarrow> zBreaks z)
                               else zBreaks z)
                 in Inr \<lparr>winContinuous = (breaks = []), winEarliest = zEarliest z, winLatest = zLatest z,
                         winGTIDSet = (if mysql \<and> zEvents z \<noteq> [] then window_set (zEvents z) else ''''),
                         winBreaks = breaks\<rparr>)))"

section \<open>The cut before a problem\<close>

record Link =
  kName :: string
  kSameIndex :: bool
  kBefore :: bool

definition KeepBefore :: "Link list \<Rightarrow> string \<Rightarrow> nat list" where
  "KeepBefore chain segment =
     (if trim_space segment = '''' then []
      else map fst (filter (\<lambda>(i, l). \<not> (kSameIndex l \<or> \<not> kBefore l)) (enumerate 0 chain)))"

end
