(* ===== verification/Asr_Window_Props.thy ===== *)
theory Asr_Window_Props
  imports Asr_Window
begin

text \<open>
  A window without breaks is one a restore can go straight through: every file of the chain is
  readable and durable, no source index is skipped, and no transaction is missing between stored
  ones. The lemmas follow the loop of \<open>WindowOf\<close> backwards from an empty list of breaks.
\<close>

section \<open>Grouping keeps every segment\<close>

definition classified :: "WindowSegment \<Rightarrow> bool" where
  "classified s \<longleftrightarrow> ClassifySegment (path_base (xPath s)) \<noteq> None"

lemma group_step_segs:
  "concat (map ySegs (group_step parts s)) = concat (map ySegs parts) @ (if classified s then [s] else [])"
proof (cases parts rule: rev_cases)
  case Nil
  then show ?thesis by (auto simp: group_step_def classified_def Let_def split: option.split)
next
  case (snoc ps p)
  then show ?thesis by (auto simp: group_step_def classified_def Let_def split: option.split)
qed

lemma groupWindow_segs: "concat (map ySegs (groupWindow segs)) = filter classified segs"
proof -
  have "concat (map ySegs (foldl group_step parts segs)) = concat (map ySegs parts) @ filter classified segs" for parts
    by (induction segs arbitrary: parts) (auto simp: group_step_segs)
  then show ?thesis by (simp add: groupWindow_def)
qed

section \<open>From no breaks to no problem\<close>

definition sound_segment :: "bool \<Rightarrow> WindowSegment \<Rightarrow> bool" where
  "sound_segment os s \<longleftrightarrow> xReadable s \<and> (xOpen s \<or> \<not> xChecksumMismatch s)
     \<and> (os \<and> \<not> xOpen s \<longrightarrow> to_upper (trim_space (xUploadState s)) \<notin> {''UPLOAD_FAILED'', ''LOCAL_ONLY''})"

lemma segmentBreaks_Nil: "segmentBreaks s os = [] \<Longrightarrow> sound_segment os s"
  by (auto simp: segmentBreaks_def sound_segment_def Let_def)

lemma window_segment_breaks:
  "\<exists>bs. zBreaks (window_segment mysql os z s) = zBreaks z @ segmentBreaks s os @ bs"
proof (cases "xReadable s \<and> mysql")
  case True
  then show ?thesis
    by (cases "intraSegmentHole (lEvents (xLog s))"; cases "xSpanOK s")
      (simp_all add: window_segment_def Let_def case_prod_unfold)
next
  case False
  then show ?thesis by (cases "xReadable s"; cases "xSpanOK s") (simp_all add: window_segment_def Let_def)
qed

lemma window_segment_Nil:
  assumes "zBreaks (window_segment mysql os z s) = []"
  shows "zBreaks z = [] \<and> segmentBreaks s os = []"
  using assms window_segment_breaks [of mysql os z s] by (metis Nil_is_append_conv)

lemma window_segments_Nil:
  "zBreaks (foldl (window_segment mysql os) z segs) = [] \<Longrightarrow> zBreaks z = [] \<and> (\<forall>s \<in> set segs. sound_segment os s)"
proof (induction segs arbitrary: z)
  case (Cons s segs)
  have "zBreaks (foldl (window_segment mysql os) (window_segment mysql os z s) segs) = []"
    using Cons.prems by simp
  from Cons.IH [OF this] have "zBreaks (window_segment mysql os z s) = []" "\<forall>x \<in> set segs. sound_segment os x"
    by blast+
  then show ?case using window_segment_Nil [of mysql os z s] segmentBreaks_Nil [of s os] by simp
qed simp

definition steps_on :: "windowPart \<Rightarrow> windowPart \<Rightarrow> bool" where
  "steps_on p q \<longleftrightarrow> (yPrefix p = yPrefix q \<longrightarrow> ySeq q \<le> wrapu64 (ySeq p + 1))"

lemma window_join_Nil:
  assumes "window_join gomysql mysql stored p q z = Inr z1" and "zBreaks z1 = []"
  shows "zBreaks z = [] \<and> steps_on p q"
  using assms by (auto simp: window_join_def steps_on_def Let_def split: if_splits option.splits)

lemma window_parts_Nil:
  "window_parts gomysql mysql os stored parts z = Inr z' \<Longrightarrow> zBreaks z' = [] \<Longrightarrow>
   zBreaks z = [] \<and> (\<forall>s \<in> set (concat (map ySegs parts)). sound_segment os s)
   \<and> (\<forall>i. Suc i < length parts \<longrightarrow> steps_on (parts ! i) (parts ! Suc i))"
proof (induction gomysql mysql os stored parts z rule: window_parts.induct)
  case (2 gomysql mysql os stored part z)
  then show ?case using window_segments_Nil [of mysql os z "ySegs part"] by simp
next
  case (3 gomysql mysql os stored part nxt rest z)
  define y where "y = foldl (window_segment mysql os) z (ySegs part)"
  obtain z1 where z1: "window_join gomysql mysql stored part nxt y = Inr z1"
      "window_parts gomysql mysql os stored (nxt # rest) z1 = Inr z'"
    using "3.prems"(1) by (auto simp: y_def split: sum.splits)
  have IH: "zBreaks z1 = []" "\<forall>s \<in> set (concat (map ySegs (nxt # rest))). sound_segment os s"
      "\<forall>i. Suc i < length (nxt # rest) \<longrightarrow> steps_on ((nxt # rest) ! i) ((nxt # rest) ! Suc i)"
    using "3.IH" [OF z1(1) [unfolded y_def] z1(2) "3.prems"(2)] by blast+
  have j: "zBreaks y = []" "steps_on part nxt" using window_join_Nil [OF z1(1) IH(1)] by auto
  have s: "zBreaks z = []" "\<forall>s \<in> set (ySegs part). sound_segment os s"
    using window_segments_Nil [of mysql os z "ySegs part"] j(1) by (auto simp: y_def)
  have "steps_on ((part # nxt # rest) ! i) ((part # nxt # rest) ! Suc i)" if "Suc i < length (part # nxt # rest)" for i
    using j(2) IH(3) that by (cases i) auto
  then show ?case using s IH(2) by auto
qed simp

section \<open>Stored transactions of the window\<close>

definition window_held :: "WindowSegment list \<Rightarrow> (string \<times> int) set" where
  "window_held segs = (\<Union>s \<in> {s \<in> set segs. xReadable s}. event_gtids (lEvents (xLog s)))"

definition window_seqs_ok :: "WindowSegment list \<Rightarrow> bool" where
  "window_seqs_ok segs \<longleftrightarrow> (\<forall>s \<in> set segs. \<forall>ev \<in> set (lEvents (xLog s)). evSeq ev < max_int64)"

lemma named_sets_ok:
  assumes "window_seqs_ok segs"
  shows "canonical (foldl (\<lambda>st ns. AddAll st (snd ns)) [] (named_sets segs))
    \<and> gtids (foldl (\<lambda>st ns. AddAll st (snd ns)) [] (named_sets segs)) = window_held segs"
proof -
  have "canonical (foldl (\<lambda>st ns. AddAll st (snd ns)) st (named_sets xs))
      \<and> gtids (foldl (\<lambda>st ns. AddAll st (snd ns)) st (named_sets xs)) = gtids st \<union> window_held xs"
    if "canonical st" "window_seqs_ok xs" for st xs
    using that
  proof (induction xs arbitrary: st)
    case (Cons s xs)
    have ok: "window_seqs_ok xs" using Cons.prems(2) by (simp add: window_seqs_ok_def)
    show ?case
    proof (cases "xReadable s")
      case True
      define e where "e = AddEvents [] (lEvents (xLog s))"
      have e: "canonical e" "gtids e = event_gtids (lEvents (xLog s))"
        using AddEvents_ok [of "[]" "lEvents (xLog s)"] Cons.prems(2)
        by (auto simp: e_def window_seqs_ok_def event_gtids_def)
      note a = AddAll_ok [OF Cons.prems(1) e(1)]
      have "named_sets (s # xs) = (window_name s, e) # named_sets xs" using True by (simp add: named_sets_def e_def)
      then show ?thesis using Cons.IH [OF conjunct1 [OF a] ok] a e(2) True by (auto simp: window_held_def)
    next
      case False
      then have "named_sets (s # xs) = named_sets xs" "window_held (s # xs) = window_held xs"
        by (auto simp: named_sets_def window_held_def)
      then show ?thesis using Cons.IH [OF Cons.prems(1) ok] by simp
    qed
  qed (simp add: named_sets_def window_held_def)
  from this [OF canonical_Nil(1) assms] show ?thesis by simp
qed

lemma interiorHoleBreak_None:
  assumes "interiorHoleBreak gomysql segs start [] = None" and "window_seqs_ok segs"
    and "canonical (set_or_empty (ParseGTIDSet gomysql start))"
  shows "{(k, n). n \<in> interior {m. (k, m) \<in> window_held segs}} \<subseteq> gtids (set_or_empty (ParseGTIDSet gomysql start))"
proof -
  define stored where "stored = foldl (\<lambda>st ns. AddAll st (snd ns)) [] (named_sets segs)"
  note s = named_sets_ok [OF assms(2), folded stored_def]
  have "StoredHoles stored (set_or_empty (ParseGTIDSet gomysql start)) = []"
    using assms(1) by (auto simp: interiorHoleBreak_def stored_def Let_def case_prod_unfold split: if_splits)
  then have "gtids (StoredHoles stored (set_or_empty (ParseGTIDSet gomysql start))) = {}" by simp
  then show ?thesis using StoredHoles_ok [OF conjunct1 [OF s] assms(3)] s by auto
qed

text \<open>C40. A continuous MySQL window is restorable straight through: every segment of the chain is
  readable, no sealed one has a checksum mismatch, none is left only on this host when object storage is
  configured, the index of a file is at most one above the index of the file before it of the same
  source, and every sequence missing between two stored sequences of a source is in the start set.\<close>

theorem continuous_window_sound:
  assumes "WindowOf gomysql segs flavor os start = Inr w" and "winContinuous w"
    and "equal_fold (trim_space flavor) ''mysql''" and "window_seqs_ok segs"
    and "canonical (set_or_empty (ParseGTIDSet gomysql start))"
  shows "(\<forall>s \<in> set segs. classified s \<longrightarrow> sound_segment os s)
    \<and> (\<forall>i. Suc i < length (groupWindow segs) \<longrightarrow> steps_on (groupWindow segs ! i) (groupWindow segs ! Suc i))
    \<and> {(k, n). (k, n) \<notin> window_held segs \<and> (\<exists>a < n. (k, a) \<in> window_held segs) \<and> (\<exists>b > n. (k, b) \<in> window_held segs)}
        \<subseteq> gtids (set_or_empty (ParseGTIDSet gomysql start))"
proof -
  obtain stored z where z: "window_parts gomysql True os stored (groupWindow segs)
        \<lparr>zBreaks = [], zEarliest = None, zLatest = None, zEvents = [], zBefore = []\<rparr> = Inr z"
      and w: "winContinuous w = ((case interiorHoleBreak gomysql segs start (zBreaks z) of
        Some b \<Rightarrow> zBreaks z @ [b] | None \<Rightarrow> zBreaks z) = [])"
    using assms(1,3) by (auto simp: WindowOf_def Let_def split: sum.splits)
  have b: "zBreaks z = []" "interiorHoleBreak gomysql segs start [] = None"
    using w assms(2) by (auto split: option.splits)
  note p = window_parts_Nil [OF z b(1)]
  have "\<forall>s \<in> set (filter classified segs). sound_segment os s"
    using p groupWindow_segs [of segs] by simp
  moreover note interiorHoleBreak_None [OF b(2) assms(4,5)]
  ultimately show ?thesis using p by (auto simp: interior_def)
qed

definition demo_window :: "WindowSegment list" where
  "demo_window = map (\<lambda>(p, n). \<lparr>xBase = p, xSource = p, xPath = ''/data/t1/'' @ p, xOpen = False, xChecksumMismatch = False,
      xUploadState = ''UPLOADED'', xReadable = True, xSpanOK = True, xFirst = 7, xLast = 9,
      xLog = \<lparr>lPrevious = '''', lHasPrevious = False,
        lEvents = [\<lparr>evUUID = ''ab'', evSeq = n, evOffset = 4, evWhen = 8\<rparr>]\<rparr>\<rparr>) [(''bin.000001'', 4), (''bin.000002'', 5)]"

definition demo_window_text :: "string \<Rightarrow> string + string" where
  "demo_window_text t = Inr t"

definition demo_window_result :: Window where
  "demo_window_result = \<lparr>winContinuous = True, winEarliest = Some 7, winLatest = Some 9, winGTIDSet = ''ab:4-5'', winBreaks = []\<rparr>"

theorem continuous_window_sound_witness:
  "WindowOf demo_window_text demo_window ''MySQL'' True '''' = Inr demo_window_result
   \<and> sound_segment True (demo_window ! 1)"
proof -
  have r: "WindowOf demo_window_text demo_window ''MySQL'' True '''' = Inr demo_window_result"
    and f: "equal_fold (trim_space ''MySQL'') ''mysql''"
    and e: "set_or_empty (ParseGTIDSet demo_window_text '''') = []"
    by code_simp+
  have o: "window_seqs_ok demo_window" by (simp add: window_seqs_ok_def demo_window_def max_int64_def)
  have c: "winContinuous demo_window_result" by (simp add: demo_window_result_def)
  have m: "demo_window ! 1 \<in> set demo_window" by (simp add: demo_window_def)
  have k: "classified (demo_window ! 1)" unfolding classified_def by code_simp
  show ?thesis using continuous_window_sound [OF r c f o] e r m k by simp
qed

section \<open>The cut\<close>

text \<open>What a restore keeps before a problem, without the enumeration.\<close>

lemma KeepBefore_exact:
  "set (KeepBefore chain segment) =
     (if trim_space segment = '''' then {}
      else {i. i < length chain \<and> kBefore (chain ! i) \<and> \<not> kSameIndex (chain ! i)})"
  by (force simp: KeepBefore_def in_set_enumerate_eq)

end
