(* ===== verification/Go_Time.thy ===== *)
theory Go_Time
  imports Go_Text
begin

text \<open>
  The parts of Go's package \<open>time\<close> that the sources print with: \<open>Duration.Round\<close>,
  \<open>Duration.Truncate\<close>, \<open>Duration.String\<close>, and \<open>Time.Format\<close> for \<open>RFC3339\<close> and
  \<open>RFC3339Nano\<close> in UTC; and \<open>strings.Contains\<close>, \<open>strings.HasSuffix\<close> and the first result of
  \<open>strings.Cut\<close>. An instant counts nanoseconds from 1 January of year 1, the zero time.
\<close>

section \<open>Durations\<close>

definition truncate_to :: "duration \<Rightarrow> duration \<Rightarrow> duration" where
  "truncate_to d m =
     (if m \<le> 0 then d else if d < 0 then d + (- d) mod m else d - d mod m)"

definition round_to :: "duration \<Rightarrow> duration \<Rightarrow> duration" where
  "round_to d m =
     (if m \<le> 0 then d
      else if d < 0 then
        (let r = (- d) mod m in
         if r + r < m then d + r
         else if min_int64 \<le> d - m + r then d - m + r else min_int64)
      else
        (let r = d mod m in
         if r + r < m then d - r
         else if d + m - r \<le> max_int64 then d + m - r else max_int64))"

definition pad_left :: "nat \<Rightarrow> string \<Rightarrow> string" where
  "pad_left w s = replicate (w - length s) CHR ''0'' @ s"

text \<open>\<open>fmtFrac\<close>: the fraction \<open>v / 10 ^ prec\<close> without trailing zeros, and without the point when
  nothing is left.\<close>

definition fmt_frac :: "int \<Rightarrow> nat \<Rightarrow> string" where
  "fmt_frac v prec =
     (let ds = rev (dropWhile (\<lambda>c. c = CHR ''0'') (rev (pad_left prec (format_int (v mod 10 ^ prec)))))
      in if prec = 0 \<or> ds = [] then [] else CHR ''.'' # ds)"

definition fmt_seconds :: "int \<Rightarrow> string" where
  "fmt_seconds u =
     (let secs = u div second; mins = secs div 60
      in (if mins > 0 then
            (if mins div 60 > 0 then format_int (mins div 60) @ ''h'' else [])
              @ format_int (mins mod 60) @ ''m''
          else [])
         @ format_int (secs mod 60) @ fmt_frac u 9 @ ''s'')"

definition duration_string :: "duration \<Rightarrow> string" where
  "duration_string d =
     (let u = \<bar>d\<bar>;
          body =
            (if u = 0 then ''0s''
             else if u < 1000 then format_int u @ ''ns''
             else if u < 1000000 then format_int (u div 1000) @ fmt_frac u 3 @ [CHR 0xC2, CHR 0xB5] @ ''s''
             else if u < second then format_int (u div 1000000) @ fmt_frac u 6 @ ''ms''
             else fmt_seconds u)
      in (if d < 0 then ''-'' else []) @ body)"

section \<open>Dates\<close>

text \<open>The civil date of a day counted from 1 January of year 1 in the proleptic Gregorian
  calendar: whole cycles of 400, 100, 4 and 1 years, then the month by the day of the year.\<close>

definition year_day :: "int \<Rightarrow> int \<times> int" where
  "year_day day =
     (let n400 = day div 146097; d = day mod 146097;
          n100 = min 3 (d div 36524); d = d - n100 * 36524;
          n4 = d div 1461; d = d mod 1461;
          n1 = min 3 (d div 365); d = d - n1 * 365
      in (400 * n400 + 100 * n100 + 4 * n4 + n1 + 1, d))"

definition leap_year :: "int \<Rightarrow> bool" where
  "leap_year y \<longleftrightarrow> y mod 4 = 0 \<and> (y mod 100 \<noteq> 0 \<or> y mod 400 = 0)"

fun month_day :: "int \<Rightarrow> int \<Rightarrow> int list \<Rightarrow> int \<times> int" where
  "month_day m d [] = (m, d + 1)"
| "month_day m d (l # ls) = (if d < l then (m, d + 1) else month_day (m + 1) (d - l) ls)"

definition month_lengths :: "int \<Rightarrow> int list" where
  "month_lengths y = [31, if leap_year y then 29 else 28, 31, 30, 31, 30, 31, 31, 30, 31, 30]"

definition civil_date :: "int \<Rightarrow> int \<times> int \<times> int" where
  "civil_date day = (let (y, d) = year_day day; (m, dd) = month_day 1 d (month_lengths y) in (y, m, dd))"

definition append_int :: "int \<Rightarrow> nat \<Rightarrow> string" where
  "append_int n w = (if n < 0 then ''-'' else []) @ pad_left w (format_int \<bar>n\<bar>)"

definition clock_text :: "instant \<Rightarrow> string" where
  "clock_text t =
     (let secs = t div second; day = secs div 86400; s = secs mod 86400; (y, m, d) = civil_date day
      in append_int y 4 @ ''-'' @ append_int m 2 @ ''-'' @ append_int d 2 @ ''T''
         @ append_int (s div 3600) 2 @ '':'' @ append_int (s div 60 mod 60) 2 @ '':''
         @ append_int (s mod 60) 2)"

definition rfc3339 :: "instant \<Rightarrow> string" where
  "rfc3339 t = clock_text t @ ''Z''"

definition rfc3339_nano :: "instant \<Rightarrow> string" where
  "rfc3339_nano t = clock_text t @ fmt_frac (t mod second) 9 @ ''Z''"

section \<open>Searching a text\<close>

definition contains_text :: "string \<Rightarrow> string \<Rightarrow> bool" where
  "contains_text s sub \<longleftrightarrow> list_ex (occurs_at s sub) [0..<Suc (length s)]"

definition has_suffix :: "string \<Rightarrow> string \<Rightarrow> bool" where
  "has_suffix s suf \<longleftrightarrow> length suf \<le> length s \<and> drop (length s - length suf) s = suf"

definition trim_suffix :: "string \<Rightarrow> string \<Rightarrow> string" where
  "trim_suffix s suf = (if has_suffix s suf then take (length s - length suf) s else s)"

definition cut_before :: "char \<Rightarrow> string \<Rightarrow> string" where
  "cut_before c s = takeWhile (\<lambda>x. x \<noteq> c) s"

lemma has_suffix_append [simp]: "has_suffix (s @ suf) suf"
  by (simp add: has_suffix_def)

lemma trim_suffix_append [simp]: "trim_suffix (s @ suf) suf = s"
  by (simp add: trim_suffix_def)

lemma has_suffixE:
  assumes "has_suffix s suf"
  obtains p where "s = p @ suf"
proof
  show "s = take (length s - length suf) s @ suf"
    using assms append_take_drop_id [of "length s - length suf" s] by (simp add: has_suffix_def)
qed

text \<open>The calendar on known days: the Unix epoch, a leap day, the last day of a leap century.\<close>

lemma civil_date_known:
  "civil_date 719162 = (1970, 1, 1)" "civil_date 738944 = (2024, 2, 29)" "civil_date 730484 = (2000, 12, 31)"
  by code_simp+

lemma digit_texts:
  "digit_char 0 = CHR ''0''" "digit_char 1 = CHR ''1''" "digit_char 2 = CHR ''2''" "digit_char 3 = CHR ''3''"
  "digit_char 4 = CHR ''4''" "digit_char 5 = CHR ''5''" "digit_char 6 = CHR ''6''" "digit_char 7 = CHR ''7''"
  "digit_char 8 = CHR ''8''" "digit_char 9 = CHR ''9''" "digit_char (Suc 0) = CHR ''1''"
  by code_simp+

lemmas decimal_texts = format_int_def nat_digits.simps digit_texts pad_left_def fmt_frac_def append_int_def

lemma duration_string_known:
  "duration_string (90 * second) = ''1m30s''" "duration_string 0 = ''0s''"
  "duration_string (1500 * millisecond) = ''1.5s''" "duration_string (- 2 * millisecond) = ''-2ms''"
  by (simp_all add: duration_string_def fmt_seconds_def decimal_texts go_defs Let_def)

lemma rfc3339_known: "rfc3339 (62135596800 * second) = ''1970-01-01T00:00:00Z''"
proof -
  have "rfc3339 (62135596800 * second) = append_int 1970 4 @ ''-'' @ append_int 1 2 @ ''-'' @ append_int 1 2
    @ ''T'' @ append_int 0 2 @ '':'' @ append_int 0 2 @ '':'' @ append_int 0 2 @ ''Z''"
    by (simp add: rfc3339_def clock_text_def civil_date_known go_defs Let_def)
  then show ?thesis
    by (simp add: decimal_texts)
qed

end
