(* ===== verification/Go_Path.thy ===== *)
theory Go_Path
  imports Go_Text
begin

text \<open>
  \<open>filepath.Clean\<close> and \<open>filepath.Join\<close> of Go's standard library on Unix paths, and the string
  functions of \<open>package strings\<close> that look for any of several bytes.
\<close>

definition clean_step :: "bool \<Rightarrow> string list \<Rightarrow> string \<Rightarrow> string list" where
  "clean_step rooted stack part =
     (if part = [] \<or> part = ''.'' then stack
      else if part = ''..'' then
        (if stack \<noteq> [] \<and> last stack \<noteq> ''..'' then butlast stack
         else if rooted then stack else stack @ [part])
      else stack @ [part])"

definition path_clean :: "string \<Rightarrow> string" where
  "path_clean p =
     (if p = [] then ''.''
      else (let rooted = (hd p = CHR ''/''); stack = foldl (clean_step rooted) [] (split_on CHR ''/'' p)
            in if rooted then CHR ''/'' # join_with CHR ''/'' stack
               else if stack = [] then ''.'' else join_with CHR ''/'' stack))"

definition path_join :: "string list \<Rightarrow> string" where
  "path_join elems =
     (let parts = filter (\<lambda>e. e \<noteq> []) elems
      in if parts = [] then [] else path_clean (join_with CHR ''/'' parts))"

definition contains_any :: "string \<Rightarrow> string \<Rightarrow> bool" where
  "contains_any s chars \<longleftrightarrow> list_ex (\<lambda>c. c \<in> set chars) s"

definition before_any :: "string \<Rightarrow> string \<Rightarrow> string" where
  "before_any s chars = takeWhile (\<lambda>c. c \<notin> set chars) s"

lemma path_join_known:
  "path_join [''/data'', ''7''] = ''/data/7''" "path_join [''/data/'', ''a'', ''..'', ''b''] = ''/data/b''"
  "path_join [[], []] = []"
  by code_simp+

end
