(* ===== verification/Bin_Durable.thy ===== *)
theory Bin_Durable
  imports Bin_Ledger Go_Time Go_Path
begin

text \<open>
  The readers of where a segment durably ends: \<open>internal/binlog/durable.go\<close> (the last complete
  event, the position span, files of header events only, the target of the last rotate, the open
  segment a resume continues from), \<open>internal/binlog/open_tail.go\<close> (the transactions of the open
  segment and the resume cut) and \<open>internal/binlog/gtid_pos.go\<close> (the offset of one GTID).

  A file is \<open>None\<close> when it cannot be opened or stated, or its size with the reader on its bytes.
  \<open>Seek\<close> moves past bytes without reading them. The event type codes and body decoders that the
  scans of \<open>Bin_Scan\<close> do not need are the record \<open>goevents\<close>, also a parameter.
\<close>

section \<open>What go-mysql supplies\<close>

record goevents =
  goBase :: goreplication
  MARIADB_GTID_LIST_EVENT :: byte
  MARIADB_BINLOG_CHECKPOINT_EVENT :: byte
  MARIADB_GTID_EVENT :: byte
  START_EVENT_V3 :: byte
  GTID_TAGGED_LOG_EVENT :: byte
  ANONYMOUS_GTID_EVENT :: byte
  XID_EVENT :: byte
  XA_PREPARE_LOG_EVENT :: byte
  TRANSACTION_PAYLOAD_EVENT :: byte
  QUERY_EVENT :: byte
  FL_GROUP_COMMIT_ID :: byte
  decodeRotateEvent :: "byte list \<Rightarrow> (string \<times> int) option"
  decodeTagged :: "byte list \<Rightarrow> string option"
  decodeMariadbGTID :: "int \<Rightarrow> byte list \<Rightarrow> (string \<times> bool) option"
  decodeMariadbList :: "byte list \<Rightarrow> string list option"

section \<open>Walking complete events\<close>

type_synonym segment_file = "(int64 \<times> Reader) option"

definition skip_bytes :: "Reader \<Rightarrow> int \<Rightarrow> Reader" where
  "skip_bytes r n = r\<lparr>rBytes := drop (nat n) (rBytes r)\<rparr>"

text \<open>One turn of the loops: \<open>AtEnd\<close> when the loop condition fails, \<open>Broken\<close> when the header cannot be
  read or the event does not fit, otherwise the header, the event size and its end \<open>log_pos\<close>.\<close>

datatype walk = AtEnd | Broken | At "byte list" int int Reader

definition walk_event :: "int64 \<Rightarrow> int64 \<Rightarrow> Reader \<Rightarrow> walk" where
  "walk_event sz offset r =
     (if \<not> offset + int EventHeaderSize \<le> sz then AtEnd
      else (case ReadFull r EventHeaderSize of
              Full hdr r1 \<Rightarrow>
                (let eventSize = little_endian (slice 9 13 hdr); logPos = little_endian (slice 13 17 hdr)
                 in if eventSize < int EventHeaderSize \<or> offset + eventSize > sz then Broken
                    else At hdr eventSize logPos r1)
            | _ \<Rightarrow> Broken))"

lemma walk_event_At:
  assumes "walk_event sz offset r = At hdr esz pos r1"
  shows "rBytes r = hdr @ rBytes r1" "length hdr = EventHeaderSize" "int EventHeaderSize \<le> esz"
    "offset + esz \<le> sz" "esz = little_endian (slice 9 13 hdr)" "pos = little_endian (slice 13 17 hdr)"
    "rFail r1 = rFail r"
  using assms
  by (auto simp: walk_event_def ReadFull_Full Let_def split: if_splits read_result.splits)

lemma walk_event_shorter:
  "walk_event sz offset r = At hdr esz pos r1 \<Longrightarrow> length (rBytes r1) < length (rBytes r)"
  using walk_event_At(1, 2) [of sz offset r hdr esz pos r1] by (simp add: EventHeaderSize_def)

lemma skip_bytes_shorter [simp]: "length (rBytes (skip_bytes r n)) \<le> length (rBytes r)"
  by (simp add: skip_bytes_def)

definition body_len :: "int \<Rightarrow> int" where
  "body_len eventSize = eventSize - int EventHeaderSize"

text \<open>The magic: \<open>None\<close> unless the file has four bytes that are the binlog magic.\<close>

definition after_magic :: "int64 \<Rightarrow> Reader \<Rightarrow> Reader option" where
  "after_magic sz r =
     (if sz < 4 then None
      else (case ReadFull r 4 of Full magic r1 \<Rightarrow> if magic = durableMagic then Some r1 else None | _ \<Rightarrow> None))"

section \<open>The durable cursor\<close>

function cursor_loop :: "int64 \<Rightarrow> int64 \<Rightarrow> Reader \<Rightarrow> (int \<times> int64) option \<Rightarrow> (int \<times> int64) option" where
  "cursor_loop sz offset r acc =
     (case walk_event sz offset r of
        At hdr eventSize logPos r1 \<Rightarrow>
          cursor_loop sz (offset + eventSize) (skip_bytes r1 (body_len eventSize))
            (if logPos = 0 then acc else Some (logPos, offset + eventSize))
      | _ \<Rightarrow> acc)"
  by pat_completeness auto
termination
  by (relation "measure (\<lambda>(sz, offset, r, acc). length (rBytes r))")
    (auto dest!: walk_event_shorter intro: le_less_trans [OF skip_bytes_shorter])

declare cursor_loop.simps [simp del]

text \<open>The result is \<open>(pos, end, sz, ok)\<close>.\<close>

definition DurableCursor :: "segment_file \<Rightarrow> int \<times> int64 \<times> int64 \<times> bool" where
  "DurableCursor f =
     (case f of
        None \<Rightarrow> (0, 0, 0, False)
      | Some (sz, r) \<Rightarrow>
          (case after_magic sz r of
             None \<Rightarrow> (0, 0, sz, False)
           | Some r1 \<Rightarrow>
               (case cursor_loop sz 4 r1 None of
                  None \<Rightarrow> (0, 0, sz, False)
                | Some (pos, en) \<Rightarrow> (pos, en, sz, True))))"

section \<open>The event span\<close>

definition span_step :: "(int \<times> int) option \<Rightarrow> int \<Rightarrow> int \<Rightarrow> (int \<times> int) option" where
  "span_step acc eventSize logPos =
     (if logPos = 0 \<or> logPos < eventSize then acc
      else (let evStart = logPos - eventSize
            in case acc of
                 None \<Rightarrow> Some (evStart, logPos)
               | Some (chainStart, chainEnd) \<Rightarrow>
                   if evStart > chainEnd then Some (evStart, logPos)
                   else Some (if evStart < chainStart then evStart else chainStart,
                              if logPos > chainEnd then logPos else chainEnd)))"

function span_loop_at :: "int64 \<Rightarrow> int64 \<Rightarrow> Reader \<Rightarrow> (int \<times> int) option \<Rightarrow> (int \<times> int) option" where
  "span_loop_at sz offset r acc =
     (case walk_event sz offset r of
        At hdr eventSize logPos r1 \<Rightarrow>
          span_loop_at sz (offset + eventSize) (skip_bytes r1 (body_len eventSize)) (span_step acc eventSize logPos)
      | _ \<Rightarrow> acc)"
  by pat_completeness auto
termination
  by (relation "measure (\<lambda>(sz, offset, r, acc). length (rBytes r))")
    (auto dest!: walk_event_shorter intro: le_less_trans [OF skip_bytes_shorter])

declare span_loop_at.simps [simp del]

definition EventSpan :: "segment_file \<Rightarrow> (int \<times> int) option" where
  "EventSpan f =
     (case f of
        None \<Rightarrow> None
      | Some (sz, r) \<Rightarrow> (case after_magic sz r of None \<Rightarrow> None | Some r1 \<Rightarrow> span_loop_at sz 4 r1 None))"

definition segmentPositionsUncached :: "segment_file \<Rightarrow> (int \<times> int) option" where
  "segmentPositionsUncached f =
     (let (endPos, _, _, cursorOK) = DurableCursor f
      in if \<not> cursorOK \<or> endPos = 0 then None
         else (case EventSpan f of
                 Some (spanStart, spanEnd) \<Rightarrow> if spanEnd \<noteq> 0 then Some (spanStart, spanEnd) else Some (0, endPos)
               | None \<Rightarrow> Some (0, endPos)))"

section \<open>Files without content of their own\<close>

function preamble_loop :: "int64 \<Rightarrow> int64 \<Rightarrow> Reader \<Rightarrow> bool" where
  "preamble_loop sz offset r =
     (case walk_event sz offset r of
        AtEnd \<Rightarrow> offset = sz
      | Broken \<Rightarrow> False
      | At hdr eventSize logPos r1 \<Rightarrow>
          logPos = 0 \<and> preamble_loop sz (offset + eventSize) (skip_bytes r1 (body_len eventSize)))"
  by pat_completeness auto
termination
  by (relation "measure (\<lambda>(sz, offset, r). length (rBytes r))")
    (auto dest!: walk_event_shorter intro: le_less_trans [OF skip_bytes_shorter])

declare preamble_loop.simps [simp del]

definition PreambleOnly :: "segment_file \<Rightarrow> bool" where
  "PreambleOnly f =
     (case f of
        None \<Rightarrow> False
      | Some (sz, r) \<Rightarrow>
          (case after_magic sz r of
             None \<Rightarrow> False
           | Some r1 \<Rightarrow> if sz = 4 then True else preamble_loop sz 4 r1))"

definition header_event :: "goevents \<Rightarrow> byte \<Rightarrow> bool" where
  "header_event g t \<longleftrightarrow> t = FORMAT_DESCRIPTION_EVENT (goBase g) \<or> t = PREVIOUS_GTIDS_EVENT (goBase g)
     \<or> t = ROTATE_EVENT (goBase g) \<or> t = MARIADB_GTID_LIST_EVENT g \<or> t = MARIADB_BINLOG_CHECKPOINT_EVENT g
     \<or> t = START_EVENT_V3 g"

function header_loop :: "goevents \<Rightarrow> int64 \<Rightarrow> int64 \<Rightarrow> Reader \<Rightarrow> bool" where
  "header_loop g sz offset r =
     (case walk_event sz offset r of
        AtEnd \<Rightarrow> offset = sz
      | Broken \<Rightarrow> False
      | At hdr eventSize logPos r1 \<Rightarrow>
          header_event g (hdr ! 4) \<and> header_loop g sz (offset + eventSize) (skip_bytes r1 (body_len eventSize)))"
  by pat_completeness auto
termination
  by (relation "measure (\<lambda>(g, sz, offset, r). length (rBytes r))")
    (auto dest!: walk_event_shorter intro: le_less_trans [OF skip_bytes_shorter])

declare header_loop.simps [simp del]

definition HeaderEventsOnly :: "goevents \<Rightarrow> segment_file \<Rightarrow> bool" where
  "HeaderEventsOnly g f =
     (case f of
        None \<Rightarrow> False
      | Some (sz, r) \<Rightarrow> (case after_magic sz r of None \<Rightarrow> False | Some r1 \<Rightarrow> header_loop g sz 4 r1))"

section \<open>The last rotate\<close>

definition byte_char :: "byte \<Rightarrow> char" where
  "byte_char b = char_of (unat b)"

definition rotateNameOK :: "string \<Rightarrow> bool" where
  "rotateNameOK name \<longleftrightarrow> \<not> (name = [] \<or> name = ''.'' \<or> name = ''..'') \<and> \<not> contains_any name [CHR ''/'', CHR 0x5C]
     \<and> list_all (\<lambda>c. \<not> (of_char c < (0x20 :: nat) \<or> of_char c > (0x7e :: nat))) name"

definition read_or_skip :: "bool \<Rightarrow> Reader \<Rightarrow> int \<Rightarrow> (byte list \<times> Reader) option" where
  "read_or_skip keep r n =
     (if keep \<and> n > 0 \<and> n \<le> 1048576 then (case ReadFull r (nat n) of Full b r' \<Rightarrow> Some (b, r') | _ \<Rightarrow> None)
      else Some ([], skip_bytes r n))"

lemma read_or_skip_shorter: "read_or_skip keep r n = Some (b, r') \<Longrightarrow> length (rBytes r') \<le> length (rBytes r)"
  by (auto simp: read_or_skip_def ReadFull_Full skip_bytes_def split: if_splits read_result.splits)

text \<open>The variables of the loop: the checksum flag, and the type, kept body and position of the last
  complete event.\<close>

function last_event_loop :: "goevents \<Rightarrow> int64 \<Rightarrow> int64 \<Rightarrow> Reader \<Rightarrow> bool \<Rightarrow> (byte \<times> byte list \<times> int) option
    \<Rightarrow> bool \<times> (byte \<times> byte list \<times> int) option" where
  "last_event_loop g sz offset r crc32 seen =
     (case walk_event sz offset r of
        At hdr eventSize logPos r1 \<Rightarrow>
          (let t = hdr ! 4; fd = (t = FORMAT_DESCRIPTION_EVENT (goBase g)); rot = (t = ROTATE_EVENT (goBase g))
           in case read_or_skip (fd \<or> rot) r1 (body_len eventSize) of
                None \<Rightarrow> (crc32, seen)
              | Some (body, r2) \<Rightarrow>
                  last_event_loop g sz (offset + eventSize) r2 (crc32 \<or> (fd \<and> fdChecksum (goBase g) body))
                    (Some (t, if rot then body else [], logPos)))
      | _ \<Rightarrow> (crc32, seen))"
  by pat_completeness auto
termination
  by (relation "measure (\<lambda>(g, sz, offset, r, acc). length (rBytes r))")
    (auto dest!: walk_event_shorter intro: le_less_trans [OF read_or_skip_shorter])

declare last_event_loop.simps [simp del]

definition trim_right_nul :: "string \<Rightarrow> string" where
  "trim_right_nul s = rev (dropWhile (\<lambda>c. c = CHR 0x00) (rev s))"

definition rotate_target :: "goevents \<Rightarrow> bool \<Rightarrow> byte list \<Rightarrow> int \<Rightarrow> (string \<times> int \<times> int) option" where
  "rotate_target g crc32 lastBody lastPos =
     (let body = (if crc32 \<and> length lastBody \<ge> 4 then take (length lastBody - BinlogChecksumLength) lastBody
                  else lastBody)
      in if length body < 8 then None
         else (case decodeRotateEvent g body of
                 None \<Rightarrow> None
               | Some (next, position) \<Rightarrow>
                   (let name = trim_space (trim_right_nul next); pos = position mod 4294967296
                    in if \<not> rotateNameOK name then None else Some (name, if pos = 0 then 4 else pos, lastPos))))"

definition LastRotateTarget :: "goevents \<Rightarrow> segment_file \<Rightarrow> (string \<times> int \<times> int) option" where
  "LastRotateTarget g f =
     (case f of
        None \<Rightarrow> None
      | Some (sz, r) \<Rightarrow>
          (case after_magic sz r of
             None \<Rightarrow> None
           | Some r1 \<Rightarrow>
               (case last_event_loop g sz 4 r1 False None of
                  (crc32, Some (t, lastBody, lastPos)) \<Rightarrow>
                    if t \<noteq> ROTATE_EVENT (goBase g) \<or> length lastBody < 8 then None
                    else rotate_target g crc32 lastBody lastPos
                | _ \<Rightarrow> None)))"

section \<open>The open segment a resume continues from\<close>

record durableSegment =
  dsSource :: string
  dsSeq :: int
  dsEpoch :: int64
  dsPath :: string
  dsPos :: int

definition file_at :: "Disk \<Rightarrow> string \<Rightarrow> segment_file" where
  "file_at d name = map_option (\<lambda>bs. (int (length bs), file_reader bs)) (kFile d name)"

definition open_candidate :: "string \<Rightarrow> string \<times> bool \<Rightarrow> (string \<times> durableSegment) option" where
  "open_candidate taskDir entry =
     (if snd entry then None
      else case ClassifySegment (fst entry) of
             None \<Rightarrow> None
           | Some named \<Rightarrow>
               if \<not> nOpen named then None
               else Some (fst entry, \<lparr>dsSource = nSource named, dsSeq = nSeq named, dsEpoch = nEpoch named,
                      dsPath = path_join [taskDir, fst entry], dsPos = 0\<rparr>))"

fun first_durable :: "Disk \<Rightarrow> (string \<times> durableSegment) list \<Rightarrow> durableSegment option" where
  "first_durable d [] = None"
| "first_durable d ((name, seg) # rest) =
     (let (pos, _, _, ok) = DurableCursor (file_at d name)
      in if ok then Some (seg\<lparr>dsPos := pos\<rparr>) else first_durable d rest)"

definition durableOpenSegmentIn :: "Disk \<Rightarrow> string \<Rightarrow> (string \<times> bool) list \<Rightarrow> durableSegment option" where
  "durableOpenSegmentIn d taskDir entries =
     first_durable d (sort_key (\<lambda>x. (- dsSeq (snd x), - dsEpoch (snd x)))
       (List.map_filter (open_candidate taskDir) entries))"

definition durableOpenSegment :: "Disk \<Rightarrow> durableSegment option" where
  "durableOpenSegment d =
     (if trim_space (kDir d) = [] then None
      else case kEntries d of Inl _ \<Rightarrow> None | Inr entries \<Rightarrow> durableOpenSegmentIn d (trim_space (kDir d)) entries)"

definition DurableResumeDir :: "Disk \<Rightarrow> (string \<times> int) option" where
  "DurableResumeDir d = map_option (\<lambda>seg. (dsSource seg, dsPos seg)) (durableOpenSegment d)"

definition durableTaskDir :: "string \<Rightarrow> string \<Rightarrow> string option" where
  "durableTaskDir dataDir taskID =
     (let dataDir = trim_space dataDir; taskID = trim_space taskID
      in if dataDir = [] \<or> taskID = [] \<or> taskID \<noteq> path_base taskID \<or> has_prefix taskID ''.'' then None
         else Some (path_join [dataDir, taskID]))"

definition DurableResume :: "(string \<Rightarrow> Disk) \<Rightarrow> string \<Rightarrow> string \<Rightarrow> (string \<times> int) option" where
  "DurableResume disk dataDir taskID =
     (case durableTaskDir dataDir taskID of None \<Rightarrow> None | Some dir \<Rightarrow> DurableResumeDir (disk dir))"

end
