(* ===== verification/Bin_Tail.thy ===== *)
theory Bin_Tail
  imports Bin_Durable
begin

text \<open>
  The transactions of the open segment and the resume cut (\<open>internal/binlog/open_tail.go\<close>), the
  resume set of the ledger (\<open>Tail\<close>, \<open>ResumeGTID\<close>, \<open>Durable\<close> and \<open>unionDurable\<close> of
  \<open>internal/binlog/ledger.go\<close>), and the offset of one GTID in a segment
  (\<open>internal/binlog/gtid_pos.go\<close>). The union of GTID sets by go-mysql is a parameter.
\<close>

section \<open>Query texts\<close>

datatype QueryEffect = QueryInside | QueryBegins | QueryCommits

definition TransactionQueryEffect :: "string \<Rightarrow> bool \<Rightarrow> QueryEffect" where
  "TransactionQueryEffect query inTxn =
     (let upper = to_upper (trim_space query);
          head = before_any upper [CHR '' '', CHR 0x09, CHR 0x0D, CHR 0x0A]
      in if head = [] then QueryInside
         else if head = ''BEGIN'' then QueryBegins
         else if head = ''START'' then (if has_prefix upper ''START TRANSACTION'' then QueryBegins else QueryInside)
         else if head = ''COMMIT'' then QueryCommits
         else if head = ''ROLLBACK'' then (if has_prefix upper ''ROLLBACK TO'' then QueryInside else QueryCommits)
         else if head = ''XA'' then
           (if has_prefix upper ''XA COMMIT'' \<or> has_prefix upper ''XA ROLLBACK'' then QueryCommits else QueryInside)
         else if inTxn then QueryInside else QueryCommits)"

definition queryText :: "byte list \<Rightarrow> string" where
  "queryText body =
     (if length body < 13 then []
      else (let schemaLen = unat (body ! 8); statusVars = nat (little_endian (slice 11 13 body));
                start = 13 + statusVars + schemaLen + 1
            in if start > length body then [] else map byte_char (take 64 (drop start body))))"

section \<open>GTID texts\<close>

definition mysqlGTIDText :: "goevents \<Rightarrow> byte \<Rightarrow> byte list \<Rightarrow> string option" where
  "mysqlGTIDText g t body =
     (if t = GTID_EVENT (goBase g) then
        (let need = 1 + SidLength + 8;
             seq = wrap64 (little_endian (slice (1 + SidLength) need body));
             uuid = formatSID (slice 1 (1 + SidLength) body)
         in if length body < need then None
            else if seq \<le> 0 \<or> uuid = [] then None
            else Some (uuid @ '':'' @ format_int seq))
      else (case decodeTagged g body of
              None \<Rightarrow> None
            | Some text \<Rightarrow> if trim_space text \<noteq> [] then Some (trim_space text) else None))"

definition mariadbGTIDText :: "goevents \<Rightarrow> byte list \<Rightarrow> byte list \<Rightarrow> (string \<times> bool) option" where
  "mariadbGTIDText g hdr body =
     (if length body < 13 then None
      else if and (body ! 12) (FL_GROUP_COMMIT_ID g) \<noteq> 0 \<and> length body < 21 then None
      else decodeMariadbGTID g (little_endian (slice 5 9 hdr)) body)"

definition mariadbGTIDList :: "goevents \<Rightarrow> byte list \<Rightarrow> string option" where
  "mariadbGTIDList g body =
     (if length body < 4 then None
      else (let count = little_endian (slice 0 4 body) mod 268435456
            in if int (length body) - 4 < count * 16 then None
               else map_option (join_with CHR '','') (decodeMariadbList g body)))"

definition tailNeedsBody :: "goevents \<Rightarrow> byte \<Rightarrow> bool" where
  "tailNeedsBody g t \<longleftrightarrow> t = FORMAT_DESCRIPTION_EVENT (goBase g) \<or> t = PREVIOUS_GTIDS_EVENT (goBase g)
     \<or> t = GTID_EVENT (goBase g) \<or> t = GTID_TAGGED_LOG_EVENT g \<or> t = MARIADB_GTID_EVENT g
     \<or> t = MARIADB_GTID_LIST_EVENT g \<or> t = QUERY_EVENT g"

section \<open>The scan\<close>

record OpenTail =
  otPath :: string
  otFile :: string
  otPos :: int
  otGTIDs :: "string list"
  otPrevious :: "string list"
  otTruncate :: bool
  otCutOffset :: int64
  otPartialGTID :: string
  otPartialInTxn :: bool

record tail_state =
  tsGTIDs :: "string list"
  tsPrevious :: "string list"
  tsCrc32 :: bool
  tsPending :: string
  tsPendingOff :: int64
  tsPendingStart :: int
  tsInTxn :: bool
  tsLastPos :: int
  tsCutOff :: int64
  tsCutPos :: int
  tsFound :: bool

definition tail_start :: tail_state where
  "tail_start = \<lparr>tsGTIDs = [], tsPrevious = [], tsCrc32 = False, tsPending = [], tsPendingOff = 0, tsPendingStart = 0,
     tsInTxn = False, tsLastPos = 0, tsCutOff = 0, tsCutPos = 0, tsFound = False\<rparr>"

definition tail_commit :: "tail_state \<Rightarrow> tail_state" where
  "tail_commit s =
     s\<lparr>tsGTIDs := (if tsPending s \<noteq> [] then tsGTIDs s @ [tsPending s] else tsGTIDs s), tsPending := [], tsInTxn := False\<rparr>"

definition tail_open :: "tail_state \<Rightarrow> string \<Rightarrow> int64 \<Rightarrow> int \<Rightarrow> int \<Rightarrow> tail_state" where
  "tail_open s gtid start eventSize logPos =
     s\<lparr>tsPending := gtid, tsPendingOff := start,
       tsPendingStart := (if logPos \<ge> eventSize then logPos - eventSize else 0)\<rparr>"

definition tail_switch :: "goevents \<Rightarrow> tail_state \<Rightarrow> byte list \<Rightarrow> byte list \<Rightarrow> int64 \<Rightarrow> int \<Rightarrow> int \<Rightarrow> tail_state" where
  "tail_switch g s hdr body start eventSize logPos =
     (let t = hdr ! 4;
          payload = (if tsCrc32 s \<and> t \<noteq> FORMAT_DESCRIPTION_EVENT (goBase g) \<and> length body \<ge> BinlogChecksumLength
                     then take (length body - BinlogChecksumLength) body else body);
          closed = s\<lparr>tsPending := [], tsInTxn := False\<rparr>
      in if t = FORMAT_DESCRIPTION_EVENT (goBase g) then s\<lparr>tsCrc32 := fdChecksum (goBase g) body\<rparr>
         else if t = PREVIOUS_GTIDS_EVENT (goBase g) then
           (case decodePreviousGTIDs (goBase g) body (tsCrc32 s) of
              Some text \<Rightarrow> if trim_space text \<noteq> [] then s\<lparr>tsPrevious := tsPrevious s @ [text]\<rparr> else s
            | None \<Rightarrow> s)
         else if t = MARIADB_GTID_LIST_EVENT g then
           (case mariadbGTIDList g payload of
              Some text \<Rightarrow> if text \<noteq> [] then s\<lparr>tsPrevious := tsPrevious s @ [text]\<rparr> else s
            | None \<Rightarrow> s)
         else if t = ANONYMOUS_GTID_EVENT g then closed
         else if t = GTID_EVENT (goBase g) \<or> t = GTID_TAGGED_LOG_EVENT g then
           (case mysqlGTIDText g t payload of
              Some gtid \<Rightarrow> tail_open closed gtid start eventSize logPos
            | None \<Rightarrow> closed)
         else if t = MARIADB_GTID_EVENT g then
           (case mariadbGTIDText g hdr payload of
              Some (gtid, standalone) \<Rightarrow>
                if standalone then closed\<lparr>tsGTIDs := tsGTIDs s @ [gtid]\<rparr>
                else (tail_open closed gtid start eventSize logPos)\<lparr>tsInTxn := True\<rparr>
            | None \<Rightarrow> closed)
         else if t = XID_EVENT g \<or> t = XA_PREPARE_LOG_EVENT g \<or> t = TRANSACTION_PAYLOAD_EVENT g then tail_commit s
         else if t = QUERY_EVENT g then
           (if tsPending s = [] then s
            else (case TransactionQueryEffect (queryText payload) (tsInTxn s) of
                    QueryBegins \<Rightarrow> s\<lparr>tsInTxn := True\<rparr>
                  | QueryCommits \<Rightarrow> tail_commit s
                  | QueryInside \<Rightarrow> s))
         else s)"

text \<open>The bookkeeping after the switch; \<open>offset\<close> is the end of the event.\<close>

definition tail_note :: "tail_state \<Rightarrow> int64 \<Rightarrow> int \<Rightarrow> tail_state" where
  "tail_note s offset logPos =
     (if logPos = 0 then s
      else (let s = s\<lparr>tsLastPos := logPos, tsFound := True\<rparr>
            in if tsPending s = [] then s\<lparr>tsCutOff := offset, tsCutPos := logPos\<rparr> else s))"

definition tail_event :: "goevents \<Rightarrow> tail_state \<Rightarrow> byte list \<Rightarrow> byte list \<Rightarrow> int64 \<Rightarrow> int \<Rightarrow> int \<Rightarrow> tail_state" where
  "tail_event g s hdr body start eventSize logPos =
     tail_note (tail_switch g s hdr body start eventSize logPos) (start + eventSize) logPos"

definition tail_body :: "bool \<Rightarrow> Reader \<Rightarrow> int \<Rightarrow> (byte list \<times> Reader) option" where
  "tail_body needed r n =
     (case ReadFull r (nat n) of Full b r' \<Rightarrow> Some (if needed then b else [], r') | _ \<Rightarrow> None)"

lemma tail_body_shorter: "tail_body needed r n = Some (b, r') \<Longrightarrow> length (rBytes r') \<le> length (rBytes r)"
  by (auto simp: tail_body_def ReadFull_Full split: read_result.splits)

function tail_loop :: "goevents \<Rightarrow> int64 \<Rightarrow> int64 \<Rightarrow> Reader \<Rightarrow> tail_state \<Rightarrow> tail_state" where
  "tail_loop g sz offset r s =
     (case walk_event sz offset r of
        At hdr eventSize logPos r1 \<Rightarrow>
          (case tail_body (tailNeedsBody g (hdr ! 4)) r1 (body_len eventSize) of
             None \<Rightarrow> s
           | Some (body, r2) \<Rightarrow>
               tail_loop g sz (offset + eventSize) r2 (tail_event g s hdr body offset eventSize logPos))
      | _ \<Rightarrow> s)"
  by pat_completeness auto
termination
  by (relation "measure (\<lambda>(g, sz, offset, r, s). length (rBytes r))")
    (auto dest!: walk_event_shorter intro: le_less_trans [OF tail_body_shorter])

declare tail_loop.simps [simp del]

definition tail_result :: "string \<Rightarrow> tail_state \<Rightarrow> OpenTail option" where
  "tail_result path s =
     (if \<not> tsFound s then None
      else (let cut = (tsPending s \<noteq> [] \<and> tsCutPos s \<noteq> 0 \<and> tsCutOff s = tsPendingOff s
                       \<and> tsCutPos s = tsPendingStart s)
            in Some \<lparr>otPath = path, otFile = [], otPos = (if cut then tsCutPos s else tsLastPos s),
                  otGTIDs = tsGTIDs s, otPrevious = tsPrevious s, otTruncate = cut,
                  otCutOffset = (if cut then tsCutOff s else 0), otPartialGTID = tsPending s,
                  otPartialInTxn = (tsPending s \<noteq> [] \<and> tsInTxn s)\<rparr>))"

definition tail_magic :: "Reader \<Rightarrow> Reader option" where
  "tail_magic r = (case ReadFull r 4 of Full magic r1 \<Rightarrow> if magic = durableMagic then Some r1 else None | _ \<Rightarrow> None)"

definition ScanOpenTail :: "goevents \<Rightarrow> string \<Rightarrow> segment_file \<Rightarrow> OpenTail option" where
  "ScanOpenTail g path f =
     (case f of
        None \<Rightarrow> None
      | Some (sz, r) \<Rightarrow>
          (case tail_magic r of
             None \<Rightarrow> None
           | Some r1 \<Rightarrow> tail_result path (tail_loop g sz 4 r1 tail_start)))"

section \<open>What a resume asks the source for\<close>

text \<open>The path of a segment is the directory joined with its name, so its file is the one of that name.\<close>

definition Tail :: "goevents \<Rightarrow> Disk \<Rightarrow> OpenTail option" where
  "Tail g d =
     (if kDir d = '''' then None
      else case kEntries d of
             Inl _ \<Rightarrow> None
           | Inr entries \<Rightarrow>
               (case durableOpenSegmentIn d (kDir d) entries of
                  None \<Rightarrow> None
                | Some seg \<Rightarrow>
                    (case ScanOpenTail g (dsPath seg) (file_at d (path_base (dsPath seg))) of
                       None \<Rightarrow> None
                     | Some tail \<Rightarrow> Some (tail\<lparr>otFile := dsSource seg\<rparr>))))"

text \<open>The GTID sets of go-mysql: \<open>updateSet\<close> is the set after \<open>Update\<close>, whose error is dropped.\<close>

record 's gosets =
  parseSet :: "string \<Rightarrow> string \<Rightarrow> 's option"
  updateSet :: "'s \<Rightarrow> string \<Rightarrow> 's"
  emptySet :: "'s \<Rightarrow> bool"
  setText :: "'s \<Rightarrow> string"

definition Durable :: "OpenTail \<Rightarrow> string list" where
  "Durable t = otGTIDs t"

definition union_add :: "'s gosets \<Rightarrow> string \<Rightarrow> 's option \<Rightarrow> string \<Rightarrow> 's option" where
  "union_add m flavor acc text =
     (let text = trim_space text
      in if text = [] then acc
         else case acc of None \<Rightarrow> parseSet m flavor text | Some s \<Rightarrow> Some (updateSet m s text))"

definition unionDurable :: "'s gosets \<Rightarrow> string \<Rightarrow> string \<Rightarrow> OpenTail \<Rightarrow> string" where
  "unionDurable m flavor seed tail =
     (let flavor = (if trim_space flavor = [] then ''mysql'' else flavor)
      in case foldl (union_add m flavor) (union_add m flavor None seed) (Durable tail) of
           None \<Rightarrow> []
         | Some s \<Rightarrow> if emptySet m s then [] else setText m s)"

definition zero_tail :: OpenTail where
  "zero_tail = \<lparr>otPath = [], otFile = [], otPos = 0, otGTIDs = [], otPrevious = [], otTruncate = False,
     otCutOffset = 0, otPartialGTID = [], otPartialInTxn = False\<rparr>"

definition ResumeGTID :: "goevents \<Rightarrow> 's gosets \<Rightarrow> Disk \<Rightarrow> string \<Rightarrow> string \<Rightarrow> (OpenTail \<times> string) option" where
  "ResumeGTID g m d flavor seed =
     (case Tail g d of
        None \<Rightarrow> None
      | Some tail \<Rightarrow>
          (let union = unionDurable m flavor seed (zero_tail\<lparr>otGTIDs := [SealedText (goBase g) d flavor]\<rparr>)
           in Some (tail, unionDurable m flavor union tail)))"

section \<open>The offset of one GTID\<close>

record GTIDHit =
  hOffset :: int
  hWhen :: instant

record SegmentGTIDScan =
  sgHit :: "GTIDHit option"
  sgSpan :: span

definition gtidBodyMatches :: "byte list \<Rightarrow> string \<Rightarrow> int64 \<Rightarrow> bool" where
  "gtidBodyMatches body uuid seq =
     (let need = 1 + SidLength + 8
      in length body \<ge> need \<and> wrap64 (little_endian (slice (1 + SidLength) need body)) = seq
         \<and> formatSID (slice 1 (1 + SidLength) body) = uuid)"

text \<open>The byte offset is a 64-bit counter that adds the 32-bit event sizes of bytes really read.\<close>

function pos_loop :: "goreplication \<Rightarrow> string \<Rightarrow> int64 \<Rightarrow> int \<Rightarrow> Reader \<Rightarrow> span
    \<Rightarrow> SegmentGTIDScan \<times> scan_error option" where
  "pos_loop g want seq offset r s =
     (case ReadFull r EventHeaderSize of
        EOF \<Rightarrow> (\<lparr>sgHit = None, sgSpan = s\<rparr>, None)
      | UnexpectedEOF _ \<Rightarrow> (\<lparr>sgHit = None, sgSpan = s\<rparr>, None)
      | Failed e \<Rightarrow> (\<lparr>sgHit = None, sgSpan = zero_span\<rparr>, Some (ErrRead e))
      | Full hdr r1 \<Rightarrow>
          (let eventSize = little_endian (slice 9 13 hdr)
           in if eventSize < int EventHeaderSize then (\<lparr>sgHit = None, sgSpan = s\<rparr>, None)
              else case eventBodyBytes eventSize (readerRemaining r1) False of
                     Inl e \<Rightarrow> (\<lparr>sgHit = None, sgSpan = zero_span\<rparr>, Some e)
                   | Inr rest \<Rightarrow>
                      if rest < 0 then (\<lparr>sgHit = None, sgSpan = s\<rparr>, None)
                      else (case read_body r1 rest of
                              None \<Rightarrow> (\<lparr>sgHit = None, sgSpan = s\<rparr>, None)
                            | Some (body, r2) \<Rightarrow>
                               (let s = count_header g hdr s
                                in if hdr ! 4 = GTID_EVENT g \<and> gtidBodyMatches body want seq
                                   then (\<lparr>sgHit = Some \<lparr>hOffset = offset,
                                            hWhen = unix_time (little_endian (slice 0 4 hdr))\<rparr>, sgSpan = s\<rparr>, None)
                                   else pos_loop g want seq (offset + eventSize) r2 s))))"
  by pat_completeness auto

termination pos_loop
proof (relation "measure (\<lambda>(g, want, seq, offset, r, s). length (rBytes r))", goal_cases)
  case 1
  then show ?case by simp
next
  case (2 g want seq offset r s hdr r1 eventSize rest p body r2 s')
  then show ?case
    using read_body_shorter [of r1 rest body r2] by (auto simp: ReadFull_Full EventHeaderSize_def)
qed

declare pos_loop.simps [simp del]

definition ScanSegmentForGTID :: "goreplication \<Rightarrow> Reader \<Rightarrow> string \<Rightarrow> int64 \<Rightarrow> SegmentGTIDScan \<times> scan_error option" where
  "ScanSegmentForGTID g r uuid seq =
     (let nothing = \<lparr>sgHit = None, sgSpan = zero_span\<rparr>
      in if seq \<le> 0 then (nothing, None)
         else (case ReadFull r 4 of
                 EOF \<Rightarrow> (nothing, None)
               | UnexpectedEOF _ \<Rightarrow> (nothing, None)
               | Failed e \<Rightarrow> (nothing, Some (ErrRead e))
               | Full magic r1 \<Rightarrow>
                   if magic \<noteq> durableMagic then (nothing, None)
                   else pos_loop g (to_lower (trim_space uuid)) seq 4 r1 zero_span))"

end
