(* ===== verification/Bin_Tail_Props.thy ===== *)
theory Bin_Tail_Props
  imports Bin_Tail Bin_Ledger_Props "HOL-Library.Sublist"
begin

text \<open>
  Where a segment durably ends. The loops over a file are folds over the list of its complete events,
  a reference that only cuts bytes. From it: the open-tail scan and the durable cursor stop at the same
  event, a file cut at the offset the scan gives holds only whole transactions and scans to the same
  ones, and a GTID is found at the offset where the segment log lists it.
\<close>

section \<open>The complete events of a file\<close>

type_synonym raw_event = "int \<times> byte list \<times> byte list"

definition event_size :: "raw_event \<Rightarrow> int" where
  "event_size e = int (length (fst (snd e)) + length (snd (snd e)))"

definition event_pos :: "raw_event \<Rightarrow> int" where
  "event_pos e = little_endian (slice 13 17 (fst (snd e)))"

function complete_events :: "int \<Rightarrow> byte list \<Rightarrow> raw_event list" where
  "complete_events offset bs =
     (let n = nat (little_endian (slice 9 13 bs))
      in if length bs < EventHeaderSize \<or> n < EventHeaderSize \<or> length bs < n then []
         else (offset, take EventHeaderSize bs, slice EventHeaderSize n bs)
              # complete_events (offset + int n) (drop n bs))"
  by pat_completeness auto
termination
  by (relation "measure (\<lambda>(offset, bs). length bs)") (auto simp: EventHeaderSize_def)

declare complete_events.simps [simp del]

lemma slice_take: "j \<le> n \<Longrightarrow> slice i j (take n bs) = slice i j bs"
  by (simp add: slice_def drop_take min_def)

lemma slice_append: "j \<le> length xs \<Longrightarrow> slice i j (xs @ ys) = slice i j xs"
  by (cases "i \<le> length xs") (simp_all add: slice_def)

lemma walk_event_file:
  assumes "rBytes r = bs" "rFail r = None" "sz = offset + int (length bs)"
  defines "n \<equiv> nat (little_endian (slice 9 13 bs))"
  shows "walk_event sz offset r =
    (if length bs < EventHeaderSize then AtEnd
     else if n < EventHeaderSize \<or> length bs < n then Broken
     else At (take EventHeaderSize bs) (int n) (little_endian (slice 13 17 bs)) (r\<lparr>rBytes := drop EventHeaderSize bs\<rparr>))"
proof (cases "length bs < EventHeaderSize")
  case True
  then show ?thesis using assms by (simp add: walk_event_def)
next
  case False
  have "ReadFull r EventHeaderSize = Full (take EventHeaderSize bs) (r\<lparr>rBytes := drop EventHeaderSize bs\<rparr>)"
    using False assms(1) by (simp add: ReadFull_Full)
  then show ?thesis
    using False assms by (auto simp: walk_event_def Let_def slice_take EventHeaderSize_def)
qed

lemma complete_events_Cons:
  assumes "complete_events offset bs = e # es"
  shows "bs = fst (snd e) @ snd (snd e) @ drop (nat (event_size e)) bs" "fst e = offset"
    "length (fst (snd e)) = EventHeaderSize" "event_size e = little_endian (slice 9 13 bs)"
    "es = complete_events (offset + event_size e) (drop (nat (event_size e)) bs)"
    "nat (event_size e) \<le> length bs" "event_pos e = little_endian (slice 13 17 bs)" "int EventHeaderSize \<le> event_size e"
proof -
  define n where "n = nat (little_endian (slice 9 13 bs))"
  have n: "EventHeaderSize \<le> n" "n \<le> length bs" "EventHeaderSize \<le> length bs"
    and e: "e = (offset, take EventHeaderSize bs, slice EventHeaderSize n bs)"
    and es: "es = complete_events (offset + int n) (drop n bs)"
    using assms by (auto simp: complete_events.simps [of offset bs] n_def [symmetric] Let_def split: if_splits)
  have sz: "event_size e = int n" using n by (simp add: e event_size_def slice_def)
  show "nat (event_size e) \<le> length bs" "fst e = offset" "length (fst (snd e)) = EventHeaderSize"
    "es = complete_events (offset + event_size e) (drop (nat (event_size e)) bs)"
    "int EventHeaderSize \<le> event_size e"
    using n sz es by (simp_all add: e)
  show "event_size e = little_endian (slice 9 13 bs)" using n sz by (simp add: n_def)
  show "event_pos e = little_endian (slice 13 17 bs)"
    by (simp add: e event_pos_def slice_take EventHeaderSize_def)
  have "take EventHeaderSize bs @ slice EventHeaderSize n bs = take n bs"
    using n by (simp add: slice_def take_add [symmetric])
  then show "bs = fst (snd e) @ snd (snd e) @ drop (nat (event_size e)) bs"
    using sz by (simp add: e flip: append_assoc)
qed

lemma walk_complete_Nil:
  assumes "complete_events offset (rBytes r) = []" "rFail r = None" "sz = offset + int (length (rBytes r))"
  shows "walk_event sz offset r = AtEnd \<or> walk_event sz offset r = Broken"
  using assms walk_event_file [of r "rBytes r" sz offset]
  by (auto simp: complete_events.simps [of offset "rBytes r"] Let_def split: if_splits)

lemma walk_complete_Cons:
  assumes "complete_events offset (rBytes r) = e # es" "rFail r = None" "sz = offset + int (length (rBytes r))"
  shows "walk_event sz offset r = At (fst (snd e)) (event_size e) (event_pos e)
      (r\<lparr>rBytes := snd (snd e) @ drop (nat (event_size e)) (rBytes r)\<rparr>)"
proof -
  note c = complete_events_Cons [OF assms(1)]
  have "take EventHeaderSize (rBytes r) = fst (snd e)"
    "drop EventHeaderSize (rBytes r) = snd (snd e) @ drop (nat (event_size e)) (rBytes r)"
    using c(1, 3) by (metis append_eq_conv_conj)+
  then show ?thesis
    using c(3, 4, 6, 7, 8) walk_event_file [OF refl assms(2, 3)] by (auto simp: nat_le_iff)
qed

text \<open>After the body of the first complete event the reader stands at the next one.\<close>

lemma after_event:
  assumes "complete_events offset (rBytes r) = e # es" "sz = offset + int (length (rBytes r))"
  defines "r' \<equiv> r\<lparr>rBytes := drop (nat (event_size e)) (rBytes r)\<rparr>"
  shows "complete_events (offset + event_size e) (rBytes r') = es" "sz = offset + event_size e + int (length (rBytes r'))"
    "rFail r' = rFail r"
  using complete_events_Cons(5, 6, 8) [OF assms(1)] assms(2) by (simp_all add: r'_def)

lemma body_len_event:
  "length (fst (snd e)) = EventHeaderSize \<Longrightarrow> nat (body_len (event_size e)) = length (snd (snd e))"
  by (simp add: body_len_def event_size_def)

lemma skip_to_next:
  assumes "complete_events offset (rBytes r) = e # es"
  shows "skip_bytes (r\<lparr>rBytes := snd (snd e) @ drop (nat (event_size e)) (rBytes r)\<rparr>) (body_len (event_size e))
       = r\<lparr>rBytes := drop (nat (event_size e)) (rBytes r)\<rparr>"
  by (simp add: skip_bytes_def body_len_event [OF complete_events_Cons(3) [OF assms]])

lemma body_to_next:
  assumes "complete_events offset (rBytes r) = e # es"
  shows "tail_body need (r\<lparr>rBytes := snd (snd e) @ drop (nat (event_size e)) (rBytes r)\<rparr>) (body_len (event_size e))
       = Some (if need then snd (snd e) else [], r\<lparr>rBytes := drop (nat (event_size e)) (rBytes r)\<rparr>)"
  by (simp add: tail_body_def ReadFull_def body_len_event [OF complete_events_Cons(3) [OF assms]])

lemmas complete_walk = walk_complete_Cons skip_to_next body_to_next

section \<open>The loops as folds\<close>

definition cursor_note :: "(int \<times> int64) option \<Rightarrow> raw_event \<Rightarrow> (int \<times> int64) option" where
  "cursor_note acc e = (if event_pos e = 0 then acc else Some (event_pos e, fst e + event_size e))"

definition tail_note_event :: "goevents \<Rightarrow> tail_state \<Rightarrow> raw_event \<Rightarrow> tail_state" where
  "tail_note_event g s e =
     tail_event g s (fst (snd e)) (if tailNeedsBody g (fst (snd e) ! 4) then snd (snd e) else [])
       (fst e) (event_size e) (event_pos e)"

lemma cursor_loop_fold:
  assumes "complete_events offset (rBytes r) = es" "rFail r = None" "sz = offset + int (length (rBytes r))"
  shows "cursor_loop sz offset r acc = foldl cursor_note acc es"
  using assms
proof (induction es arbitrary: offset r acc)
  case Nil
  show ?case using walk_complete_Nil [OF Nil] by (auto simp: cursor_loop.simps [of sz offset])
next
  case (Cons e es)
  note next' = after_event [OF Cons.prems(1, 3)] and at = complete_events_Cons(2) [OF Cons.prems(1)]
  show ?case
    using Cons.IH [OF next'(1) _ next'(2)] Cons.prems(2) at
    by (simp add: cursor_loop.simps [of sz offset] complete_walk [OF Cons.prems(1)] walk_complete_Cons [OF Cons.prems]
        cursor_note_def)
qed

lemma tail_loop_fold:
  assumes "complete_events offset (rBytes r) = es" "rFail r = None" "sz = offset + int (length (rBytes r))"
  shows "tail_loop g sz offset r s = foldl (tail_note_event g) s es"
  using assms
proof (induction es arbitrary: offset r s)
  case Nil
  show ?case using walk_complete_Nil [OF Nil] by (auto simp: tail_loop.simps [of g sz offset])
next
  case (Cons e es)
  note next' = after_event [OF Cons.prems(1, 3)] and at = complete_events_Cons(2) [OF Cons.prems(1)]
  show ?case
    using Cons.IH [OF next'(1) _ next'(2)] Cons.prems(2) at
    by (simp add: tail_loop.simps [of g sz offset] body_to_next [OF Cons.prems(1)] walk_complete_Cons [OF Cons.prems]
        tail_note_event_def)
qed

definition segment_bytes :: "byte list \<Rightarrow> segment_file" where
  "segment_bytes bs = Some (int (length bs), file_reader bs)"

definition segment_events :: "byte list \<Rightarrow> raw_event list" where
  "segment_events bs = (if take 4 bs = durableMagic then complete_events 4 (drop 4 bs) else [])"

lemma magic_length: "take 4 bs = durableMagic \<Longrightarrow> 4 \<le> length bs"
  by (drule arg_cong [where f = length]) (simp add: durableMagic_def)

lemma DurableCursor_fold:
  "DurableCursor (segment_bytes bs) =
     (case foldl cursor_note None (segment_events bs) of
        None \<Rightarrow> (0, 0, int (length bs), False) | Some (pos, en) \<Rightarrow> (pos, en, int (length bs), True))"
proof (cases "take 4 bs = durableMagic")
  case True
  have "after_magic (int (length bs)) (file_reader bs) = Some (file_reader (drop 4 bs))"
    using True magic_length [OF True] by (simp add: after_magic_def file_reader_def ReadFull_def)
  moreover have "cursor_loop (int (length bs)) 4 (file_reader (drop 4 bs)) None = foldl cursor_note None (segment_events bs)"
    using True magic_length [OF True] by (intro cursor_loop_fold) (simp_all add: segment_events_def file_reader_def)
  ultimately show ?thesis by (simp add: DurableCursor_def segment_bytes_def)
next
  case False
  then have "after_magic (int (length bs)) (file_reader bs) = None"
    by (auto simp: after_magic_def file_reader_def ReadFull_def split: if_splits)
  then show ?thesis using False by (simp add: DurableCursor_def segment_bytes_def segment_events_def)
qed

lemma ScanOpenTail_fold:
  "ScanOpenTail g path (segment_bytes bs) = tail_result path (foldl (tail_note_event g) tail_start (segment_events bs))"
proof (cases "take 4 bs = durableMagic")
  case True
  have "tail_magic (file_reader bs) = Some (file_reader (drop 4 bs))"
    using True magic_length [OF True] by (simp add: tail_magic_def file_reader_def ReadFull_def)
  moreover have "tail_loop g (int (length bs)) 4 (file_reader (drop 4 bs)) tail_start
      = foldl (tail_note_event g) tail_start (segment_events bs)"
    using True magic_length [OF True] by (intro tail_loop_fold) (simp_all add: segment_events_def file_reader_def)
  ultimately show ?thesis by (simp add: ScanOpenTail_def segment_bytes_def)
next
  case False
  then have "tail_magic (file_reader bs) = None"
    by (auto simp: tail_magic_def file_reader_def ReadFull_def Let_def split: if_splits)
  then show ?thesis
    using False by (simp add: ScanOpenTail_def segment_bytes_def segment_events_def tail_result_def tail_start_def)
qed

section \<open>What one event does to the scan\<close>

text \<open>The switch leaves the cut alone; afterwards nothing is pending, or the same transaction is and
  the committed ones are the same, or this event opened one.\<close>

definition switched :: "tail_state \<Rightarrow> int \<Rightarrow> tail_state \<Rightarrow> bool" where
  "switched s start t \<longleftrightarrow> tsCutOff t = tsCutOff s \<and> tsCutPos t = tsCutPos s \<and> tsLastPos t = tsLastPos s
     \<and> tsFound t = tsFound s \<and> prefix (tsPrevious s) (tsPrevious t)
     \<and> (tsPending t = []
        \<or> (tsPending t = tsPending s \<and> tsPendingOff t = tsPendingOff s \<and> tsGTIDs t = tsGTIDs s)
        \<or> (tsPendingOff t = start \<and> tsGTIDs t = tsGTIDs s))"

lemma switched_if: "switched s st a \<Longrightarrow> switched s st b \<Longrightarrow> switched s st (if c then a else b)"
  by simp

lemma switched_option:
  "switched s st a \<Longrightarrow> (\<And>x. switched s st (f x)) \<Longrightarrow> switched s st (case opt of None \<Rightarrow> a | Some x \<Rightarrow> f x)"
  by (cases opt) simp_all

lemma switched_pair: "(\<And>x y. switched s st (f x y)) \<Longrightarrow> switched s st (case p of (x, y) \<Rightarrow> f x y)"
  by (cases p) simp

lemma switched_query:
  "switched s st a \<Longrightarrow> switched s st b \<Longrightarrow> switched s st c \<Longrightarrow>
   switched s st (case q of QueryInside \<Rightarrow> a | QueryBegins \<Rightarrow> b | QueryCommits \<Rightarrow> c)"
  by (cases q) simp_all

lemma switched_leaves:
  "switched s st s" "switched s st (s\<lparr>tsCrc32 := c\<rparr>)" "switched s st (s\<lparr>tsPrevious := tsPrevious s @ [x]\<rparr>)"
  "switched s st (s\<lparr>tsPending := [], tsInTxn := b\<rparr>)" "switched s st (s\<lparr>tsInTxn := b\<rparr>)" "switched s st (tail_commit s)"
  "switched s st (tail_open (s\<lparr>tsPending := [], tsInTxn := b\<rparr>) gt st e lp)"
  "switched s st ((tail_open (s\<lparr>tsPending := [], tsInTxn := b\<rparr>) gt st e lp)\<lparr>tsInTxn := b'\<rparr>)"
  "switched s st (s\<lparr>tsPending := [], tsInTxn := b, tsGTIDs := gs\<rparr>)"
  by (simp_all add: switched_def tail_commit_def tail_open_def)

lemma tail_switch_switched: "switched s start (tail_switch g s hdr body start esz pos)"
  unfolding tail_switch_def Let_def
  by (intro switched_if switched_option switched_pair switched_query switched_leaves)

section \<open>The cut\<close>

definition span_bytes :: "raw_event list \<Rightarrow> int" where
  "span_bytes es = sum_list (map event_size es)"

lemma span_bytes_simps [simp]: "span_bytes [] = 0" "span_bytes (e # es) = event_size e + span_bytes es" "span_bytes (p @ q) = span_bytes p + span_bytes q"
  by (simp_all add: span_bytes_def)

definition contiguous :: "int \<Rightarrow> raw_event list \<Rightarrow> bool" where
  "contiguous offset es \<longleftrightarrow> (\<forall>p e q. es = p @ e # q \<longrightarrow> fst e = offset + span_bytes p \<and> 0 < event_size e)"

lemma contiguous_snoc:
  assumes "contiguous offset (es @ [e])"
  shows "contiguous offset es" "fst e = offset + span_bytes es" "0 < event_size e"
proof -
  show "contiguous offset es"
    unfolding contiguous_def
  proof (intro allI impI)
    fix p x q assume "es = p @ x # q"
    then have "es @ [e] = p @ x # (q @ [e])" by simp
    then show "fst x = offset + span_bytes p \<and> 0 < event_size x"
      using assms unfolding contiguous_def by blast
  qed
  show "fst e = offset + span_bytes es" "0 < event_size e"
    using assms unfolding contiguous_def by blast+
qed

lemma contiguous_no_bytes: "contiguous offset (p @ q) \<Longrightarrow> span_bytes q = 0 \<Longrightarrow> q = []"
proof (rule ccontr)
  assume c: "contiguous offset (p @ q)" and "span_bytes q = 0" "q \<noteq> []"
  have pos: "0 < event_size x" if "x \<in> set q" for x
    using c split_list [OF that] unfolding contiguous_def by (metis append_assoc)
  have "0 < span_bytes q" using \<open>q \<noteq> []\<close> pos
  proof (induction q)
    case (Cons x xs)
    have "0 < event_size x" using Cons.prems(2) [of x] by simp
    moreover have "xs \<noteq> [] \<Longrightarrow> 0 < span_bytes xs" using Cons.IH Cons.prems(2) by simp
    ultimately show ?case by (cases "xs = []") auto
  qed simp
  then show False using \<open>span_bytes q = 0\<close> by simp
qed

lemma complete_events_split:
  assumes "complete_events offset bs = p @ q"
  shows "0 \<le> span_bytes p \<and> span_bytes p \<le> int (length bs) \<and> complete_events offset (take (nat (span_bytes p)) bs) = p
    \<and> (q \<noteq> [] \<longrightarrow> fst (hd q) = offset + span_bytes p \<and> 0 < event_size (hd q)
         \<and> span_bytes p + event_size (hd q) \<le> int (length bs))"
  using assms
proof (induction p arbitrary: offset bs)
  case Nil
  have "complete_events offset [] = []" by (simp add: complete_events.simps EventHeaderSize_def)
  then show ?case
    using complete_events_Cons [of offset bs "hd q" "tl q"] Nil by (cases q) (auto simp: EventHeaderSize_def)
next
  case (Cons e p)
  note c = complete_events_Cons [OF Cons.prems [simplified]]
  have e: "EventHeaderSize \<le> nat (event_size e)" "int (nat (event_size e)) = event_size e" using c(8) by auto
  note IH = Cons.IH [OF c(5) [symmetric]]
  define n where "n = nat (event_size e)"
  define bs' where "bs' = take (n + nat (span_bytes p)) bs"
  have m: "nat (span_bytes (e # p)) = n + nat (span_bytes p)" using IH c(8) by (simp add: n_def nat_add_distrib)
  have len: "n \<le> length bs'" using c(6) by (simp add: bs'_def n_def [symmetric])
  have sl: "slice 9 13 bs' = slice 9 13 bs"
    using e unfolding bs'_def n_def by (intro slice_take) (simp add: EventHeaderSize_def)
  have "complete_events offset bs' = (offset, take EventHeaderSize bs', slice EventHeaderSize n bs')
      # complete_events (offset + int n) (drop n bs')"
    using e len c(4) by (simp add: complete_events.simps [of offset bs'] sl n_def Let_def)
  moreover have "drop n bs' = take (nat (span_bytes p)) (drop n bs)" by (simp add: bs'_def drop_take)
  moreover have "take EventHeaderSize bs' = fst (snd e)"
    using c(1, 3) e len unfolding bs'_def
    by (metis append_eq_conv_conj min.absorb1 n_def take_take trans_le_add1)
  moreover have "slice EventHeaderSize n bs' = snd (snd e)"
  proof -
    have "slice EventHeaderSize n bs' = slice EventHeaderSize n bs" unfolding bs'_def by (simp add: slice_take)
    also have "\<dots> = take (n - EventHeaderSize) (drop EventHeaderSize (fst (snd e) @ snd (snd e) @ drop n bs))"
      using c(1) by (simp add: slice_def n_def)
    also have "\<dots> = snd (snd e)" using c(3) by (simp add: n_def event_size_def)
    finally show ?thesis .
  qed
  ultimately have "complete_events offset bs' = e # p"
    using IH c(2) e(2) prod.collapse [of e] prod.collapse [of "snd e"] unfolding n_def by metis
  then show ?case using IH c(6, 8) by (auto simp: m [simplified] bs'_def)
qed

lemma complete_contiguous: "contiguous offset (complete_events offset bs)"
  using complete_events_split [of offset bs] unfolding contiguous_def by fastforce

text \<open>The cut offset is the end of a run of events after which nothing was pending, and a transaction
  that starts right there has added nothing to the committed ones since.\<close>

definition run_tail :: "goevents \<Rightarrow> raw_event list \<Rightarrow> tail_state" where
  "run_tail g es = foldl (tail_note_event g) tail_start es"

definition cut_at :: "goevents \<Rightarrow> int \<Rightarrow> tail_state \<Rightarrow> raw_event list \<Rightarrow> bool" where
  "cut_at g offset s p \<longleftrightarrow> offset + span_bytes p = tsCutOff s \<and> tsPending (run_tail g p) = []
     \<and> tsLastPos (run_tail g p) = tsCutPos s \<and> tsFound (run_tail g p)
     \<and> prefix (tsPrevious (run_tail g p)) (tsPrevious s)
     \<and> (tsPending s \<noteq> [] \<and> tsPendingOff s = tsCutOff s \<longrightarrow> tsGTIDs s = tsGTIDs (run_tail g p))"

lemma run_tail_snoc: "run_tail g (es @ [e]) = tail_note_event g (run_tail g es) e"
  by (simp add: run_tail_def)

lemma cut_at_switched:
  assumes p: "es = p @ q" "contiguous offset es" and at: "start = offset + span_bytes es"
    and cut: "cut_at g offset (run_tail g es) p" and sw: "switched (run_tail g es) start t"
  shows "cut_at g offset t p"
proof -
  have "tsGTIDs (run_tail g es) = tsGTIDs (run_tail g p)" if "start = tsCutOff (run_tail g es)"
  proof -
    have "span_bytes q = 0" using that cut at p(1) by (simp add: cut_at_def)
    then show ?thesis using contiguous_no_bytes [of offset p q] p by simp
  qed
  then show ?thesis
    using cut sw unfolding cut_at_def switched_def by (auto intro: prefix_order.trans)
qed

lemma cut_at_noted:
  "cut_at g offset t p \<Longrightarrow> cut_at g offset (t\<lparr>tsLastPos := pos, tsFound := True\<rparr>) p"
  by (simp add: cut_at_def)

lemma run_tail_cut:
  assumes "contiguous offset es" "tsCutPos (run_tail g es) \<noteq> 0"
  shows "\<exists>p q. es = p @ q \<and> cut_at g offset (run_tail g es) p"
  using assms
proof (induction es rule: rev_induct)
  case Nil
  then show ?case by (simp add: run_tail_def tail_start_def)
next
  case (snoc e es)
  note c = contiguous_snoc [OF snoc.prems(1)]
  define s where "s = run_tail g es"
  define t where "t = tail_switch g s (fst (snd e)) (if tailNeedsBody g (fst (snd e) ! 4) then snd (snd e) else [])
      (fst e) (event_size e) (event_pos e)"
  have new: "run_tail g (es @ [e]) = tail_note t (fst e + event_size e) (event_pos e)"
    by (simp add: run_tail_snoc tail_note_event_def tail_event_def t_def s_def)
  have sw: "switched (run_tail g es) (offset + span_bytes es) t"
    unfolding t_def s_def using c(2) tail_switch_switched by simp
  show ?case
  proof (cases "event_pos e \<noteq> 0 \<and> tsPending t = []")
    case True
    then have "cut_at g offset (run_tail g (es @ [e])) (es @ [e])"
      using c(2) by (simp add: cut_at_def new tail_note_def)
    then show ?thesis by blast
  next
    case False
    then have same: "run_tail g (es @ [e]) = t \<or> run_tail g (es @ [e]) = t\<lparr>tsLastPos := event_pos e, tsFound := True\<rparr>"
      by (auto simp: new tail_note_def Let_def)
    then have "tsCutPos (run_tail g es) \<noteq> 0" using snoc.prems(2) sw by (auto simp: switched_def)
    then obtain p q where p: "es = p @ q" "cut_at g offset (run_tail g es) p" using snoc.IH c(1) by blast
    have "cut_at g offset t p" by (rule cut_at_switched [OF p(1) c(1) refl p(2) sw])
    then have "cut_at g offset (run_tail g (es @ [e])) p" using same cut_at_noted by auto
    then show ?thesis using p(1) by auto
  qed
qed

lemma segment_events_cut:
  assumes "segment_events bs = p @ q" "p \<noteq> []"
  shows "segment_events (take (nat (4 + span_bytes p)) bs) = p" "0 \<le> span_bytes p"
    "4 + span_bytes p \<le> int (length bs)" "q \<noteq> [] \<Longrightarrow> 4 + span_bytes p < int (length bs)"
proof -
  have magic: "take 4 bs = durableMagic" and ev: "complete_events 4 (drop 4 bs) = p @ q"
    using assms by (auto simp: segment_events_def split: if_splits)
  note sp = complete_events_split [OF ev]
  have n: "nat (4 + span_bytes p) = 4 + nat (span_bytes p)" using sp by (simp add: nat_add_distrib)
  show "segment_events (take (nat (4 + span_bytes p)) bs) = p"
    using magic sp by (simp add: n segment_events_def drop_take min_def)
  show "0 \<le> span_bytes p" "4 + span_bytes p \<le> int (length bs)" "q \<noteq> [] \<Longrightarrow> 4 + span_bytes p < int (length bs)"
    using sp magic_length [OF magic] by auto
qed

lemma segment_contiguous: "contiguous 4 (segment_events bs)"
  using complete_contiguous [of 4 "drop 4 bs"] by (simp add: segment_events_def contiguous_def)

lemma run_tail_found:
  "case foldl cursor_note None es of
     None \<Rightarrow> \<not> tsFound (run_tail g es)
   | Some (pos, en) \<Rightarrow> tsFound (run_tail g es) \<and> tsLastPos (run_tail g es) = pos"
proof (induction es rule: rev_induct)
  case Nil
  then show ?case by (simp add: run_tail_def tail_start_def)
next
  case (snoc e es)
  then show ?case
    using tail_switch_switched [of "run_tail g es" "fst e" g "fst (snd e)"
        "if tailNeedsBody g (fst (snd e) ! 4) then snd (snd e) else []" "event_size e" "event_pos e"]
    by (auto simp: run_tail_snoc tail_note_event_def tail_event_def tail_note_def cursor_note_def switched_def Let_def
        split: option.splits)
qed

lemma complete_events_length: "EventHeaderSize * length (complete_events offset bs) \<le> length bs"
proof (induction offset bs rule: complete_events.induct)
  case (1 offset bs)
  show ?case
  proof (cases "complete_events offset bs")
    case (Cons e es)
    note c = complete_events_Cons [OF Cons]
    define n where "n = nat (little_endian (slice 9 13 bs))"
    have n: "EventHeaderSize \<le> n" "n \<le> length bs" "EventHeaderSize \<le> length bs" "event_size e = int n"
      using c(4, 6, 8) by (auto simp: n_def)
    then have "EventHeaderSize * length (complete_events (offset + int n) (drop n bs)) \<le> length (drop n bs)"
      using "1.IH" [of n] by (simp add: n_def)
    then show ?thesis using n c(5) Cons by simp
  qed simp
qed

section \<open>The open tail\<close>

text \<open>A demonstration: transaction 9 with its commit, and the GTID event of an unfinished transaction 10.\<close>

definition demo_events :: goevents where
  "demo_events = \<lparr>goBase = demo_go, MARIADB_GTID_LIST_EVENT = 163, MARIADB_BINLOG_CHECKPOINT_EVENT = 161,
     MARIADB_GTID_EVENT = 162, START_EVENT_V3 = 1, GTID_TAGGED_LOG_EVENT = 42, ANONYMOUS_GTID_EVENT = 34,
     XID_EVENT = 16, XA_PREPARE_LOG_EVENT = 38, TRANSACTION_PAYLOAD_EVENT = 40, QUERY_EVENT = 2,
     FL_GROUP_COMMIT_ID = 2, decodeRotateEvent = (\<lambda>_. None), decodeTagged = (\<lambda>_. None),
     decodeMariadbGTID = (\<lambda>_ _. None), decodeMariadbList = (\<lambda>_. None)\<rparr>"

definition demo_gtid_event :: "byte \<Rightarrow> byte \<Rightarrow> byte list" where
  "demo_gtid_event n p = [7, 0, 0, 0, 33, 0, 0, 0, 0, 44, 0, 0, 0, p, 0, 0, 0, 0, 0] @ [0] @ replicate 16 171
     @ [n, 0, 0, 0, 0, 0, 0, 0]"

definition demo_xid_event :: "byte \<Rightarrow> byte list" where
  "demo_xid_event p = [7, 0, 0, 0, 16, 0, 0, 0, 0, 19, 0, 0, 0, p, 0, 0, 0, 0, 0]"

definition demo_tail_bytes :: "byte list" where
  "demo_tail_bytes = durableMagic @ demo_gtid_event 9 68 @ demo_xid_event 87 @ demo_gtid_event 10 131"

definition demo_tail :: OpenTail where
  "demo_tail = \<lparr>otPath = ''s'', otFile = [], otPos = 87, otGTIDs = [''abababab-abab-abab-abab-abababababab:9''],
     otPrevious = [], otTruncate = True, otCutOffset = 67,
     otPartialGTID = ''abababab-abab-abab-abab-abababababab:10'', otPartialInTxn = False\<rparr>"

lemma demo_tail_scan: "ScanOpenTail demo_events ''s'' (segment_bytes demo_tail_bytes) = Some demo_tail"
  by code_simp

text \<open>C24. The open-tail scan finds a segment exactly when the durable cursor does, and unless it asks for
  a cut its position is the one the cursor returns.\<close>

theorem tail_ends_at_cursor:
  assumes "DurableCursor (segment_bytes bs) = (pos, en, sz, ok)"
  shows "(ScanOpenTail g path (segment_bytes bs) = None \<longleftrightarrow> \<not> ok)
    \<and> (\<forall>t. ScanOpenTail g path (segment_bytes bs) = Some t \<and> \<not> otTruncate t \<longrightarrow> otPos t = pos)"
proof -
  have "ScanOpenTail g path (segment_bytes bs) = tail_result path (run_tail g (segment_events bs))"
    by (simp add: ScanOpenTail_fold run_tail_def)
  moreover have "(case foldl cursor_note None (segment_events bs) of
        None \<Rightarrow> (0, 0, int (length bs), False) | Some (p, e) \<Rightarrow> (p, e, int (length bs), True)) = (pos, en, sz, ok)"
    using assms by (simp add: DurableCursor_fold)
  ultimately show ?thesis
    using run_tail_found [of g "segment_events bs"]
    by (auto simp: tail_result_def Let_def split: option.splits if_splits)
qed

theorem tail_ends_at_cursor_witness:
  "\<exists>t. ScanOpenTail demo_events ''s'' (segment_bytes (take 67 demo_tail_bytes)) = Some t \<and> otPos t = 87"
proof -
  have "DurableCursor (segment_bytes (take 67 demo_tail_bytes)) = (87, 67, 67, True)" by code_simp
  moreover have "map_option otTruncate (ScanOpenTail demo_events ''s'' (segment_bytes (take 67 demo_tail_bytes))) = Some False"
    by code_simp
  ultimately show ?thesis using tail_ends_at_cursor [of "take 67 demo_tail_bytes" 87 67 67 True demo_events "''s''"] by auto
qed

text \<open>C22. When the scan asks for a cut, the offset lies inside the file, and the file cut there scans to
  the same committed transactions at the same position with no transaction left open.\<close>

theorem tail_cut_clean:
  assumes "ScanOpenTail g path (segment_bytes bs) = Some t" and "otTruncate t"
  shows "4 \<le> otCutOffset t \<and> otCutOffset t < int (length bs) \<and> otPartialGTID t \<noteq> []
    \<and> (\<exists>prev. prefix prev (otPrevious t)
         \<and> ScanOpenTail g path (segment_bytes (take (nat (otCutOffset t)) bs))
           = Some (t\<lparr>otPrevious := prev, otTruncate := False, otCutOffset := 0, otPartialGTID := [], otPartialInTxn := False\<rparr>))"
proof -
  define s where "s = run_tail g (segment_events bs)"
  have res: "tail_result path s = Some t"
    using assms(1) by (simp add: ScanOpenTail_fold s_def run_tail_def)
  then have s: "tsPending s \<noteq> []" "tsCutPos s \<noteq> 0" "tsCutOff s = tsPendingOff s"
    and t: "t = \<lparr>otPath = path, otFile = [], otPos = tsCutPos s, otGTIDs = tsGTIDs s, otPrevious = tsPrevious s,
        otTruncate = True, otCutOffset = tsCutOff s, otPartialGTID = tsPending s, otPartialInTxn = tsInTxn s\<rparr>"
    using assms(2) by (auto simp: tail_result_def Let_def split: if_splits)
  obtain p q where p: "segment_events bs = p @ q" "cut_at g 4 s p"
    using run_tail_cut [OF segment_contiguous] s(2) unfolding s_def by blast
  then have c: "4 + span_bytes p = tsCutOff s" "tsPending (run_tail g p) = []" "tsLastPos (run_tail g p) = tsCutPos s"
      "tsFound (run_tail g p)" "prefix (tsPrevious (run_tail g p)) (tsPrevious s)" "tsGTIDs s = tsGTIDs (run_tail g p)"
    using s by (simp_all add: cut_at_def)
  have "p \<noteq> []" using c(4) by (auto simp: run_tail_def tail_start_def)
  have "q \<noteq> []" using s(1) c(2) p(1) by (auto simp: s_def)
  note cut = segment_events_cut [OF p(1) \<open>p \<noteq> []\<close>]
  have "ScanOpenTail g path (segment_bytes (take (nat (tsCutOff s)) bs)) = tail_result path (run_tail g p)"
    using cut(1) c(1) by (simp add: ScanOpenTail_fold run_tail_def)
  also have "\<dots> = Some (t\<lparr>otPrevious := tsPrevious (run_tail g p), otTruncate := False, otCutOffset := 0,
      otPartialGTID := [], otPartialInTxn := False\<rparr>)"
    using c by (simp add: tail_result_def t)
  finally show ?thesis
    using cut(2, 4) \<open>q \<noteq> []\<close> c(1, 5) s(1) by (auto simp: t)
qed

theorem tail_cut_clean_witness:
  "\<exists>prev. ScanOpenTail demo_events ''s'' (segment_bytes (take 67 demo_tail_bytes))
     = Some (demo_tail\<lparr>otPrevious := prev, otTruncate := False, otCutOffset := 0, otPartialGTID := [], otPartialInTxn := False\<rparr>)"
  using tail_cut_clean [OF demo_tail_scan] by (auto simp: demo_tail_def)


section \<open>The offset of one GTID\<close>

lemma hex_encode_length: "length (hex_encode bs) = 2 * length bs"
  by (induction bs) (simp_all add: hex_encode_def)

lemma formatSID_not_empty: "length bs = 16 \<Longrightarrow> formatSID bs \<noteq> []"
  by (simp add: formatSID_def Let_def hex_encode_length)

lemma matches_ref:
  assumes "0 < seq"
  shows "gtidBodyMatches body want seq \<longleftrightarrow>
    (\<exists>ref. gtidEventRef body offset hdr = Some ref \<and> evUUID ref = want \<and> evSeq ref = seq)"
  using assms formatSID_not_empty [of "slice 1 (1 + SidLength) body"]
  by (auto simp: gtidBodyMatches_def gtidEventRef_def Let_def slice_def SidLength_def)

definition hit_of :: "GTIDEventRef \<Rightarrow> GTIDHit" where
  "hit_of e = \<lparr>hOffset = evOffset e, hWhen = evWhen e\<rparr>"

text \<open>One turn of the loop is the shared reading of one event.\<close>

lemma pos_loop_turn:
  assumes "readerRemaining r = n"
  shows "pos_loop g want seq offset r s =
    (case read_event g r n False offset crc of
       Done \<Rightarrow> (\<lparr>sgHit = None, sgSpan = s\<rparr>, None)
     | Fail e \<Rightarrow> (\<lparr>sgHit = None, sgSpan = zero_span\<rparr>, Some e)
     | FailKeep e \<Rightarrow> (\<lparr>sgHit = None, sgSpan = zero_span\<rparr>, Some e)
     | Event hdr body esz r' n' \<Rightarrow>
         if hdr ! 4 = GTID_EVENT g \<and> gtidBodyMatches body want seq
         then (\<lparr>sgHit = Some \<lparr>hOffset = offset, hWhen = unix_time (little_endian (slice 0 4 hdr))\<rparr>,
                sgSpan = count_header g hdr s\<rparr>, None)
         else pos_loop g want seq (offset + esz) r' (count_header g hdr s))"
proof (cases "ReadFull r EventHeaderSize")
  case (Full hdr r1)
  have "readerRemaining r1 = (if n \<ge> 0 then n - int EventHeaderSize else n)"
    using Full assms by (auto simp: readerRemaining_def ReadFull_Full)
  then show ?thesis
    by (simp add: pos_loop.simps [of g want seq offset r] read_event_def Full Let_def crc_bad_def
        split: sum.split option.split)
qed (simp_all add: pos_loop.simps [of g want seq offset r] read_event_def)

lemma read_event_remaining:
  assumes "read_event g r n sealed offset crc = Event hdr body esz r' n'" "readerRemaining r = n"
  shows "readerRemaining r' = n'"
proof (cases "rSized r")
  case True
  then show ?thesis
    using read_event_Event(6, 7) [OF assms(1)] assms(2) by (simp add: readerRemaining_def)
next
  case False
  then have "n < 0" "\<not> rSized r'" using assms read_event_Event(6) [OF assms(1)] by (auto simp: readerRemaining_def)
  then have "n' = n"
    using assms(1) by (auto simp: read_event_def Let_def split: read_result.splits sum.splits option.splits if_splits)
  then show ?thesis using assms(2) False \<open>\<not> rSized r'\<close> by (simp add: readerRemaining_def)
qed

lemma note_event_adds:
  "note_event g hdr body offset crc out = Some (crc', out') \<Longrightarrow>
   lEvents out' = lEvents out
     @ (if hdr ! 4 = GTID_EVENT g \<and> hdr ! 4 \<noteq> FORMAT_DESCRIPTION_EVENT g \<and> hdr ! 4 \<noteq> PREVIOUS_GTIDS_EVENT g
        then (case gtidEventRef body offset hdr of None \<Rightarrow> [] | Some ref \<Rightarrow> [ref]) else [])"
  by (auto simp: note_event_def Let_def split: if_splits option.splits)

lemma gtid_loop_adds:
  "gtid_loop g r n sealed offset crc out = (log, None) \<Longrightarrow> \<exists>new. lEvents log = lEvents out @ new"
proof (induction g r n sealed offset crc out arbitrary: log rule: gtid_loop.induct)
  case (1 g r n sealed offset crc out)
  show ?case
  proof (cases "read_event g r n sealed offset crc")
    case (Event hdr body esz r' n')
    then obtain crc' out' where ne: "note_event g hdr body offset crc out = Some (crc', out')"
      using "1.prems" by (auto simp: gtid_loop.simps [of g r] split: option.splits)
    then show ?thesis
      using "1.IH" [OF Event ne refl] "1.prems" Event note_event_adds [OF ne]
      by (auto simp: gtid_loop.simps [of g r])
  qed (use "1.prems" in \<open>auto simp: gtid_loop.simps [of g r]\<close>)
qed

lemma gtidEventRef_fields:
  "gtidEventRef body offset hdr = Some ref \<Longrightarrow>
   evOffset ref = offset \<and> evWhen ref = unix_time (little_endian (slice 0 4 hdr))"
  by (auto simp: gtidEventRef_def Let_def split: if_splits)

text \<open>The event type codes differ, as go-mysql's do.\<close>

definition codes_differ :: "goreplication \<Rightarrow> bool" where
  "codes_differ g \<longleftrightarrow> GTID_EVENT g \<noteq> FORMAT_DESCRIPTION_EVENT g \<and> GTID_EVENT g \<noteq> PREVIOUS_GTIDS_EVENT g"

lemma pos_loop_first:
  "gtid_loop g r n False offset crc out = (log, None) \<Longrightarrow> readerRemaining r = n \<Longrightarrow> 0 < seq \<Longrightarrow> codes_differ g \<Longrightarrow>
    snd (pos_loop g want seq offset r s) = None
    \<and> sgHit (fst (pos_loop g want seq offset r s)) =
        map_option hit_of (find (\<lambda>e. evUUID e = want \<and> evSeq e = seq) (drop (length (lEvents out)) (lEvents log)))"
proof (induction g r n False offset crc out arbitrary: log s rule: gtid_loop.induct)
  case (1 g r n offset crc out)
  show ?case
  proof (cases "read_event g r n False offset crc")
    case (Event hdr body esz r' n')
    obtain crc' out' where ne: "note_event g hdr body offset crc out = Some (crc', out')"
      using "1.prems"(1) Event by (auto simp: gtid_loop.simps [of g r] split: option.splits)
    have rest: "gtid_loop g r' n' False (offset + esz) crc' out' = (log, None)"
      using "1.prems"(1) Event ne by (simp add: gtid_loop.simps [of g r])
    define refs where "refs = (if hdr ! 4 = GTID_EVENT g then
        (case gtidEventRef body offset hdr of None \<Rightarrow> [] | Some ref \<Rightarrow> [ref]) else [])"
    have out': "lEvents out' = lEvents out @ refs"
      using note_event_adds [OF ne] "1.prems"(4) by (simp add: refs_def codes_differ_def)
    obtain new where new: "lEvents log = lEvents out' @ new" using gtid_loop_adds [OF rest] by blast
    note IH = "1.hyps" [OF Event ne refl rest read_event_remaining [OF Event "1.prems"(2)] "1.prems"(3, 4),
        of "count_header g hdr s"]
    show ?thesis
    proof (cases "hdr ! 4 = GTID_EVENT g \<and> gtidBodyMatches body want seq")
      case True
      then obtain ref where "gtidEventRef body offset hdr = Some ref" "evUUID ref = want" "evSeq ref = seq"
        using matches_ref [OF "1.prems"(3)] by blast
      then show ?thesis
        using True Event out' new gtidEventRef_fields [of body offset hdr ref]
        by (simp add: pos_loop_turn [OF "1.prems"(2), where crc = crc] refs_def hit_of_def)
    next
      case False
      then have "find (\<lambda>e. evUUID e = want \<and> evSeq e = seq) (refs @ new)
          = find (\<lambda>e. evUUID e = want \<and> evSeq e = seq) new"
        using matches_ref [OF "1.prems"(3), of body want offset hdr] by (auto simp: refs_def split: option.splits)
      then show ?thesis
        using False Event out' new IH by (auto simp: pos_loop_turn [OF "1.prems"(2), where crc = crc])
    qed
  qed (use "1.prems" in \<open>auto simp: gtid_loop.simps [of g r] pos_loop_turn [where crc = crc]\<close>)
qed

text \<open>On a segment the log scan reads without error, the search for one GTID returns the first
  transaction the log lists with that server and sequence, at its offset and time, or nothing when
  the log has none.\<close>

lemma gtid_position_exact:
  assumes "scanSegmentGTIDs g r = (log, None)" "0 < seq" "codes_differ g"
  shows "snd (ScanSegmentForGTID g r uuid seq) = None
    \<and> sgHit (fst (ScanSegmentForGTID g r uuid seq)) =
        map_option hit_of (find (\<lambda>e. evUUID e = to_lower (trim_space uuid) \<and> evSeq e = seq) (lEvents log))"
proof (cases "ReadFull r 4")
  case (Full magic r1)
  have r1: "readerRemaining r1 = (if readerRemaining r \<ge> 0 then readerRemaining r - 4 else readerRemaining r)"
    using Full by (auto simp: readerRemaining_def ReadFull_Full)
  show ?thesis
  proof (cases "magic = durableMagic")
    case True
    then have "gtid_loop g r1 (readerRemaining r1) False 4 False zero_log = (log, None)"
      using assms(1) Full r1 by (simp add: scanSegmentGTIDs_def scanSegmentGTIDsBounded_def)
    from pos_loop_first [OF this refl assms(2, 3)] show ?thesis
      using True Full assms(2) by (simp add: ScanSegmentForGTID_def zero_log_def)
  qed (use assms Full in \<open>auto simp: scanSegmentGTIDs_def scanSegmentGTIDsBounded_def ScanSegmentForGTID_def zero_log_def\<close>)
qed (use assms in \<open>auto simp: scanSegmentGTIDs_def scanSegmentGTIDsBounded_def ScanSegmentForGTID_def zero_log_def\<close>)

section \<open>The position span\<close>

definition span_note :: "(int \<times> int) option \<Rightarrow> raw_event \<Rightarrow> (int \<times> int) option" where
  "span_note acc e = span_step acc (event_size e) (event_pos e)"

lemma span_loop_fold:
  assumes "complete_events offset (rBytes r) = es" "rFail r = None" "sz = offset + int (length (rBytes r))"
  shows "span_loop_at sz offset r acc = foldl span_note acc es"
  using assms
proof (induction es arbitrary: offset r acc)
  case Nil
  show ?case using walk_complete_Nil [OF Nil] by (auto simp: span_loop_at.simps [of sz offset])
next
  case (Cons e es)
  note next' = after_event [OF Cons.prems(1, 3)]
  show ?case
    using Cons.IH [OF next'(1) _ next'(2)] Cons.prems(2)
    by (simp add: span_loop_at.simps [of sz offset] skip_to_next [OF Cons.prems(1)] walk_complete_Cons [OF Cons.prems]
        span_note_def)
qed

text \<open>The events of a chain whose positions do not go back, each with room for itself before its end.\<close>

definition ascending :: "raw_event list \<Rightarrow> bool" where
  "ascending es \<longleftrightarrow> sorted (map event_pos (filter (\<lambda>e. event_pos e \<noteq> 0) es))
     \<and> (\<forall>e \<in> set es. event_pos e = 0 \<or> event_size e \<le> event_pos e)"

lemma ascending_snoc:
  "ascending (es @ [e]) \<Longrightarrow> ascending es"
  by (simp add: ascending_def sorted_append split: if_splits)

lemma span_step_end:
  "pos \<noteq> 0 \<Longrightarrow> sz \<le> pos \<Longrightarrow> (\<And>p. acc = Some p \<Longrightarrow> snd p \<le> pos) \<Longrightarrow> map_option snd (span_step acc sz pos) = Some pos"
  by (cases acc) (auto simp: span_step_def Let_def)

lemma span_end_cursor:
  assumes "ascending es"
  shows "map_option snd (foldl span_note None es) = map_option fst (foldl cursor_note None es)
    \<and> (\<forall>p. map_option fst (foldl cursor_note None es) = Some p \<longrightarrow> (\<exists>e \<in> set es. event_pos e = p \<and> p \<noteq> 0))"
  using assms
proof (induction es rule: rev_induct)
  case (snoc e es)
  note IH = snoc.IH [OF ascending_snoc [OF snoc.prems]]
  have le: "x \<in> set es \<Longrightarrow> event_pos e \<noteq> 0 \<Longrightarrow> event_pos x \<noteq> 0 \<Longrightarrow> event_pos x \<le> event_pos e" for x
    using snoc.prems by (cases x) (auto simp: ascending_def sorted_append)
  show ?case
  proof (cases "event_pos e = 0")
    case True
    then show ?thesis using IH by (auto simp: span_note_def span_step_def cursor_note_def)
  next
    case False
    have room: "event_size e \<le> event_pos e" using snoc.prems False by (auto simp: ascending_def)
    have "snd p \<le> event_pos e" if "foldl span_note None es = Some p" for p
    proof -
      have "map_option fst (foldl cursor_note None es) = Some (snd p)" using conjunct1 [OF IH] that by simp
      then obtain x where "x \<in> set es" "event_pos x = snd p" "snd p \<noteq> 0" using conjunct2 [OF IH] by metis
      then show ?thesis using le [of x] False by simp
    qed
    then have "map_option snd (span_step (foldl span_note None es) (event_size e) (event_pos e)) = Some (event_pos e)"
      using span_step_end [OF False room] by blast
    then show ?thesis using False by (simp add: span_note_def [of "foldl span_note None es"] cursor_note_def [of _ e])
  qed
qed simp

lemma EventSpan_fold: "EventSpan (segment_bytes bs) = foldl span_note None (segment_events bs)"
proof (cases "take 4 bs = durableMagic")
  case True
  have "after_magic (int (length bs)) (file_reader bs) = Some (file_reader (drop 4 bs))"
    using True magic_length [OF True] by (simp add: after_magic_def file_reader_def ReadFull_def)
  moreover have "span_loop_at (int (length bs)) 4 (file_reader (drop 4 bs)) None = foldl span_note None (segment_events bs)"
    using True magic_length [OF True] by (intro span_loop_fold) (simp_all add: segment_events_def file_reader_def)
  ultimately show ?thesis by (simp add: EventSpan_def segment_bytes_def)
next
  case False
  then have "after_magic (int (length bs)) (file_reader bs) = None"
    by (auto simp: after_magic_def file_reader_def ReadFull_def split: if_splits)
  then show ?thesis using False by (simp add: EventSpan_def segment_bytes_def segment_events_def)
qed

text \<open>When the positions of a segment do not go back, the end of its position span is the position of
  the durable cursor, and there is a span exactly when the cursor finds an event.\<close>

lemma positions_end_at_cursor:
  assumes "ascending (segment_events bs)" "DurableCursor (segment_bytes bs) = (pos, en, sz, ok)"
  shows "map_option snd (segmentPositionsUncached (segment_bytes bs)) = (if ok then Some pos else None)"
proof -
  have cur: "(case foldl cursor_note None (segment_events bs) of
        None \<Rightarrow> (0, 0, int (length bs), False) | Some (p, e) \<Rightarrow> (p, e, int (length bs), True)) = (pos, en, sz, ok)"
    using assms(2) by (simp add: DurableCursor_fold)
  note sp = span_end_cursor [OF assms(1)]
  show ?thesis
  proof (cases "foldl cursor_note None (segment_events bs)")
    case None
    then show ?thesis using cur assms(2) by (auto simp: segmentPositionsUncached_def)
  next
    case (Some pe)
    then have "ok" "pos = fst pe" "pos \<noteq> 0" using cur sp by (auto split: prod.splits)
    moreover obtain st where "foldl span_note None (segment_events bs) = Some (st, pos)"
      using sp Some \<open>pos = fst pe\<close> by auto
    ultimately show ?thesis using assms(2) by (simp add: segmentPositionsUncached_def EventSpan_fold)
  qed
qed

text \<open>With positions that go back, which the code meets in re-dumped segments, the span ends at the
  highest position while the cursor stands at the last one, although \<open>SegmentPositions\<close> says its end
  is the number the cursor returns.\<close>

lemma positions_end_past_cursor:
  "segmentPositionsUncached (segment_bytes demo_back) = Some (31, 90) \<and> DurableCursor (segment_bytes demo_back) = (50, 61, 61, True)"
  by code_simp

end
