(* ===== verification/Bin_Resume.thy ===== *)
theory Bin_Resume
  imports Bin_Tail_Props
begin

text \<open>
  The GTID set a resume asks the source to continue from. go-mysql's sets are an interface, the locale
  \<open>mysql_sets\<close>: what a text is read as, and that parsing, updating and printing follow it. Over it the
  set of \<open>ResumeGTID\<close> is exactly the seed, the sealed segments and the complete transactions of the
  open tail.
\<close>

section \<open>Server identifiers\<close>

lemma hex_digits: "list_all (\<lambda>d. is_hex (hex_digit d) \<and> lower_char (hex_digit d) = hex_digit d) [0..<16]"
  by code_simp

lemma hex_digit_hex: "d < 16 \<Longrightarrow> is_hex (hex_digit d) \<and> lower_char (hex_digit d) = hex_digit d"
  using hex_digits by (simp add: list_all_iff)

lemma hex_encode_chars: "c \<in> set (hex_encode bs) \<Longrightarrow> is_hex c \<and> lower_char c = c"
proof -
  assume "c \<in> set (hex_encode bs)"
  then obtain b :: byte where "c = hex_digit (nat (uint b div 16)) \<or> c = hex_digit (nat (uint b mod 16))"
    by (auto simp: hex_encode_def)
  moreover have "nat (uint b div 16) < 16" "nat (uint b mod 16) < 16"
    using uint_lt2p [of b] by simp_all
  ultimately show ?thesis using hex_digit_hex by blast
qed

lemma formatSID_UUID:
  assumes "length raw = 16"
  shows "looksUUID (formatSID raw)" "to_lower (formatSID raw) = formatSID raw"
proof -
  define h where "h = hex_encode raw"
  have len: "length h = 32" using assms by (simp add: h_def hex_encode_length)
  have f: "formatSID raw = slice 0 8 h @ ''-'' @ slice 8 12 h @ ''-'' @ slice 12 16 h @ ''-'' @ slice 16 20 h @ ''-'' @ slice 20 32 h"
    using len by (simp add: formatSID_def h_def [symmetric])
  have hex: "is_hex (h ! i)" if "i < 32" for i using hex_encode_chars [of "h ! i" raw] that len by (simp add: h_def)
  show "looksUUID (formatSID raw)"
    unfolding f looksUUID_def using len
    by (simp add: slice_def nth_append upt_rec [of _ 36] hex nth_Cons')
  have "lower_char c = c" if "c \<in> set (formatSID raw)" for c
    using that hex_encode_chars [of c raw] set_take_subset set_drop_subset
    by (auto simp: f slice_def h_def [symmetric] lower_char_def dest!: in_set_takeD in_set_dropD)
  then show "to_lower (formatSID raw) = formatSID raw" by (simp add: to_lower_def map_idI)
qed

definition sid_events :: "GTIDEventRef list \<Rightarrow> bool" where
  "sid_events evs \<longleftrightarrow> (\<forall>ev \<in> set evs. looksUUID (evUUID ev) \<and> to_lower (evUUID ev) = evUUID ev)"

lemma gtidEventRef_sid: "gtidEventRef body offset hdr = Some ref \<Longrightarrow> looksUUID (evUUID ref) \<and> to_lower (evUUID ref) = evUUID ref"
  using formatSID_UUID [of "slice 1 (1 + SidLength) body"]
  by (auto simp: gtidEventRef_def Let_def slice_def SidLength_def split: if_splits)

lemma note_event_sid:
  assumes "note_event g hdr body offset crc out = Some (crc', out')" "sid_events (lEvents out)"
  shows "sid_events (lEvents out')"
proof -
  define refs where "refs = (case gtidEventRef body offset hdr of None \<Rightarrow> [] | Some ref \<Rightarrow> [ref])"
  have "sid_events refs" using gtidEventRef_sid by (auto simp: refs_def sid_events_def split: option.split)
  moreover have "lEvents out' = lEvents out @ refs \<or> lEvents out' = lEvents out"
    using note_event_adds [OF assms(1)] by (auto simp: refs_def split: if_splits)
  ultimately show ?thesis using assms(2) by (auto simp: sid_events_def)
qed

lemma gtid_loop_sid:
  "gtid_loop g r n sealed offset crc out = (log, None) \<Longrightarrow> sid_events (lEvents out) \<Longrightarrow> sid_events (lEvents log)"
proof (induction g r n sealed offset crc out arbitrary: log rule: gtid_loop.induct)
  case (1 g r n sealed offset crc out)
  show ?case
  proof (cases "read_event g r n sealed offset crc")
    case (Event hdr body esz r' n')
    then obtain crc' out' where ne: "note_event g hdr body offset crc out = Some (crc', out')"
      using "1.prems" by (auto simp: gtid_loop.simps [of g r] split: option.splits)
    have "sid_events (lEvents out')" by (rule note_event_sid [OF ne "1.prems"(2)])
    then show ?thesis
      using "1.IH" [OF Event ne refl] "1.prems"(1) Event ne by (simp add: gtid_loop.simps [of g r])
  qed (use "1.prems" in \<open>auto simp: gtid_loop.simps [of g r]\<close>)
qed

lemma Contents_sid: "Contents g d name = Inr c \<Longrightarrow> sid_events (lEvents (tLog c))"
  using gtid_loop_sid [of g _ _ False 4 False zero_log]
  by (fastforce simp: Contents_def ReadSegmentContents_def readSegmentContents_def scanSegmentGTIDsBounded_def
      zero_log_def sid_events_def split: option.splits prod.splits read_result.splits if_splits)

lemma seg_gtids_key: "x \<in> seg_gtids g d seg \<Longrightarrow> looksUUID (fst x) \<and> to_lower (fst x) = fst x"
  using Contents_sid [of g d "gName seg"] by (auto simp: seg_gtids_def event_gtids_def sid_events_def split: sum.splits)

lemma SealedStored_ok:
  assumes "seqs_ok g d"
  shows "canonical (SealedStored g d)"
    "gtids (SealedStored g d) = (\<Union>seg \<in> {s \<in> set (segments_or_none d). \<not> nOpen (gNamed s)}. seg_gtids g d seg)"
    "\<forall>x \<in> gtids (SealedStored g d). looksUUID (fst x) \<and> to_lower (fst x) = fst x"
proof -
  note f = fold_contents_ok [OF assms canonical_Nil(1), of "filter (\<lambda>s. \<not> nOpen (gNamed s)) (segments_or_none d)"]
  show "canonical (SealedStored g d)" using f by (simp add: SealedStored_filter)
  show eq: "gtids (SealedStored g d) = (\<Union>seg \<in> {s \<in> set (segments_or_none d). \<not> nOpen (gNamed s)}. seg_gtids g d seg)"
    using f by (simp add: SealedStored_filter)
  show "\<forall>x \<in> gtids (SealedStored g d). looksUUID (fst x) \<and> to_lower (fst x) = fst x"
    using seg_gtids_key by (fastforce simp: eq)
qed

section \<open>The sets of go-mysql\<close>

text \<open>What a text adds to a union: an unreadable text adds nothing.\<close>

definition text_says :: "(string \<Rightarrow> (string \<times> int) set option) \<Rightarrow> string \<Rightarrow> (string \<times> int) set" where
  "text_says reads text = (case reads (trim_space text) of None \<Rightarrow> {} | Some y \<Rightarrow> y)"

definition holds :: "('s \<Rightarrow> (string \<times> int) set) \<Rightarrow> 's option \<Rightarrow> (string \<times> int) set" where
  "holds denote acc = (case acc of None \<Rightarrow> {} | Some x \<Rightarrow> denote x)"

definition fine :: "('s \<Rightarrow> bool) \<Rightarrow> 's option \<Rightarrow> bool" where
  "fine ok acc \<longleftrightarrow> (case acc of None \<Rightarrow> True | Some x \<Rightarrow> ok x)"

text \<open>\<open>reads\<close> is what go-mysql reads a text as: \<open>None\<close> when it does not parse, the empty set for the empty
  text, and what the text says for the texts \<open>GTIDSet.String\<close> prints over server identifiers. Parsing,
  \<open>Update\<close> and \<open>String\<close> follow it.\<close>

locale mysql_sets =
  fixes m :: "'s gosets" and ok :: "'s \<Rightarrow> bool" and denote :: "'s \<Rightarrow> (string \<times> int) set"
    and reads :: "string \<Rightarrow> (string \<times> int) set option"
  assumes reads_empty: "reads [] = Some {}"
    and reads_printed: "canonical s \<Longrightarrow> \<not> IsEmpty s \<Longrightarrow> \<forall>x \<in> gtids s. looksUUID (fst x) \<and> to_lower (fst x) = fst x
      \<Longrightarrow> reads (trim_space (String s)) = Some (gtids s)"
    and parse_fails: "text \<noteq> [] \<Longrightarrow> parseSet m ''mysql'' text = None \<longleftrightarrow> reads text = None"
    and parse_reads: "text \<noteq> [] \<Longrightarrow> parseSet m ''mysql'' text = Some x \<Longrightarrow> ok x \<and> reads text = Some (denote x)"
    and update_reads: "ok x \<Longrightarrow> text \<noteq> [] \<Longrightarrow> ok (updateSet m x text)
      \<and> denote (updateSet m x text) = denote x \<union> (case reads text of None \<Rightarrow> {} | Some y \<Rightarrow> y)"
    and empty_reads: "ok x \<Longrightarrow> emptySet m x \<longleftrightarrow> denote x = {}"
    and text_reads: "ok x \<Longrightarrow> reads (trim_space (setText m x)) = Some (denote x)"
begin

lemma union_add_holds:
  assumes "fine ok acc"
  shows "fine ok (union_add m ''mysql'' acc text) \<and> holds denote (union_add m ''mysql'' acc text) = holds denote acc \<union> text_says reads text"
proof (cases "trim_space text = []")
  case True
  then show ?thesis using assms by (simp add: union_add_def text_says_def reads_empty)
next
  case False
  show ?thesis
  proof (cases acc)
    case None
    then show ?thesis
      using parse_fails [OF False] parse_reads [OF False] False
      by (cases "parseSet m ''mysql'' (trim_space text)") (auto simp: union_add_def text_says_def holds_def fine_def)
  next
    case (Some x)
    then show ?thesis
      using update_reads [OF _ False, of x] False assms by (simp add: union_add_def text_says_def holds_def fine_def)
  qed
qed

lemma union_fold_holds:
  "fine ok acc \<Longrightarrow> fine ok (foldl (union_add m ''mysql'') acc ts) \<and>
   holds denote (foldl (union_add m ''mysql'') acc ts) = holds denote acc \<union> (\<Union>t \<in> set ts. text_says reads t)"
proof (induction ts arbitrary: acc)
  case (Cons t ts)
  then show ?case using union_add_holds [OF Cons.prems, of t] by auto
qed simp

lemma unionDurable_reads:
  assumes "flavor = [] \<or> flavor = ''mysql''"
  shows "reads (trim_space (unionDurable m flavor seed tail)) = Some (text_says reads seed \<union> (\<Union>t \<in> set (otGTIDs tail). text_says reads t))"
proof -
  define acc where "acc = foldl (union_add m ''mysql'') (union_add m ''mysql'' None seed) (otGTIDs tail)"
  have fl: "(if trim_space flavor = [] then ''mysql'' else flavor) = ''mysql''" using assms by (auto simp: trim_space_def)
  have start: "fine ok None" "holds denote None = {}" by (simp_all add: fine_def holds_def)
  have u: "fine ok acc" "holds denote acc = text_says reads seed \<union> (\<Union>t \<in> set (otGTIDs tail). text_says reads t)"
    using union_add_holds [OF start(1), of seed] union_fold_holds by (auto simp: acc_def start)
  have "unionDurable m flavor seed tail = (case acc of None \<Rightarrow> [] | Some s \<Rightarrow> if emptySet m s then [] else setText m s)"
    unfolding unionDurable_def Let_def fl Durable_def acc_def ..
  moreover have "trim_space [] = []" by (simp add: trim_space_def)
  ultimately show ?thesis
    using u empty_reads text_reads reads_empty by (cases acc) (auto simp: fine_def holds_def)
qed

lemma sealed_says:
  assumes "seqs_ok g d" "flavor = [] \<or> flavor = ''mysql''"
  shows "text_says reads (SealedText g d flavor) = gtids (SealedStored g d)"
proof -
  note s = SealedStored_ok [OF assms(1)]
  have printed: "SealedText g d flavor = String (SealedStored g d)"
    using assms(2) by (auto simp: SealedText_def trim_space_def is_space_def)
  show ?thesis
  proof (cases "IsEmpty (SealedStored g d)")
    case True
    have "String (SealedStored g d) = []" using True by (simp add: String_def IsEmpty_def list_all_iff filter_empty_conv)
    then show ?thesis
      using True s(1) IsEmpty_ok [OF s(1)] by (simp add: printed text_says_def trim_space_def reads_empty)
  next
    case False
    then show ?thesis using reads_printed [OF s(1) False s(3)] by (simp add: printed text_says_def)
  qed
qed

lemma resume_reads:
  assumes "seqs_ok (goBase g) d" "flavor = [] \<or> flavor = ''mysql''" "ResumeGTID g m d flavor seed = Some (tail, text)"
  shows "Tail g d = Some tail \<and> reads (trim_space text) =
    Some (text_says reads seed \<union> gtids (SealedStored (goBase g) d) \<union> (\<Union>t \<in> set (otGTIDs tail). text_says reads t))"
proof -
  define union where "union = unionDurable m flavor seed (zero_tail\<lparr>otGTIDs := [SealedText (goBase g) d flavor]\<rparr>)"
  have t: "Tail g d = Some tail" "text = unionDurable m flavor union tail"
    using assms(3) by (auto simp: ResumeGTID_def union_def Let_def split: option.splits)
  have "text_says reads union = text_says reads seed \<union> gtids (SealedStored (goBase g) d)"
    using unionDurable_reads [OF assms(2), of seed] sealed_says [OF assms(1, 2)] by (simp add: union_def text_says_def)
  then show ?thesis using unionDurable_reads [OF assms(2), of union tail] t by simp
qed

end

section \<open>The repository's own reader as such sets\<close>

definition lenient_ok :: "GTIDSet \<Rightarrow> bool" where
  "lenient_ok s \<longleftrightarrow> canonical s \<and> (\<forall>x \<in> gtids s. key_ok (fst x))"

definition lenient_parse :: "string \<Rightarrow> GTIDSet option" where
  "lenient_parse text = (case ParseGTIDSetLenient text of None \<Rightarrow> None | Some s \<Rightarrow> if lenient_ok s then Some s else None)"

definition lenient_reads :: "string \<Rightarrow> (string \<times> int) set option" where
  "lenient_reads text = (if text = [] then Some {} else map_option gtids (lenient_parse text))"

definition lenient_sets :: "GTIDSet gosets" where
  "lenient_sets = \<lparr>parseSet = (\<lambda>_. lenient_parse),
     updateSet = (\<lambda>s text. case lenient_parse text of None \<Rightarrow> s | Some u \<Rightarrow> AddAll s u),
     emptySet = IsEmpty, setText = String\<rparr>"

lemma trim_space_id: "\<forall>c \<in> set s. \<not> is_space c \<Longrightarrow> trim_space s = s"
proof -
  assume *: "\<forall>c \<in> set s. \<not> is_space c"
  have "dropWhile is_space xs = xs" if "\<forall>c \<in> set xs. \<not> is_space c" for xs using that by (cases xs) auto
  from this [of s] this [of "rev s"] * show ?thesis by (simp add: trim_space_def)
qed

lemma uuid_key_ok: "looksUUID k \<Longrightarrow> to_lower k = k \<Longrightarrow> key_ok k"
  unfolding key_ok_def by blast

lemma lenient_reads_String: "lenient_ok s \<Longrightarrow> lenient_reads (trim_space (String s)) = Some (gtids s)"
proof (cases "IsEmpty s")
  case True
  assume "lenient_ok s"
  moreover have "String s = []" using True by (simp add: String_def IsEmpty_def list_all_iff filter_empty_conv)
  ultimately show ?thesis
    using True IsEmpty_ok [of s] by (simp add: lenient_reads_def trim_space_def lenient_ok_def)
next
  case False
  assume ok: "lenient_ok s"
  note p = lenient_print [OF _ _ False]
  obtain u where "ParseGTIDSetLenient (String s) = Some u" "canonical u" "gtids u = gtids s"
    and "\<forall>c \<in> set (String s). \<not> is_space c" "String s \<noteq> []"
    using p ok by (auto simp: lenient_ok_def)
  then show ?thesis using ok by (simp add: lenient_reads_def lenient_parse_def lenient_ok_def trim_space_id)
qed

lemma lenient_parse_ok: "lenient_parse text = Some s \<Longrightarrow> lenient_ok s"
  by (auto simp: lenient_parse_def split: option.splits if_splits)

lemma lenient_update_ok:
  assumes "lenient_ok s"
  shows "lenient_ok (updateSet lenient_sets s text) \<and> (text \<noteq> [] \<longrightarrow> gtids (updateSet lenient_sets s text) =
    gtids s \<union> (case lenient_reads text of None \<Rightarrow> {} | Some y \<Rightarrow> y))"
proof (cases "lenient_parse text")
  case None
  then show ?thesis using assms by (simp add: lenient_sets_def lenient_reads_def)
next
  case (Some u)
  then have "canonical s" "canonical u" "\<forall>x \<in> gtids u. key_ok (fst x)" "\<forall>x \<in> gtids s. key_ok (fst x)"
    using assms lenient_parse_ok [OF Some] by (auto simp: lenient_ok_def)
  then show ?thesis using Some AddAll_ok [of s u] by (auto simp: lenient_sets_def lenient_reads_def lenient_ok_def)
qed

interpretation rs: mysql_sets lenient_sets lenient_ok gtids lenient_reads
proof
  show "lenient_reads [] = Some {}" by (simp add: lenient_reads_def)
  show "lenient_reads (trim_space (String s)) = Some (gtids s)"
    if "canonical s" "\<not> IsEmpty s" "\<forall>x \<in> gtids s. looksUUID (fst x) \<and> to_lower (fst x) = fst x" for s
    using that uuid_key_ok by (intro lenient_reads_String) (simp add: lenient_ok_def)
  show "parseSet lenient_sets ''mysql'' tx = None \<longleftrightarrow> lenient_reads tx = None" if "tx \<noteq> []" for tx
    using that by (simp add: lenient_sets_def lenient_reads_def)
  show "lenient_ok x \<and> lenient_reads tx = Some (gtids x)"
    if "tx \<noteq> []" "parseSet lenient_sets ''mysql'' tx = Some x" for tx x
    using that lenient_parse_ok [of tx x] by (simp add: lenient_sets_def lenient_reads_def)
  show "lenient_ok (updateSet lenient_sets x tx) \<and>
    gtids (updateSet lenient_sets x tx) = gtids x \<union> (case lenient_reads tx of None \<Rightarrow> {} | Some y \<Rightarrow> y)"
    if "lenient_ok x" "tx \<noteq> []" for x tx
    using lenient_update_ok [OF that(1), of tx] that(2) by simp
  show "emptySet lenient_sets x \<longleftrightarrow> gtids x = {}" if "lenient_ok x" for x
    using IsEmpty_ok [of x] that by (simp add: lenient_sets_def lenient_ok_def)
  show "lenient_reads (trim_space (setText lenient_sets x)) = Some (gtids x)" if "lenient_ok x" for x
    using lenient_reads_String [OF that] by (simp add: lenient_sets_def)
qed

section \<open>The resume set\<close>


definition resume_disk :: Disk where
  "resume_disk = \<lparr>kDir = ''/data/t1'', kEntries = Inr [(''bin.000002.open.e3'', False), (''bin.000001'', False)],
     kFile = (\<lambda>n. if n = ''bin.000001'' then Some demo_bytes
                   else if n = ''bin.000002.open.e3'' then
                     Some (durableMagic @ demo_gtid_event 10 68 @ demo_xid_event 87 @ demo_gtid_event 11 131) else None),
     kSealSize = (\<lambda>_. None)\<rparr>"

definition demo_server :: string where
  "demo_server = ''abababab-abab-abab-abab-abababababab''"

lemma resume_disk_contents:
  "map lEvents (List.map_filter (\<lambda>n. case Contents demo_go resume_disk n of Inl _ \<Rightarrow> None | Inr c \<Rightarrow> Some (tLog c))
     [''bin.000001'', ''bin.000002.open.e3'']) =
   [[\<lparr>evUUID = demo_server, evSeq = 9, evOffset = 24, evWhen = unix_time 7\<rparr>],
    [\<lparr>evUUID = demo_server, evSeq = 10, evOffset = 4, evWhen = unix_time 7\<rparr>,
     \<lparr>evUUID = demo_server, evSeq = 11, evOffset = 67, evWhen = unix_time 7\<rparr>]]"
  by code_simp

lemma resume_disk_seqs: "seqs_ok demo_go resume_disk"
  unfolding seqs_ok_def
proof (intro allI impI ballI)
  fix name c ev
  assume c: "Contents demo_go resume_disk name = Inr c" "ev \<in> set (lEvents (tLog c))"
  then have "name = ''bin.000001'' \<or> name = ''bin.000002.open.e3''"
    by (auto simp: Contents_def resume_disk_def split: if_splits)
  with c resume_disk_contents show "evSeq ev < max_int64"
    by (auto simp: map_filter_simps max_int64_def split: sum.splits option.splits)
qed

lemma resume_disk_tail:
  "map_option otGTIDs (Tail demo_events resume_disk) = Some [demo_server @ '':10'']"
  "SealedStored demo_go resume_disk = [(demo_server, [GTIDRange 9 9])]"
  by code_simp+

lemma demo_server_says: "text_says lenient_reads (demo_server @ '':10'') = {(demo_server, 10)}"
proof -
  have p: "trim_space (demo_server @ '':10'') = demo_server @ '':10''"
    "ParseGTIDSetLenient (demo_server @ '':10'') = Some [(demo_server, [GTIDRange 10 10])]"
    "looksUUID demo_server" "to_lower demo_server = demo_server"
    by code_simp+
  have "gtids [(demo_server, [GTIDRange 10 10])] = {(demo_server, 10)}" by (auto simp: gtids_def lookup_def split: if_splits)
  moreover have "canonical [(demo_server, [GTIDRange 10 10])]"
    by (simp add: canonical_def demo_server_def range_ok_def max_int64_def)
  ultimately show ?thesis
    using p uuid_key_ok [OF p(3, 4)] by (simp add: text_says_def lenient_reads_def lenient_parse_def lenient_ok_def)
qed


end
