(* ===== verification/Asr_Kind.thy ===== *)
theory Asr_Kind
  imports Bin_Ledger
begin

text \<open>
  The vocabulary of the backup chain (\<open>internal/assurance/chain.go\<close>): the closed set of
  violation kinds, the violation itself, the checkpoint, a catalog row and a recorded source
  switch. \<open>Kind\<close> is a Go string type and is kept as one.
\<close>

named_theorems violation_kinds \<open>the texts of the violation kinds\<close>

type_synonym ViolationKind = string

definition I1Regression :: ViolationKind where [violation_kinds]: "I1Regression = ''I1_REGRESSION''"
definition I1Unreadable :: ViolationKind where [violation_kinds]: "I1Unreadable = ''I1_UNREADABLE''"
definition I2IndexGap :: ViolationKind where [violation_kinds]: "I2IndexGap = ''I2_INDEX_GAP''"
definition I2SwitchUnrecorded :: ViolationKind where [violation_kinds]: "I2SwitchUnrecorded = ''I2_SWITCH_UNRECORDED''"
definition I2OrderInvalid :: ViolationKind where [violation_kinds]: "I2OrderInvalid = ''I2_ORDER_INVALID''"
definition I3GTIDHole :: ViolationKind where [violation_kinds]: "I3GTIDHole = ''I3_GTID_HOLE''"
definition I3StoredHole :: ViolationKind where [violation_kinds]: "I3StoredHole = ''I3_STORED_HOLE''"
definition I3LegacyFailback :: ViolationKind where [violation_kinds]: "I3LegacyFailback = ''I3_LEGACY_FAILBACK''"
definition I4Overlap :: ViolationKind where [violation_kinds]: "I4Overlap = ''I4_OVERLAP''"
definition I4EmptyLeftover :: ViolationKind where [violation_kinds]: "I4EmptyLeftover = ''I4_EMPTY_LEFTOVER''"
definition I5CheckpointAhead :: ViolationKind where [violation_kinds]: "I5CheckpointAhead = ''I5_CHECKPOINT_AHEAD''"
definition I6MissingLocal :: ViolationKind where [violation_kinds]: "I6MissingLocal = ''I6_MISSING_LOCAL''"
definition I6MissingObject :: ViolationKind where [violation_kinds]: "I6MissingObject = ''I6_MISSING_OBJECT''"
definition I6OrphanRow :: ViolationKind where [violation_kinds]: "I6OrphanRow = ''I6_ORPHAN_ROW''"
definition I6MissingRow :: ViolationKind where [violation_kinds]: "I6MissingRow = ''I6_MISSING_ROW''"
definition I6SizeMismatch :: ViolationKind where [violation_kinds]: "I6SizeMismatch = ''I6_SIZE_MISMATCH''"
definition I6ObjectSizeMismatch :: ViolationKind where [violation_kinds]: "I6ObjectSizeMismatch = ''I6_OBJECT_SIZE_MISMATCH''"
definition I7UploadLate :: ViolationKind where [violation_kinds]: "I7UploadLate = ''I7_UPLOAD_LATE''"
definition I7Unverified :: ViolationKind where [violation_kinds]: "I7Unverified = ''I7_UNVERIFIED''"

definition AllKinds :: "ViolationKind list" where
  "AllKinds = [I1Regression, I1Unreadable, I2IndexGap, I2SwitchUnrecorded, I2OrderInvalid, I3GTIDHole,
     I3StoredHole, I3LegacyFailback, I4Overlap, I4EmptyLeftover, I5CheckpointAhead, I6MissingLocal,
     I6MissingObject, I6OrphanRow, I6MissingRow, I6SizeMismatch, I6ObjectSizeMismatch, I7UploadLate,
     I7Unverified]"

record ChainViolation =
  vKind :: ViolationKind
  vSegments :: "string list"
  vEvidence :: string
  vDetail :: string
  vProblem :: "StorageProblem option"
  vSince :: instant

lemma AllKinds_distinct: "distinct AllKinds"
  by (simp add: AllKinds_def violation_kinds)

end
