(* ===== verification/Hlt_State.thy ===== *)
theory Hlt_State
  imports Asr_Kind "HOL-Library.Product_Lexorder"
begin

text \<open>
  The data of the health evaluator (\<open>internal/health/types.go\<close>): finding kinds, severities and
  scopes (Go string types, kept as strings because a stored row may hold a text this release
  does not know), keys, instances, the facts of one task at one moment, registry entries,
  stored findings and transitions. Go maps are association lists read with \<open>go_get\<close>, which
  gives the zero value for a missing key; a pointer or a map that may be nil is an option.
\<close>

named_theorems health_kinds \<open>the texts of the finding kinds\<close>
named_theorems health_texts \<open>the texts of severities, scopes and reasons\<close>

definition go_get :: "'v \<Rightarrow> ('k \<times> 'v) list \<Rightarrow> 'k \<Rightarrow> 'v" where
  "go_get z m k = (case map_of m k of Some v \<Rightarrow> v | None \<Rightarrow> z)"

section \<open>Kinds, severities and scopes\<close>

type_synonym Kind = string
type_synonym Severity = string
type_synonym Scope = string

definition Critical :: Severity where [health_texts]: "Critical = ''CRITICAL''"
definition Warning :: Severity where [health_texts]: "Warning = ''WARNING''"
definition Info :: Severity where [health_texts]: "Info = ''INFO''"

definition rank :: "Severity \<Rightarrow> int" where
  "rank s = (if s = Critical then 3 else if s = Warning then 2 else if s = Info then 1 else 0)"

definition ScopeChainLocal :: Scope where [health_texts]: "ScopeChainLocal = ''chain.local''"
definition ScopeChainObjects :: Scope where [health_texts]: "ScopeChainObjects = ''chain.objects''"
definition ScopeTaskState :: Scope where [health_texts]: "ScopeTaskState = ''task.state''"
definition ScopeSignals :: Scope where [health_texts]: "ScopeSignals = ''signals''"
definition ScopeStore :: Scope where [health_texts]: "ScopeStore = ''store''"
definition ScopeVerify :: Scope where [health_texts]: "ScopeVerify = ''verify''"

definition TaskPersistFailed :: Kind where [health_kinds]: "TaskPersistFailed = ''TASK_PERSIST_FAILED''"
definition MetadataWriteBlocked :: Kind where [health_kinds]: "MetadataWriteBlocked = ''METADATA_WRITE_BLOCKED''"
definition EventPersistFailed :: Kind where [health_kinds]: "EventPersistFailed = ''EVENT_PERSIST_FAILED''"
definition EventReadFailed :: Kind where [health_kinds]: "EventReadFailed = ''EVENT_READ_FAILED''"
definition DumpCleanupPersistFailed :: Kind where [health_kinds]: "DumpCleanupPersistFailed = ''DUMP_CLEANUP_PERSIST_FAILED''"
definition DiskListFailed :: Kind where [health_kinds]: "DiskListFailed = ''DISK_LIST_FAILED''"
definition UploadUnverified :: Kind where [health_kinds]: "UploadUnverified = ''UPLOAD_UNVERIFIED''"
definition UploadRecordFailed :: Kind where [health_kinds]: "UploadRecordFailed = ''UPLOAD_RECORD_FAILED''"
definition RetentionRecordFailed :: Kind where [health_kinds]: "RetentionRecordFailed = ''RETENTION_RECORD_FAILED''"
definition RetryLoopFailed :: Kind where [health_kinds]: "RetryLoopFailed = ''RETRY_LOOP_FAILED''"
definition DumpStalled :: Kind where [health_kinds]: "DumpStalled = ''DUMP_STALLED''"
definition OpenTailCutFailed :: Kind where [health_kinds]: "OpenTailCutFailed = ''OPEN_TAIL_CUT_FAILED''"
definition MetricSourceFailed :: Kind where [health_kinds]: "MetricSourceFailed = ''METRIC_SOURCE_FAILED''"
definition TransitionStalled :: Kind where [health_kinds]: "TransitionStalled = ''TASK_TRANSITION_STALLED''"
definition SegmentUnreadable :: Kind where [health_kinds]: "SegmentUnreadable = ''SEGMENT_UNREADABLE''"
definition SegmentOverlap :: Kind where [health_kinds]: "SegmentOverlap = ''SEGMENT_OVERLAP''"
definition SegmentEmptyLeftover :: Kind where [health_kinds]: "SegmentEmptyLeftover = ''SEGMENT_EMPTY_LEFTOVER''"
definition SegmentDamaged :: Kind where [health_kinds]: "SegmentDamaged = ''SEGMENT_DAMAGED''"
definition ChainIndexGap :: Kind where [health_kinds]: "ChainIndexGap = ''CHAIN_INDEX_GAP''"
definition GTIDHole :: Kind where [health_kinds]: "GTIDHole = ''GTID_HOLE''"
definition LegacyFailback :: Kind where [health_kinds]: "LegacyFailback = ''LEGACY_FAILBACK''"
definition CheckpointAhead :: Kind where [health_kinds]: "CheckpointAhead = ''CHECKPOINT_AHEAD''"
definition SegmentMissing :: Kind where [health_kinds]: "SegmentMissing = ''SEGMENT_MISSING''"
definition OrphanRow :: Kind where [health_kinds]: "OrphanRow = ''ORPHAN_ROW''"
definition UploadLate :: Kind where [health_kinds]: "UploadLate = ''UPLOAD_LATE''"
definition TaskFailed :: Kind where [health_kinds]: "TaskFailed = ''TASK_FAILED''"
definition SourceUnreachable :: Kind where [health_kinds]: "SourceUnreachable = ''SOURCE_UNREACHABLE''"
definition TaskUnadopted :: Kind where [health_kinds]: "TaskUnadopted = ''TASK_UNADOPTED''"
definition TaskRecordsFailed :: Kind where [health_kinds]: "TaskRecordsFailed = ''TASK_RECORDS_FAILED''"
definition TaskNoProgress :: Kind where [health_kinds]: "TaskNoProgress = ''TASK_NO_PROGRESS''"
definition MetaUnreachable :: Kind where [health_kinds]: "MetaUnreachable = ''META_UNREACHABLE''"
definition HealthStoreUnavailable :: Kind where [health_kinds]: "HealthStoreUnavailable = ''HEALTH_STORE_UNAVAILABLE''"
definition SealFactsAbsent :: Kind where [health_kinds]: "SealFactsAbsent = ''SEAL_FACTS_ABSENT''"
definition HealthStale :: Kind where [health_kinds]: "HealthStale = ''HEALTH_STALE''"
definition HealthStoreDegraded :: Kind where [health_kinds]: "HealthStoreDegraded = ''HEALTH_STORE_DEGRADED''"
definition VerifyFailed :: Kind where [health_kinds]: "VerifyFailed = ''VERIFY_FAILED''"
definition ObjectCorrupt :: Kind where [health_kinds]: "ObjectCorrupt = ''OBJECT_CORRUPT''"
definition UploadClockSkew :: Kind where [health_kinds]: "UploadClockSkew = ''UPLOAD_CLOCK_SKEW''"
definition LocalUnreadable :: Kind where [health_kinds]: "LocalUnreadable = ''LOCAL_UNREADABLE''"
definition DrillFailed :: Kind where [health_kinds]: "DrillFailed = ''DRILL_FAILED''"
definition DrillRefused :: Kind where [health_kinds]: "DrillRefused = ''DRILL_REFUSED''"

section \<open>Keys and instances\<close>

record Key =
  keyTaskID :: string
  keyKind :: Kind
  keySubject :: string

record Instance =
  inKey :: Key
  inSeverity :: Severity
  inDetail :: string
  inEvidence :: string
  inSegments :: "string list"
  inFactAt :: instant
  inConfirm :: bool

text \<open>\<open>Key{Subject: s}\<close> and an \<open>Instance\<close> literal with a subject and a detail.\<close>

definition subject_key :: "string \<Rightarrow> Key" where
  "subject_key s = \<lparr>keyTaskID = [], keyKind = [], keySubject = s\<rparr>"

definition instance_of :: "string \<Rightarrow> string \<Rightarrow> Instance" where
  "instance_of subject detail =
     \<lparr>inKey = subject_key subject, inSeverity = [], inDetail = detail, inEvidence = [], inSegments = [],
      inFactAt = 0, inConfirm = False\<rparr>"

section \<open>Facts\<close>

record Progress =
  prRunSince :: instant
  prLastAdvance :: instant
  prFile :: string
  prInDataDir :: bool

record Liveness =
  lvLastRead :: instant
  lvLastFailure :: instant
  lvFailureDetail :: string

record TaskFacts =
  tfState :: string
  tfDesired :: string
  tfOwner :: string
  tfEpoch :: int64
  tfRunHere :: bool
  tfLeaseExpired :: bool
  tfStateSince :: instant
  tfLastError :: string
  tfFailedCurrent :: bool
  tfOwnedElsewhere :: bool
  tfUnadopted :: bool
  tfLiveness :: "Liveness option"
  tfProgress :: "Progress option"

record ChainFacts =
  cfViolations :: "ChainViolation list"
  cfVerdict :: "ChainViolation option"
  cfUploadLag :: duration

record SignalKey =
  skKind :: Kind
  skSubject :: string

record SignalState =
  ssFailureSeq :: int
  ssSuccessSeq :: int
  ssFailures :: int64
  ssDetail :: string
  ssFactAt :: instant
  ssSuccessFactAt :: instant
  ssEpoch :: int64

record Waiver =
  wvKey :: Key
  wvEvidence :: string
  wvReason :: string
  wvActor :: string
  wvAt :: instant

record Mute =
  muTaskID :: string
  muKind :: string
  muSubject :: string
  muReason :: string
  muActor :: string
  muStartedAt :: instant
  muUntil :: instant

record StoreFacts =
  sfSchemaVersion :: int
  sfSealFactsAbsent :: bool
  sfReadOnly :: bool

record Facts =
  fTaskID :: string
  fNow :: instant
  fTask :: "TaskFacts option"
  fChain :: "ChainFacts option"
  fSignals :: "(SignalKey \<times> SignalState) list"
  fStore :: "StoreFacts option"
  fWaivers :: "Waiver list"
  fComplete :: "(Scope \<times> bool) list"
  fAbsentSince :: "(Key \<times> instant) list"
  fOpen :: "(Key \<times> bool) list"
  fConfirmed :: "(Key \<times> bool) list"
  fProduced :: "(Scope \<times> bool) list option"
  fObjectSegments :: "(string \<times> bool) list"
  fNoObjectStorage :: bool
  fObjectConfigAudit :: string
  fUploadLateCriticalAfter :: duration
  fProbes :: "(Key \<times> bool) list"
  fStaleSignals :: "(Key \<times> bool) list"
  fUnreachableAfter :: duration
  fStalledAfter :: duration
  fDumpStalledAfter :: duration
  fNoProgressAfter :: duration
  fUnownedAfter :: duration
  fStaleAfter :: duration
  fHealthEvaluatedAt :: "instant go_map option"
  fHealthKnownSince :: "instant go_map"
  fNodeGone :: bool
  fDirectoryNode :: string
  fNameChainOwner :: bool

section \<open>Registry entries\<close>

record ClearRule =
  clInvariant :: string
  clHolds :: "(Facts \<Rightarrow> Key \<Rightarrow> bool) option"
  clText :: string
  clHoldDown :: duration
  clReason :: "(Facts \<Rightarrow> Key \<Rightarrow> string) option"

record KindSpec =
  ksKind :: Kind
  ksSeverity :: Severity
  ksScopes :: "Scope list"
  ksClear :: ClearRule
  ksDerive :: "(Facts \<Rightarrow> Instance list) option"
  ksSegmentScoped :: bool
  ksManaged :: bool
  ksConfirm :: bool
  ksVersion :: int
  ksWaivable :: bool

type_synonym Registry = "(Kind \<times> KindSpec) list"

section \<open>Stored findings, transitions, health\<close>

record Finding =
  fdTaskID :: string
  fdKind :: Kind
  fdSubject :: string
  fdSeverity :: Severity
  fdDetail :: string
  fdEvidence :: string
  fdSegments :: "string list"
  fdFirstSeen :: instant
  fdLastSeen :: instant
  fdGeneration :: int64

definition finding_Key :: "Finding \<Rightarrow> Key" where
  "finding_Key f = \<lparr>keyTaskID = fdTaskID f, keyKind = fdKind f, keySubject = fdSubject f\<rparr>"

text \<open>\<open>Op\<close> with the zero value \<open>Op("")\<close> first, and the two texts the waiver operations of the
  stores log.\<close>

datatype Op = OpNone | OpOpen | OpUpdate | OpEscalate | OpClose | OpDowngrade | OpWaive | OpUnwaive

fun op_string :: "Op \<Rightarrow> string" where
  "op_string OpNone = ''''"
| "op_string OpOpen = ''OPEN''"
| "op_string OpUpdate = ''UPDATE''"
| "op_string OpEscalate = ''ESCALATE''"
| "op_string OpClose = ''CLOSE''"
| "op_string OpDowngrade = ''DOWNGRADE''"
| "op_string OpWaive = ''WAIVE''"
| "op_string OpUnwaive = ''UNWAIVE''"

definition ReasonEval :: string where [health_texts]: "ReasonEval = ''EVAL''"
definition ReasonWaived :: string where [health_texts]: "ReasonWaived = ''WAIVED''"
definition ReasonConfig :: string where [health_texts]: "ReasonConfig = ''CONFIG''"
definition ReasonUpgrade :: string where [health_texts]: "ReasonUpgrade = ''UPGRADE''"
definition ReasonHandedOff :: string where [health_texts]: "ReasonHandedOff = ''HANDED_OFF''"

record Transition =
  trKey :: Key
  trOp :: Op
  trReason :: string
  trAt :: instant
  trFactAt :: instant
  trGeneration :: int64
  trKindVersion :: int
  trInstance :: Instance

type_synonym Desired = "(Key \<times> Instance) list"

datatype Status = StatusNone | StatusHealthy | StatusDegraded | StatusUnhealthy | StatusUnknown

record TaskHealth =
  thTaskID :: string
  thStatus :: Status
  thReasons :: "Key list"
  thUnknown :: "Scope list"
  thEvaluatedAt :: instant
  thUnknownDetail :: string

definition Produced :: "(Scope \<times> bool) list" where
  "Produced = [(ScopeChainLocal, True), (ScopeTaskState, True), (ScopeSignals, True), (ScopeStore, True)]"

section \<open>Shared lemmas\<close>

lemma go_get_Nil [simp]: "go_get z [] k = z"
  by (simp add: go_get_def)

lemma go_get_update [alist_simps]: "go_get z (AList.update k v m) x = (if x = k then v else go_get z m x)"
  by (simp add: go_get_def alist_simps)

lemma rank_range: "0 \<le> rank s \<and> rank s \<le> 3"
  by (simp add: rank_def)

lemma rank_texts [simp]: "rank Critical = 3" "rank Warning = 2" "rank Info = 1" "rank [] = 0"
  by (simp_all add: rank_def health_texts)

text \<open>A key as the triple of texts the sorts compare.\<close>

definition key_texts :: "Key \<Rightarrow> string \<times> string \<times> string" where
  "key_texts k = (keyTaskID k, keyKind k, keySubject k)"

lemma key_texts_inj: "key_texts a = key_texts b \<longleftrightarrow> a = b"
  by (cases a; cases b) (auto simp: key_texts_def)

lemma finding_Key_simps [simp]:
  "keyTaskID (finding_Key f) = fdTaskID f" "keyKind (finding_Key f) = fdKind f"
  "keySubject (finding_Key f) = fdSubject f"
  by (simp_all add: finding_Key_def)

end
