(* ===== verification/Hlt_Signal.thy ===== *)
theory Hlt_Signal
  imports Hlt_State Go_Time
begin

text \<open>
  The derivations and clearing rules of the signal and task-state kinds
  (\<open>internal/health/signals.go\<close>) and of \<open>HEALTH_STALE\<close> (\<open>internal/health/stale.go\<close>), one
  definition per Go function. A function that returns a nil pointer returns \<open>None\<close>.
\<close>

section \<open>States, thresholds and failure classes\<close>

definition stateRunning :: string where [health_texts]: "stateRunning = ''RUNNING''"
definition stateStarting :: string where [health_texts]: "stateStarting = ''STARTING''"
definition stateStopping :: string where [health_texts]: "stateStopping = ''STOPPING''"
definition stateStopped :: string where [health_texts]: "stateStopped = ''STOPPED''"
definition stateFailed :: string where [health_texts]: "stateFailed = ''FAILED''"
definition stateRetryBackoff :: string where [health_texts]: "stateRetryBackoff = ''RETRY_BACKOFF''"
definition desiredRun :: string where [health_texts]: "desiredRun = ''RUN''"
definition desiredStop :: string where [health_texts]: "desiredStop = ''STOP''"

definition DefaultUnreachableAfter :: duration where "DefaultUnreachableAfter = 90 * second"
definition DefaultDumpStalledAfter :: duration where "DefaultDumpStalledAfter = 45 * second"
definition DefaultStalledAfter :: duration where "DefaultStalledAfter = 60 * second"
definition DefaultNoProgressAfter :: duration where "DefaultNoProgressAfter = 120 * second"

definition FailStreamRegression :: string where [health_texts]: "FailStreamRegression = ''STREAM_REGRESSION''"
definition FailSourceError1236 :: string where [health_texts]: "FailSourceError1236 = ''SOURCE_ERROR_1236''"
definition FailPermissionDenied :: string where [health_texts]: "FailPermissionDenied = ''PERMISSION_DENIED''"
definition FailStorage :: string where [health_texts]: "FailStorage = ''STORAGE_INCONSISTENT''"
definition FailSourceSwitchover :: string where [health_texts]: "FailSourceSwitchover = ''SOURCE_SWITCHOVER''"
definition FailSourceUnreachable :: string where [health_texts]: "FailSourceUnreachable = ''SOURCE_UNREACHABLE''"
definition FailConfig :: string where [health_texts]: "FailConfig = ''CONFIG''"
definition FailOther :: string where [health_texts]: "FailOther = ''OTHER''"

definition FailureClasses :: "string list" where
  "FailureClasses = [FailStreamRegression, FailSourceError1236, FailPermissionDenied, FailStorage,
     FailSourceSwitchover, FailSourceUnreachable, FailConfig, FailOther]"

definition ClassifyFailure :: "string \<Rightarrow> string" where
  "ClassifyFailure lastError =
     (let msg = trim_space lastError;
          code = to_upper (trim_space (cut_before CHR '':'' msg));
          low = to_lower msg
      in if code = ''STREAM_REGRESSION'' then FailStreamRegression
         else if contains_text low ''1236'' then FailSourceError1236
         else if code = ''SOURCE_ACCESS_DENIED'' \<or> contains_text low ''permission denied''
                 \<or> contains_text low ''access denied'' then FailPermissionDenied
         else if code = ''STORAGE_INCONSISTENT'' \<or> code = ''SEALED_FILE_EXISTS''
                 \<or> code = ''CHECKPOINT_WRITE_FAILED'' then FailStorage
         else if code = ''SOURCE_SWITCHOVER'' then FailSourceSwitchover
         else if code = ''SOURCE_UNREACHABLE'' then FailSourceUnreachable
         else if code = ''INVALID_REQUEST'' \<or> code = ''SOURCE_LOG_BIN_OFF''
                 \<or> code = ''SOURCE_IDENTITY_UNAVAILABLE'' then FailConfig
         else FailOther)"

section \<open>Signals\<close>

definition failing :: "SignalState \<Rightarrow> bool" where
  "failing st \<longleftrightarrow> ssFailureSeq st > ssSuccessSeq st"

definition succeeded :: "SignalState option \<Rightarrow> bool" where
  "succeeded r = (case r of None \<Rightarrow> False
     | Some st \<Rightarrow> ssSuccessSeq st > 0 \<and> ssSuccessSeq st > ssFailureSeq st)"

definition failing_signals :: "Kind \<Rightarrow> Facts \<Rightarrow> (SignalKey \<times> SignalState) list" where
  "failing_signals kind f = filter (\<lambda>(k, st). skKind k = kind \<and> failing st) (fSignals f)"

definition stale_text :: string where
  "stale_text = ''no failure or success seen for this signal since health.signal_stale_after; shown as INFO until it is proven either way''"

definition signalDerive :: "Kind \<Rightarrow> Facts \<Rightarrow> Instance list" where
  "signalDerive kind f =
     (let bad = failing_signals kind f;
          seen = map (\<lambda>(k, st). skSubject k) bad;
          stale = filter (\<lambda>k. keyKind k = kind \<and> keySubject k \<notin> set seen \<and> \<not> go_get False (fProbes f) k)
                    (map fst (fStaleSignals f))
      in map (\<lambda>(k, st). instance_of (skSubject k) (ssDetail st) \<lparr>inFactAt := ssFactAt st\<rparr>) bad
         @ map (\<lambda>k. instance_of (keySubject k) stale_text \<lparr>inSeverity := Info\<rparr>) stale)"

definition signalCleared :: "Kind \<Rightarrow> Facts \<Rightarrow> Key \<Rightarrow> bool" where
  "signalCleared kind f key \<longleftrightarrow>
     succeeded (map_of (fSignals f) \<lparr>skKind = kind, skSubject = keySubject key\<rparr>) \<or> go_get False (fProbes f) key"

section \<open>The source liveness clock\<close>

definition desiresRun :: "TaskFacts option \<Rightarrow> bool" where
  "desiresRun t = (case t of None \<Rightarrow> False | Some t \<Rightarrow> tfDesired t = desiredRun)"

definition deliberatelyStopped :: "TaskFacts option \<Rightarrow> bool" where
  "deliberatelyStopped t = (case t of None \<Rightarrow> False
     | Some t \<Rightarrow> tfDesired t = desiredStop \<and> tfState t = stateStopped)"

definition liveness :: "Facts \<Rightarrow> Liveness option" where
  "liveness f =
     (case fTask f of None \<Rightarrow> None
      | Some t \<Rightarrow>
          (case tfLiveness t of None \<Rightarrow> None
           | Some l \<Rightarrow>
               if \<not> desiresRun (Some t) \<or> tfOwnedElsewhere t \<or> lvLastRead l = 0 then None else Some l))"

definition dumpStalledAfter :: "Facts \<Rightarrow> duration" where
  "dumpStalledAfter f = (if fDumpStalledAfter f > 0 then fDumpStalledAfter f else DefaultDumpStalledAfter)"

definition unreachableAfter :: "Facts \<Rightarrow> duration" where
  "unreachableAfter f = (if fUnreachableAfter f > 0 then fUnreachableAfter f else DefaultUnreachableAfter)"

definition silenceOf :: "Facts \<Rightarrow> Liveness \<Rightarrow> duration" where
  "silenceOf f l = round_to (time_sub (fNow f) (lvLastRead l)) second"

definition unreachable :: "Facts \<Rightarrow> bool" where
  "unreachable f =
     (case liveness f of None \<Rightarrow> False
      | Some l \<Rightarrow> lvLastFailure l > lvLastRead l
          \<and> time_sub (lvLastFailure l) (lvLastRead l) \<ge> unreachableAfter f)"

definition stalled :: "Facts \<Rightarrow> bool" where
  "stalled f =
     (case liveness f of None \<Rightarrow> False
      | Some l \<Rightarrow> time_sub (fNow f) (lvLastRead l) \<ge> dumpStalledAfter f \<and> \<not> unreachable f)"

definition task_state :: "Facts \<Rightarrow> string" where
  "task_state f = (case fTask f of None \<Rightarrow> [] | Some t \<Rightarrow> tfState t)"

definition dumpStalledDerive :: "Facts \<Rightarrow> Instance list" where
  "dumpStalledDerive f =
     (case liveness f of None \<Rightarrow> []
      | Some l \<Rightarrow> emit (stalled f)
          (instance_of [] (''no byte or heartbeat read from the source for '' @ duration_string (silenceOf f l)
             @ '' (dump_stalled_after '' @ duration_string (dumpStalledAfter f) @ ''); the task is '' @ task_state f)))"

definition dumpStalledCleared :: "Facts \<Rightarrow> Key \<Rightarrow> bool" where
  "dumpStalledCleared f key \<longleftrightarrow> \<not> stalled f"

definition dumpStalledReason :: "Facts \<Rightarrow> Key \<Rightarrow> string" where
  "dumpStalledReason f key = (if unreachable f then ReasonHandedOff else [])"

definition sourceUnreachableDerive :: "Facts \<Rightarrow> Instance list" where
  "sourceUnreachableDerive f =
     (case liveness f of None \<Rightarrow> []
      | Some l \<Rightarrow> emit (unreachable f)
          (instance_of [] (''no byte or heartbeat read from the source for '' @ duration_string (silenceOf f l)
             @ ''; the latest connection attempt failed ''
             @ duration_string (truncate_to (time_sub (fNow f) (lvLastFailure l)) second) @ '' ago''
             @ (if trim_space (lvFailureDetail l) \<noteq> [] then '': '' @ lvFailureDetail l else []))))"

definition sourceUnreachableCleared :: "Facts \<Rightarrow> Key \<Rightarrow> bool" where
  "sourceUnreachableCleared f key \<longleftrightarrow> \<not> unreachable f"

section \<open>Task state\<close>

definition taskFailedDerive :: "Facts \<Rightarrow> Instance list" where
  "taskFailedDerive f =
     (case fTask f of None \<Rightarrow> []
      | Some t \<Rightarrow> emit (tfState t = stateFailed \<and> tfFailedCurrent t)
          (instance_of (ClassifyFailure (tfLastError t)) (''task FAILED: '' @ tfLastError t)))"

definition TaskUnadoptedDetail :: "string \<Rightarrow> string" where
  "TaskUnadoptedDetail taskID =
     ''data_dir/'' @ taskID @ '' holds a backup with no task metadata (standalone, after a restart or a delete): ''
     @ ''replication for it is stopped and the backup falls behind the source; POST /api/tasks/'' @ taskID
     @ ''/adopt with the source and cluster_key to resume it, or move the directory out of data_dir''"

definition taskUnadoptedDerive :: "Facts \<Rightarrow> Instance list" where
  "taskUnadoptedDerive f =
     (case fTask f of None \<Rightarrow> []
      | Some t \<Rightarrow> emit (tfUnadopted t) (instance_of [] (TaskUnadoptedDetail (fTaskID f))))"

definition stalledAfter :: "Facts \<Rightarrow> duration" where
  "stalledAfter f = (if fStalledAfter f > 0 then fStalledAfter f else DefaultStalledAfter)"

definition transitionStalledDerive :: "Facts \<Rightarrow> Instance list" where
  "transitionStalledDerive f =
     (case fTask f of None \<Rightarrow> []
      | Some t \<Rightarrow>
          if (tfState t \<noteq> stateStarting \<and> tfState t \<noteq> stateStopping) \<or> tfRunHere t \<or> tfOwnedElsewhere t
             \<or> tfStateSince t = 0 then []
          else (let age = time_sub (fNow f) (tfStateSince t)
                in emit (age \<ge> stalledAfter f)
                     (instance_of [] (''task is in '' @ tfState t @ '' for '' @ duration_string (round_to age second)
                        @ '' with no dump driving it''))))"

definition noProgressAfter :: "Facts \<Rightarrow> duration" where
  "noProgressAfter f = (if fNoProgressAfter f > 0 then fNoProgressAfter f else DefaultNoProgressAfter)"

definition unownedQuietAfter :: "Facts \<Rightarrow> duration" where
  "unownedQuietAfter f = (if fUnownedAfter f > 0 then fUnownedAfter f else noProgressAfter f)"

definition threshold_text :: "duration \<Rightarrow> string" where
  "threshold_text after = '' (no_progress_after '' @ duration_string after @ '')''"

definition run_detail :: "TaskFacts \<Rightarrow> Progress \<Rightarrow> string \<Rightarrow> string \<Rightarrow> string" where
  "run_detail t p d threshold =
     (if prFile p \<noteq> [] \<and> \<not> prInDataDir p \<and> prLastAdvance p \<noteq> 0 then
        ''this node runs the task (state '' @ tfState t @ '') but for '' @ d
          @ '' nothing it wrote is under this worker'' @ [CHR 0x27] @ ''s data_dir: the run'' @ [CHR 0x27]
          @ ''s current segment '' @ prFile p @ '' is not under this worker'' @ [CHR 0x27] @ ''s data_dir'' @ threshold
          @ ''; the backup is not advancing here. Cluster nodes must share data_dir at the same path''
      else if prLastAdvance p = 0 then
        ''this node runs the task (state '' @ tfState t
          @ '') but has written nothing and has not been confirmed at the source tip for '' @ d @ threshold
      else
        ''this node runs the task (state '' @ tfState t
          @ '') but it has not advanced under data_dir or been confirmed at the source tip for '' @ d @ threshold)"

definition run_since :: "Progress \<Rightarrow> instant" where
  "run_since p = (if prInDataDir p \<and> prLastAdvance p > prRunSince p then prLastAdvance p else prRunSince p)"

definition run_idle :: "Facts \<Rightarrow> TaskFacts \<Rightarrow> Progress \<Rightarrow> (duration \<times> string) option" where
  "run_idle f t p =
     (let since = run_since p; idle = time_sub (fNow f) since; after = noProgressAfter f
      in if since = 0 \<or> idle < after then None
         else Some (idle, run_detail t p (duration_string (round_to idle second)) (threshold_text after)))"

definition owner_text :: "TaskFacts \<Rightarrow> string" where
  "owner_text t = (if tfOwner t = [] then ''none''
                   else if tfLeaseExpired t then tfOwner t @ '' (lease expired)'' else tfOwner t)"

definition unowned_idle :: "Facts \<Rightarrow> TaskFacts \<Rightarrow> (duration \<times> string) option" where
  "unowned_idle f t =
     (if tfRunHere t \<or> tfStateSince t = 0 then None
      else (let after = unownedQuietAfter f; idle = time_sub (fNow f) (tfStateSince t)
            in if idle < after then None
               else Some (idle, ''desired RUN but no worker is running the task: state '' @ tfState t @ '', owner ''
                      @ owner_text t @ '', for '' @ duration_string (round_to idle second) @ threshold_text after)))"

definition noProgress :: "Facts \<Rightarrow> (duration \<times> string) option" where
  "noProgress f =
     (case fTask f of None \<Rightarrow> None
      | Some t \<Rightarrow>
          if \<not> desiresRun (Some t) \<or> tfState t = stateFailed \<or> tfOwnedElsewhere t \<or> unreachable f then None
          else (case tfProgress t of Some p \<Rightarrow> run_idle f t p | None \<Rightarrow> unowned_idle f t))"

definition noProgressDerive :: "Facts \<Rightarrow> Instance list" where
  "noProgressDerive f = (case noProgress f of None \<Rightarrow> [] | Some (idle, detail) \<Rightarrow> [instance_of [] detail])"

definition noProgressCleared :: "Facts \<Rightarrow> Key \<Rightarrow> bool" where
  "noProgressCleared f key \<longleftrightarrow> noProgress f = None"

section \<open>Stale health\<close>

definition stale_one :: "Facts \<Rightarrow> string \<Rightarrow> instant \<Rightarrow> Instance list" where
  "stale_one f tid at =
     (let known = go_get 0 (fHealthKnownSince f) tid;
          ref = (if at \<noteq> 0 then at else known);
          detail =
            (if at \<noteq> 0
             then ''task '' @ tid @ '' has not been evaluated within health.stale_after ('' @ duration_string (fStaleAfter f)
                    @ ''); last health write '' @ rfc3339 at
             else ''task '' @ tid @ '' has no task_health row; expected an evaluation since '' @ rfc3339 known
                    @ '' (health.stale_after '' @ duration_string (fStaleAfter f) @ '')'')
      in if ref = 0 \<or> time_sub (fNow f) ref < fStaleAfter f then [] else [instance_of tid detail])"

definition healthStaleDerive :: "Facts \<Rightarrow> Instance list" where
  "healthStaleDerive f =
     (case fHealthEvaluatedAt f of None \<Rightarrow> []
      | Some m \<Rightarrow>
          if fStaleAfter f \<le> 0 then []
          else concat (map (\<lambda>tid. if tid = ''_cluster'' \<or> tid = ''_health'' then [] else stale_one f tid (go_get 0 m tid))
                 (sort (map fst m))))"

section \<open>Facts about the clocks\<close>

lemma stalled_unreachable: "\<not> (stalled f \<and> unreachable f)"
  by (simp add: stalled_def split: option.splits)

lemma classify_closed: "ClassifyFailure e \<in> set FailureClasses"
  by (simp add: ClassifyFailure_def Let_def FailureClasses_def)

lemma no_progress_not_unreachable: "noProgress f \<noteq> None \<Longrightarrow> \<not> unreachable f"
  by (auto simp: noProgress_def split: option.splits if_splits)

end
