(* ===== verification/Hlt_Gtid.thy ===== *)
theory Hlt_Gtid
  imports Gtid_Text Go_Time "HOL-Library.Product_Lexorder"
begin

text \<open>
  The canonical form of a waiver's GTID ranges (\<open>CanonicalGTIDRanges\<close>, \<open>isUUID\<close> and
  \<open>isGTIDTag\<close> of \<open>internal/health/registry.go\<close>), for MySQL sets with tags and for MariaDB
  ranges. An error is \<open>None\<close>. The map from sources to intervals is an association list; the
  numbers are \<open>uint64\<close>, whose end the merge loop tests for instead of computing past it.
\<close>

section \<open>Words of the syntax\<close>

definition isUUID :: "string \<Rightarrow> bool" where
  "isUUID s \<longleftrightarrow> length s = 36 \<and>
     list_all (\<lambda>i. if i \<in> {8, 13, 18, 23} then s ! i = CHR ''-'' else is_hex (s ! i)) [0..<36]"

text \<open>\<open>s[i] | 0x20\<close>\<close>

definition fold_case :: "char \<Rightarrow> nat" where
  "fold_case c = (let n = of_char c :: nat in if n div 32 mod 2 = 0 then n + 32 else n)"

definition isGTIDTag :: "string \<Rightarrow> bool" where
  "isGTIDTag s \<longleftrightarrow> length s \<noteq> 0 \<and> length s \<le> 32 \<and>
     list_all (\<lambda>i. s ! i = CHR ''_'' \<or> (97 \<le> fold_case (s ! i) \<and> fold_case (s ! i) \<le> 122)
                 \<or> (i > 0 \<and> is_digit (s ! i))) [0..<length s]"

definition parse_uint_bits :: "nat \<Rightarrow> string \<Rightarrow> int option" where
  "parse_uint_bits bits s =
     (if s = [] \<or> \<not> list_all is_digit s \<or> digits_val s \<ge> 2 ^ bits then None else Some (digits_val s))"

section \<open>Reading\<close>

record gtid_src =
  gsName :: string
  gsUuid :: string
  gsTag :: string
  gsD :: int
  gsSrv :: int

type_synonym gtid_by = "(gtid_src \<times> (int \<times> int) list) list"

datatype flavor = NoFlavor | MySQL | MariaDB

definition parse_range :: "string \<Rightarrow> (int \<times> int) option" where
  "parse_range span =
     (let (lo, hi) = cut_dash (trim_space span)
      in case (parse_uint_bits 64 lo, parse_uint_bits 64 hi) of
           (Some a, Some b) \<Rightarrow> if a = 0 \<or> b < a then None else Some (a, b)
         | _ \<Rightarrow> None)"

definition ranges_of :: "gtid_by \<Rightarrow> gtid_src \<Rightarrow> (int \<times> int) list" where
  "ranges_of acc k = (case map_of acc k of Some rs \<Rightarrow> rs | None \<Rightarrow> [])"

definition add_src :: "gtid_by \<Rightarrow> gtid_src \<Rightarrow> int \<times> int \<Rightarrow> gtid_by" where
  "add_src acc k r = AList.update k (ranges_of acc k @ [r]) acc"

definition mysql_src :: "string \<Rightarrow> string \<Rightarrow> gtid_src" where
  "mysql_src uuid tag =
     \<lparr>gsName = (if tag \<noteq> [] then uuid @ '':'' @ tag else uuid), gsUuid = uuid, gsTag = tag, gsD = 0, gsSrv = 0\<rparr>"

definition mariadb_src :: "int \<Rightarrow> int \<Rightarrow> gtid_src" where
  "mariadb_src d srv =
     \<lparr>gsName = format_int d @ ''-'' @ format_int srv, gsUuid = [], gsTag = [], gsD = d, gsSrv = srv\<rparr>"

text \<open>The intervals and tags after the uuid; the flag is \<open>pendingTag\<close>.\<close>

fun mysql_fields :: "string \<Rightarrow> string \<Rightarrow> bool \<Rightarrow> gtid_by \<Rightarrow> string list \<Rightarrow> gtid_by option" where
  "mysql_fields uuid tag pending acc [] = (if pending then None else Some acc)"
| "mysql_fields uuid tag pending acc (fd # fds) =
     (let field = trim_space fd
      in if field \<noteq> [] \<and> \<not> is_digit (hd field) then
           (if \<not> isGTIDTag field \<or> pending then None
            else mysql_fields uuid (to_lower field) True acc fds)
         else (case parse_range field of
                 None \<Rightarrow> None
               | Some rg \<Rightarrow> mysql_fields uuid tag False (add_src acc (mysql_src uuid tag) rg) fds))"

definition mariadb_head :: "string \<Rightarrow> string \<Rightarrow> string \<Rightarrow> gtid_by \<Rightarrow> gtid_by option" where
  "mariadb_head p0 p1 span acc =
     (case (parse_uint_bits 32 p0, parse_uint_bits 32 p1, parse_range span) of
        (Some d, Some srv, Some rg) \<Rightarrow> Some (add_src acc (mariadb_src d srv) rg)
      | _ \<Rightarrow> None)"

definition gtid_part :: "flavor \<times> gtid_by \<Rightarrow> string \<Rightarrow> (flavor \<times> gtid_by) option" where
  "gtid_part st raw =
     (let (fl, acc) = st; part = trim_space raw
      in if part = [] then Some st
         else
           (let fields = split_on CHR '':'' part; head = trim_space (hd fields); dash = split_on CHR ''-'' head
            in if length dash = 5 then
                 (if length fields < 2 \<or> \<not> isUUID head \<or> fl = MariaDB then None
                  else (case mysql_fields (to_lower head) [] False acc (tl fields) of
                          None \<Rightarrow> None | Some acc' \<Rightarrow> Some (MySQL, acc')))
               else
                 (case (if length fields = 1 \<and> length dash = 3 then mariadb_head (dash ! 0) (dash ! 1) (dash ! 2) acc
                        else if length fields = 2 \<and> length dash = 2
                        then mariadb_head (dash ! 0) (dash ! 1) (fields ! 1) acc
                        else None) of
                    None \<Rightarrow> None
                  | Some acc' \<Rightarrow> if fl = MySQL then None else Some (MariaDB, acc'))))"

fun gtid_parts :: "flavor \<times> gtid_by \<Rightarrow> string list \<Rightarrow> (flavor \<times> gtid_by) option" where
  "gtid_parts st [] = Some st"
| "gtid_parts st (p # ps) = (case gtid_part st p of None \<Rightarrow> None | Some st' \<Rightarrow> gtid_parts st' ps)"

section \<open>Merging and printing\<close>

fun merge_ranges :: "int \<times> int \<Rightarrow> (int \<times> int) list \<Rightarrow> (int \<times> int) list" where
  "merge_ranges cur [] = [cur]"
| "merge_ranges cur (r # rs) =
     (if snd cur = max_uint64 \<or> fst r \<le> snd cur + 1
      then merge_ranges (if snd r > snd cur then (fst cur, snd r) else cur) rs
      else cur # merge_ranges r rs)"

definition merged :: "(int \<times> int) list \<Rightarrow> (int \<times> int) list" where
  "merged rs = (case sort_key fst rs of [] \<Rightarrow> [] | r # rest \<Rightarrow> merge_ranges r rest)"

definition flush_text :: "gtid_src \<Rightarrow> int \<times> int \<Rightarrow> string" where
  "flush_text k r = gsName k @ '':'' @ format_int (fst r) @ ''-'' @ format_int (snd r)"

definition sorted_srcs :: "flavor \<Rightarrow> gtid_by \<Rightarrow> gtid_src list" where
  "sorted_srcs fl acc =
     (if fl = MariaDB then sort_key (\<lambda>k. (gsD k, gsSrv k)) (map fst acc)
      else sort_key (\<lambda>k. (gsUuid k, gsTag k)) (map fst acc))"

definition print_by :: "flavor \<Rightarrow> gtid_by \<Rightarrow> string" where
  "print_by fl acc =
     join_with CHR '','' (concat (map (\<lambda>k. map (flush_text k) (merged (ranges_of acc k))) (sorted_srcs fl acc)))"

definition CanonicalGTIDRanges :: "string \<Rightarrow> string option" where
  "CanonicalGTIDRanges s =
     (case gtid_parts (NoFlavor, []) (split_on CHR '','' s) of
        None \<Rightarrow> None
      | Some (fl, acc) \<Rightarrow> Some (print_by fl acc))"

lemma isUUID_looks: "isUUID s = looksUUID s"
  by (simp add: isUUID_def looksUUID_def)

lemma CanonicalGTIDRanges_empty: "CanonicalGTIDRanges [] = Some []"
  by (simp add: CanonicalGTIDRanges_def gtid_part_def print_by_def sorted_srcs_def trim_space_def)

end

