(* ===== verification/Hlt_Registry.thy ===== *)
theory Hlt_Registry
  imports Hlt_Signal Hlt_Gtid
begin

text \<open>
  The kind table (\<open>internal/health/registry.go\<close>): the map from violation kinds to finding kinds,
  the derivation of the chain kinds, the managed sets and \<open>DefaultRegistry\<close>. A Go map that is
  only written at start-up is the association list of its literal.
\<close>

section \<open>From violations to findings\<close>

definition fromAssurance :: "(ViolationKind \<times> Kind) list" where
  "fromAssurance =
     [(I1Regression, SegmentDamaged), (I1Unreadable, SegmentUnreadable), (I2IndexGap, ChainIndexGap),
      (I2SwitchUnrecorded, ChainIndexGap), (I2OrderInvalid, ChainIndexGap), (I3GTIDHole, GTIDHole),
      (I3StoredHole, GTIDHole), (I3LegacyFailback, LegacyFailback), (I4Overlap, SegmentOverlap),
      (I4EmptyLeftover, SegmentEmptyLeftover), (I5CheckpointAhead, CheckpointAhead),
      (I6MissingLocal, SegmentMissing), (I6MissingObject, SegmentMissing), (I6MissingRow, SegmentMissing),
      (I6SizeMismatch, SegmentMissing), (I6ObjectSizeMismatch, SegmentMissing), (I6OrphanRow, OrphanRow),
      (I7UploadLate, UploadLate), (I7Unverified, UploadUnverified)]"

definition FromAssurance :: "ViolationKind \<Rightarrow> Kind option" where
  "FromAssurance k = map_of fromAssurance k"

definition LegacyKinds :: "Kind list" where
  "LegacyKinds = [TaskPersistFailed, MetadataWriteBlocked, EventPersistFailed, EventReadFailed,
     DumpCleanupPersistFailed, DiskListFailed, UploadUnverified, UploadRecordFailed, RetentionRecordFailed,
     RetryLoopFailed, DumpStalled, OpenTailCutFailed, MetricSourceFailed, TransitionStalled,
     SegmentUnreadable, SegmentOverlap]"

definition notDerived :: "ViolationKind list" where
  "notDerived = [I2SwitchUnrecorded, I6MissingRow]"

definition objectOrigin :: "ViolationKind list" where
  "objectOrigin = [I6MissingObject, I6ObjectSizeMismatch]"

definition objectSuffix :: string where
  "objectSuffix = ''#object''"

definition ObjectSubject :: "string \<Rightarrow> string" where
  "ObjectSubject segment = segment @ objectSuffix"

definition IsObjectSubject :: "string \<Rightarrow> string option" where
  "IsObjectSubject subject =
     (if has_suffix subject objectSuffix then Some (trim_suffix subject objectSuffix) else None)"

definition DefaultUploadLateCriticalAfter :: duration where
  "DefaultUploadLateCriticalAfter = 24 * 3600 * second"

definition withDirectoryNode :: "string \<Rightarrow> Facts \<Rightarrow> string" where
  "withDirectoryNode detail f =
     (if fDirectoryNode f = [] then detail
      else if contains_text detail ''chain_owner='' \<or> contains_text detail ''node='' then detail
      else (let token = (if fNameChainOwner f then ''chain_owner'' else ''node'') @ ''='' @ fDirectoryNode f
            in if detail = [] then token else detail @ '' '' @ token))"

definition upload_late_severity :: "Facts \<Rightarrow> ChainViolation \<Rightarrow> Severity" where
  "upload_late_severity f v =
     (let after = (if fUploadLateCriticalAfter f \<le> 0 then DefaultUploadLateCriticalAfter
                   else fUploadLateCriticalAfter f)
      in if vSince v \<noteq> 0 \<and> time_sub (fNow f) (vSince v) \<ge> after then Critical else Warning)"

definition chain_instance :: "Facts \<Rightarrow> ChainViolation \<Rightarrow> Instance" where
  "chain_instance f v =
     (let subject = (if vSegments v \<noteq> [] then hd (vSegments v) else []);
          subject = (if vKind v \<in> set objectOrigin then ObjectSubject subject else subject)
      in (instance_of subject (if vKind v = I6MissingLocal then withDirectoryNode (vDetail v) f else vDetail v))
           \<lparr>inEvidence := vEvidence v, inSegments := vSegments v,
            inSeverity := (if vKind v = I7UploadLate then upload_late_severity f v else []),
            inConfirm := (vKind v = I7Unverified)\<rparr>)"

definition chainDerive :: "Kind \<Rightarrow> Facts \<Rightarrow> Instance list" where
  "chainDerive kind f =
     (case fChain f of None \<Rightarrow> []
      | Some c \<Rightarrow> map (chain_instance f)
          (filter (\<lambda>v. vKind v \<notin> set notDerived \<and> map_of fromAssurance (vKind v) = Some kind) (cfViolations c)))"

section \<open>Entries\<close>

definition clear_rule :: "string \<Rightarrow> string \<Rightarrow> ClearRule" where
  "clear_rule invr txt = \<lparr>clInvariant = invr, clHolds = None, clText = txt, clHoldDown = 0, clReason = None\<rparr>"

definition kind_spec :: "Kind \<Rightarrow> Severity \<Rightarrow> Scope list \<Rightarrow> ClearRule \<Rightarrow> int \<Rightarrow> (Facts \<Rightarrow> Instance list) option \<Rightarrow> KindSpec" where
  "kind_spec kind sev scopes cl version derive =
     \<lparr>ksKind = kind, ksSeverity = sev, ksScopes = scopes, ksClear = cl, ksDerive = derive,
      ksSegmentScoped = False, ksManaged = False, ksConfirm = False, ksVersion = version, ksWaivable = False\<rparr>"

definition signalSpec :: "Kind \<Rightarrow> Severity \<Rightarrow> string \<Rightarrow> string \<Rightarrow> KindSpec" where
  "signalSpec kind sev invr txt =
     kind_spec kind sev [ScopeSignals] ((clear_rule invr txt)\<lparr>clHolds := Some (signalCleared kind)\<rparr>) 1
       (Some (signalDerive kind))"

definition chainSpec :: "Kind \<Rightarrow> Severity \<Rightarrow> Scope \<Rightarrow> string \<Rightarrow> string \<Rightarrow> Scope list \<Rightarrow> KindSpec" where
  "chainSpec kind sev scope invr txt others =
     (kind_spec kind sev (scope # others) (clear_rule invr txt) 1 (Some (chainDerive kind)))\<lparr>ksSegmentScoped := True\<rparr>"

definition stateSpec :: "Kind \<Rightarrow> Severity \<Rightarrow> Scope \<Rightarrow> string \<Rightarrow> string \<Rightarrow> Scope list \<Rightarrow> KindSpec" where
  "stateSpec kind sev scope invr txt others = kind_spec kind sev (scope # others) (clear_rule invr txt) 1 None"

definition verifySpec :: "Kind \<Rightarrow> Severity \<Rightarrow> string \<Rightarrow> KindSpec" where
  "verifySpec kind sev txt = kind_spec kind sev [ScopeVerify] (clear_rule ''verify'' txt) 1 None"

definition sealFactsAbsentDerive :: "Facts \<Rightarrow> Instance list" where
  "sealFactsAbsentDerive f =
     (case fStore f of None \<Rightarrow> []
      | Some s \<Rightarrow> emit (sfSealFactsAbsent s)
          (instance_of [] (''binlog_files has no seal-fact columns (schema '' @ format_int (sfSchemaVersion s)
             @ ''); seal facts stay unset until the columns return'')))"

definition sealFactsAbsentSpec :: KindSpec where
  "sealFactsAbsentSpec =
     (stateSpec SealFactsAbsent Warning ScopeStore ''store''
        ''the seal fact columns are found again on the next probe'' [])\<lparr>ksDerive := Some sealFactsAbsentDerive\<rparr>"

definition healthStaleSpec :: KindSpec where
  "healthStaleSpec =
     (stateSpec HealthStale Warning ScopeTaskState ''F''
        ''the task is evaluated again within health.stale_after'' [])\<lparr>ksDerive := Some healthStaleDerive\<rparr>"

definition uploadUnverifiedSpec :: KindSpec where
  "uploadUnverifiedSpec =
     (kind_spec UploadUnverified Critical [ScopeSignals, ScopeChainLocal]
        ((clear_rule ''I7'' (''the segment'' @ [CHR 0x27] @ ''s checksum is match''))
           \<lparr>clHolds := Some (signalCleared UploadUnverified)\<rparr>) 2
        (Some (\<lambda>f. signalDerive UploadUnverified f @ chainDerive UploadUnverified f)))\<lparr>ksSegmentScoped := True\<rparr>"

section \<open>Managed kinds\<close>

definition p23Managed :: "Kind list" where
  "p23Managed = [SegmentUnreadable, SegmentOverlap, SegmentEmptyLeftover]"

definition p24Managed :: "Kind list" where
  "p24Managed = [TaskPersistFailed, MetadataWriteBlocked, EventPersistFailed, EventReadFailed,
     DumpCleanupPersistFailed, DiskListFailed, UploadUnverified, UploadRecordFailed, RetentionRecordFailed,
     RetryLoopFailed, DumpStalled, OpenTailCutFailed, MetricSourceFailed, TransitionStalled, SourceUnreachable,
     TaskFailed, TaskUnadopted, TaskRecordsFailed]"

definition p25Managed :: "Kind list" where
  "p25Managed = [SegmentDamaged, ChainIndexGap, LegacyFailback, SegmentMissing, UploadLate]"

definition p253Managed :: "Kind list" where
  "p253Managed = [GTIDHole, CheckpointAhead]"

definition p26dManaged :: "Kind list" where
  "p26dManaged = [TaskNoProgress, MetaUnreachable]"

definition p27Managed :: "Kind list" where
  "p27Managed = [HealthStoreUnavailable]"

definition p254Managed :: "Kind list" where
  "p254Managed = [OrphanRow, SealFactsAbsent]"

definition p261Managed :: "Kind list" where
  "p261Managed = [HealthStale]"

definition ManagedKinds :: "Kind list" where
  "ManagedKinds = p23Managed @ p24Managed @ p25Managed @ p253Managed @ p26dManaged @ p254Managed
     @ p27Managed @ p261Managed"

section \<open>The table\<close>

definition chain_specs :: "KindSpec list" where
  "chain_specs =
     [chainSpec SegmentUnreadable Critical ScopeChainLocal ''I1''
        ''the segment reads cleanly again, or is no longer on the chain'' [],
      chainSpec SegmentOverlap Critical ScopeChainLocal ''I4''
        ''replay order holds the source file once, with no GTID or position overlap'' [],
      chainSpec SegmentDamaged Critical ScopeChainLocal ''I1'' ''end_log_pos no longer goes backwards'' [],
      chainSpec ChainIndexGap Critical ScopeChainLocal ''I2''
        ''indexes are contiguous and every source switch is recorded'' [],
      chainSpec LegacyFailback Critical ScopeChainLocal ''I3'' ''the planner no longer reports a legacy failback'' [],
      chainSpec CheckpointAhead Critical ScopeChainLocal ''I5''
        (''the checkpoint is at or before the chain'' @ [CHR 0x27] @ ''s cut point'') [],
      chainSpec SegmentMissing Critical ScopeChainLocal ''I6''
        ''catalog row, local file and object agree (an object-origin instance needs its prefix listed completely)''
        [ScopeChainObjects],
      chainSpec OrphanRow Warning ScopeChainLocal ''I6''
        ''the row has its bytes again, or carries a retention marker'' [ScopeChainObjects],
      chainSpec UploadLate Warning ScopeChainLocal ''I7'' ''the segment is UPLOADED with checksum match'' [],
      uploadUnverifiedSpec,
      chainSpec SegmentEmptyLeftover Info ScopeChainLocal ''I4''
        ''the leftover open file is removed, or sealed with events'' []]"

definition signal_specs :: "KindSpec list" where
  "signal_specs =
     [signalSpec UploadRecordFailed Critical ''S8''
        ''a later upload record for the segment is written, or its row is already UPLOADED'',
      signalSpec MetadataWriteBlocked Critical ''S2'' ''a later checkpoint or task row write succeeds'',
      signalSpec TaskPersistFailed Critical ''S2/S3'' ''a later task row write succeeds'',
      signalSpec EventPersistFailed Warning ''S1'' ''a later event of the same type is written'',
      signalSpec EventReadFailed Warning ''S13'' ''the retry budget reads back, or a read probe succeeds'',
      signalSpec DumpCleanupPersistFailed Critical ''S3'' ''the KILL marker is written or cleared and reads back'',
      signalSpec DiskListFailed Critical ''S15'' ''the next directory listing succeeds'',
      signalSpec RetentionRecordFailed Warning ''S5/S6'' ''the next retention pass records and runs to the end'',
      signalSpec RetryLoopFailed Warning ''S7'' ''the next upload retry pass runs to the end'',
      signalSpec OpenTailCutFailed Critical ''S4'' ''the next cut succeeds, or the segment is sealed or gone'',
      signalSpec MetricSourceFailed Warning ''S10/S11'' ''the next scrape computes the source'',
      signalSpec TaskRecordsFailed Critical ''S16''
        ''the standalone task record file is read at startup with the right key, or the next save succeeds'',
      signalSpec MetaUnreachable Critical ''S17''
        ''a metadata store ping or read from this node answers again (the subject is the node id)'',
      signalSpec HealthStoreUnavailable Critical ''S18''
        ''a health-store read or write succeeds with migration 000009 present (the subject is the node id)'']"

definition state_specs :: "KindSpec list" where
  "state_specs =
     [kind_spec DumpStalled Warning [ScopeSignals, ScopeTaskState]
        \<lparr>clInvariant = ''S12'', clHolds = Some dumpStalledCleared,
         clText = ''a byte (event or heartbeat) is read from the source again; or the task is stopped or owned elsewhere; or SOURCE_UNREACHABLE opens in the same pass (HANDED_OFF)'',
         clHoldDown = 0, clReason = Some dumpStalledReason\<rparr> 3 (Some dumpStalledDerive),
      kind_spec TransitionStalled Warning [ScopeTaskState]
        (clear_rule ''lease'' ''the task leaves STARTING/STOPPING, or a run drives it'') 2
        (Some transitionStalledDerive),
      kind_spec TaskFailed Critical [ScopeTaskState]
        (clear_rule ''task'' ''the task leaves FAILED for its current ask (restarted, or stopped); a new failure class closes the old subject and opens the new one'')
        1 (Some taskFailedDerive),
      kind_spec TaskUnadopted Critical [ScopeTaskState]
        (clear_rule ''task'' ''the task is adopted (a task record drives it again), or the directory no longer holds segments under data_dir'')
        1 (Some taskUnadoptedDerive),
      kind_spec TaskNoProgress Critical [ScopeTaskState]
        ((clear_rule ''lease'' (''the run advances under this worker'' @ [CHR 0x27] @ ''s data_dir or is confirmed caught up with the source, or the task is stopped, FAILED (TASK_FAILED takes over) or owned elsewhere''))
          \<lparr>clHolds := Some noProgressCleared\<rparr>) 1 (Some noProgressDerive),
      kind_spec SourceUnreachable Critical [ScopeTaskState, ScopeSignals]
        ((clear_rule ''S12'' ''a byte is read from the source (dump or probe) after the latest failed attempt, or the task is stopped, FAILED (TASK_FAILED takes over) or owned elsewhere'')
          \<lparr>clHolds := Some sourceUnreachableCleared\<rparr>) 2 (Some sourceUnreachableDerive),
      sealFactsAbsentSpec,
      healthStaleSpec,
      stateSpec HealthStoreDegraded Warning ScopeStore ''F''
        ''health writes succeed with migration 000009 present and versions not mixed'' []]"

definition verify_specs :: "KindSpec list" where
  "verify_specs =
     [verifySpec VerifyFailed Critical ''the segment parses and matches the catalog row, or the row is removed'',
      verifySpec ObjectCorrupt Critical
        ''the object hashes to the local file or the catalog digest, or the row is removed'',
      verifySpec UploadClockSkew Warning
        ''sealed_at and uploaded_at are no longer past the clock-skew tolerance, or the row is removed'',
      verifySpec LocalUnreadable Warning ''the local file reads cleanly twice, or is gone, or the row is removed'',
      verifySpec DrillFailed Critical ''a later restore drill passes'',
      verifySpec DrillRefused Warning ''the drill DSN no longer names the task source, or the drill is off'']"

definition gtid_hole_spec :: KindSpec where
  "gtid_hole_spec =
     (chainSpec GTIDHole Critical ScopeChainLocal ''I3''
        (''B '' @ [CHR 0xE2, CHR 0x88, CHR 0xAA] @ '' Stored is contiguous at this point, or the exact hole range is waived'')
        [])\<lparr>ksWaivable := True\<rparr>"

definition managed_spec :: "KindSpec \<Rightarrow> KindSpec" where
  "managed_spec s =
     s\<lparr>ksManaged := (ksKind s \<in> set p23Managed \<or> ksKind s \<in> set p24Managed \<or> ksKind s \<in> set p25Managed
          \<or> ksKind s \<in> set p253Managed \<or> ksKind s \<in> set p26dManaged \<or> ksKind s \<in> set p254Managed
          \<or> ksKind s \<in> set p27Managed \<or> ksKind s \<in> set p261Managed),
       ksConfirm := (ksKind s \<in> set p25Managed \<or> ksKind s = OrphanRow)\<rparr>"

definition DefaultRegistry :: Registry where
  "DefaultRegistry =
     foldl (\<lambda>r s. AList.update (ksKind s) (managed_spec s) r) []
       (chain_specs @ signal_specs @ state_specs @ verify_specs @ [gtid_hole_spec])"

end
