(* ===== verification/Hlt_Reconcile.thy ===== *)
theory Hlt_Reconcile
  imports Hlt_Registry
begin

text \<open>
  The lifecycle of findings (\<open>internal/health/reconcile.go\<close>): what should be open, the
  transitions from the stored open set to it, and the health verdict; and \<open>afterTransitions\<close> of
  \<open>internal/tasks/evaluator.go\<close>, the open set once the transitions are applied. A loop over a Go
  map visits the association list in its order; the results the sources sort do not depend on it.
\<close>

section \<open>Completeness and waivers\<close>

definition complete :: "Facts \<Rightarrow> Scope \<Rightarrow> bool" where
  "complete f s = go_get False (fComplete f) s"

definition allComplete :: "Facts \<Rightarrow> Scope list \<Rightarrow> bool" where
  "allComplete f scopes \<longleftrightarrow> list_all (complete f) scopes \<and> length scopes > 0"

definition instanceComplete :: "Facts \<Rightarrow> KindSpec \<Rightarrow> Key \<Rightarrow> bool" where
  "instanceComplete f spec key =
     (case IsObjectSubject (keySubject key) of
        Some seg \<Rightarrow> complete f ScopeChainObjects \<and> go_get False (fObjectSegments f) seg
      | None \<Rightarrow>
          if ksKind spec \<noteq> SegmentMissing then allComplete f (ksScopes spec)
          else allComplete f (filter (\<lambda>s. s \<noteq> ScopeChainObjects) (ksScopes spec)))"

definition configScoped :: "Key \<Rightarrow> bool" where
  "configScoped key \<longleftrightarrow>
     IsObjectSubject (keySubject key) \<noteq> None \<or> keyKind key = UploadLate \<or> keyKind key = OrphanRow"

definition waived :: "Facts \<Rightarrow> Instance \<Rightarrow> KindSpec \<Rightarrow> bool" where
  "waived f i spec \<longleftrightarrow>
     ksWaivable spec \<and> inEvidence i \<noteq> [] \<and>
     (case CanonicalGTIDRanges (inEvidence i) of
        None \<Rightarrow> False
      | Some ev \<Rightarrow> list_ex (\<lambda>w. wvKey w = inKey i \<and> CanonicalGTIDRanges (wvEvidence w) = Some ev) (fWaivers f))"

section \<open>Deriving\<close>

definition kinds :: "Registry \<Rightarrow> Kind list" where
  "kinds r = sort (map fst r)"

definition stamp_instance :: "Facts \<Rightarrow> KindSpec \<Rightarrow> Kind \<Rightarrow> Instance \<Rightarrow> Instance" where
  "stamp_instance f spec k i =
     i\<lparr>inKey := \<lparr>keyTaskID = fTaskID f, keyKind = k, keySubject = keySubject (inKey i)\<rparr>,
       inSeverity := (if inSeverity i = [] then ksSeverity spec else inSeverity i)\<rparr>"

definition note_instance ::
  "Facts \<Rightarrow> KindSpec \<Rightarrow> Kind \<Rightarrow> Desired \<times> (Key \<times> bool) list \<Rightarrow> Instance \<Rightarrow> Desired \<times> (Key \<times> bool) list" where
  "note_instance f spec k acc i0 =
     (let (out, wk) = acc; i = stamp_instance f spec k i0
      in if waived f i spec then (out, AList.update (inKey i) True wk)
         else (case map_of out (inKey i) of
                 Some prev \<Rightarrow> if rank (inSeverity prev) \<ge> rank (inSeverity i) then (out, wk)
                              else (AList.update (inKey i) i out, wk)
               | None \<Rightarrow> (AList.update (inKey i) i out, wk)))"

definition derives :: "Facts \<Rightarrow> KindSpec \<Rightarrow> Instance list" where
  "derives f spec =
     (case ksDerive spec of
        None \<Rightarrow> []
      | Some d \<Rightarrow> if \<not> ksManaged spec \<or> length (ksScopes spec) = 0 \<or> \<not> complete f (hd (ksScopes spec)) then []
                  else d f)"

definition derive_kind ::
  "Registry \<Rightarrow> Facts \<Rightarrow> Desired \<times> (Key \<times> bool) list \<Rightarrow> Kind \<Rightarrow> Desired \<times> (Key \<times> bool) list" where
  "derive_kind r f acc k =
     (case map_of r k of
        None \<Rightarrow> acc
      | Some spec \<Rightarrow> foldl (note_instance f spec k) acc (derives f spec))"

definition deriveRaw :: "Registry \<Rightarrow> Facts \<Rightarrow> Desired \<times> (Key \<times> bool) list" where
  "deriveRaw r f = foldl (derive_kind r f) ([], []) (kinds r)"

definition needs_confirm :: "Registry \<Rightarrow> Key \<times> Instance \<Rightarrow> bool" where
  "needs_confirm r x \<longleftrightarrow>
     (case map_of r (keyKind (fst x)) of None \<Rightarrow> False | Some spec \<Rightarrow> ksConfirm spec) \<or> inConfirm (snd x)"

definition known :: "Facts \<Rightarrow> Key \<Rightarrow> bool" where
  "known f key \<longleftrightarrow> go_get False (fOpen f) key \<or> go_get False (fConfirmed f) key"

definition derive :: "Registry \<Rightarrow> Facts \<Rightarrow> Key list \<Rightarrow> Desired \<times> (Key \<times> bool) list" where
  "derive r f open =
     (let (raw, wk) = deriveRaw r f
      in (filter (\<lambda>x. \<not> (needs_confirm r x \<and> fst x \<notin> set open \<and> \<not> known f (fst x))) raw, wk))"

definition Candidates :: "Registry \<Rightarrow> Facts \<Rightarrow> (Key \<times> bool) list" where
  "Candidates r f = map (\<lambda>x. (fst x, True)) (filter (needs_confirm r) (fst (deriveRaw r f)))"

definition Pending :: "Registry \<Rightarrow> Facts \<Rightarrow> Key list" where
  "Pending r f =
     sort_key (\<lambda>k. (keyKind k, keySubject k)) (filter (\<lambda>k. \<not> known f k) (map fst (Candidates r f)))"

definition Desire :: "Registry \<Rightarrow> Facts \<Rightarrow> Desired" where
  "Desire r f = fst (derive r f [])"

section \<open>Reconciling\<close>

definition factAt :: "Instance \<Rightarrow> Facts \<Rightarrow> instant" where
  "factAt i f = (if inFactAt i = 0 then fNow f else inFactAt i)"

definition closeOf :: "Finding \<Rightarrow> KindSpec \<Rightarrow> string \<Rightarrow> Facts \<Rightarrow> Transition" where
  "closeOf o' spec reason f =
     (let st = map_of (fSignals f) \<lparr>skKind = fdKind o', skSubject = fdSubject o'\<rparr>;
          fact = (case st of
                    Some s \<Rightarrow> if succeeded st \<and> ssSuccessFactAt s \<noteq> 0 \<and> \<not> ssSuccessFactAt s > fNow f
                              then ssSuccessFactAt s else fNow f
                  | None \<Rightarrow> fNow f)
      in \<lparr>trKey = finding_Key o', trOp = OpClose, trReason = reason, trAt = fNow f, trFactAt = fact,
          trGeneration = 0, trKindVersion = ksVersion spec,
          trInstance = \<lparr>inKey = finding_Key o', inSeverity = fdSeverity o', inDetail = fdDetail o',
            inEvidence = fdEvidence o', inSegments = fdSegments o', inFactAt = 0, inConfirm = False\<rparr>\<rparr>)"

definition change_op :: "Instance \<Rightarrow> Finding \<Rightarrow> Op" where
  "change_op want o' =
     (if rank (inSeverity want) > rank (fdSeverity o') then OpEscalate
      else if rank (inSeverity want) < rank (fdSeverity o') then OpDowngrade
      else if inSeverity want \<noteq> fdSeverity o' \<or> inDetail want \<noteq> fdDetail o' \<or> inEvidence want \<noteq> fdEvidence o'
              \<or> join_with CHR 0x00 (inSegments want) \<noteq> join_with CHR 0x00 (fdSegments o') then OpUpdate
      else OpNone)"

definition want_transition :: "Facts \<Rightarrow> int \<Rightarrow> Op \<Rightarrow> Key \<Rightarrow> Instance \<Rightarrow> Transition" where
  "want_transition f version op key want =
     \<lparr>trKey = key, trOp = op, trReason = ReasonEval, trAt = fNow f, trFactAt = factAt want f, trGeneration = 0,
      trKindVersion = version, trInstance = want\<rparr>"

definition change_of :: "Facts \<Rightarrow> KindSpec \<Rightarrow> Finding \<Rightarrow> Instance \<Rightarrow> Transition list" where
  "change_of f spec o' want =
     (let key = finding_Key o'; op = change_op want o';
          op = (if (op = OpUpdate \<or> op = OpDowngrade) \<and> \<not> instanceComplete f spec key then OpNone else op)
      in emit (op \<noteq> OpNone) (want_transition f (ksVersion spec) op key want))"

text \<open>The detail of a close with reason \<open>CONFIG\<close>; its dash is the bytes of U+2014.\<close>

definition config_detail :: "Facts \<Rightarrow> string \<Rightarrow> string" where
  "config_detail f detail =
     trim_space (detail @ '' '' @ [CHR 0xE2, CHR 0x80, CHR 0x94] @ '' object storage no longer configured (''
       @ fObjectConfigAudit f @ ''; at '' @ rfc3339 (fNow f) @ '')'')"

definition config_close :: "Facts \<Rightarrow> KindSpec \<Rightarrow> Finding \<Rightarrow> Transition" where
  "config_close f spec o' =
     (let tr = closeOf o' spec ReasonConfig f
      in tr\<lparr>trInstance := (trInstance tr)\<lparr>inDetail := config_detail f (inDetail (trInstance tr))\<rparr>\<rparr>)"

definition held_down :: "Facts \<Rightarrow> KindSpec \<Rightarrow> Key \<Rightarrow> bool" where
  "held_down f spec key \<longleftrightarrow>
     clHoldDown (ksClear spec) > 0 \<and>
     (case map_of (fAbsentSince f) key of
        None \<Rightarrow> True | Some since \<Rightarrow> time_sub (fNow f) since < clHoldDown (ksClear spec))"

definition still_holds :: "Facts \<Rightarrow> KindSpec \<Rightarrow> Key \<Rightarrow> bool" where
  "still_holds f spec key = (case clHolds (ksClear spec) of None \<Rightarrow> False | Some h \<Rightarrow> \<not> h f key)"

definition close_reason :: "Facts \<Rightarrow> KindSpec \<Rightarrow> Key \<Rightarrow> string" where
  "close_reason f spec key =
     (case clReason (ksClear spec) of
        None \<Rightarrow> ReasonEval
      | Some g \<Rightarrow> if g f key \<noteq> [] then g f key else ReasonEval)"

definition close_of_absent :: "Facts \<Rightarrow> (Key \<times> bool) list \<Rightarrow> KindSpec \<Rightarrow> Finding \<Rightarrow> Transition list" where
  "close_of_absent f wk spec o' =
     (let key = finding_Key o'
      in if fNoObjectStorage f \<and> configScoped key then [config_close f spec o']
         else if \<not> instanceComplete f spec key then []
         else if go_get False wk key then [closeOf o' spec ReasonWaived f]
         else if still_holds f spec key then []
         else if held_down f spec key then []
         else [closeOf o' spec (close_reason f spec key) f])"

definition reconcile_one :: "Facts \<Rightarrow> Desired \<Rightarrow> (Key \<times> bool) list \<Rightarrow> KindSpec \<Rightarrow> Finding \<Rightarrow> Transition list" where
  "reconcile_one f desired wk spec o' =
     (case map_of desired (finding_Key o') of
        Some want \<Rightarrow> change_of f spec o' want
      | None \<Rightarrow> close_of_absent f wk spec o')"

definition owned_spec :: "Registry \<Rightarrow> Facts \<Rightarrow> Finding \<Rightarrow> KindSpec option" where
  "owned_spec r f o' =
     (case map_of r (fdKind o') of
        None \<Rightarrow> None
      | Some spec \<Rightarrow> if \<not> ksManaged spec \<or> fdTaskID o' \<noteq> fTaskID f then None else Some spec)"

fun reconcile_loop ::
  "Registry \<Rightarrow> Facts \<Rightarrow> Desired \<Rightarrow> (Key \<times> bool) list \<Rightarrow> Key list \<Rightarrow> Finding list \<Rightarrow> Transition list \<times> Key list" where
  "reconcile_loop r f desired wk seen [] = ([], seen)"
| "reconcile_loop r f desired wk seen (o' # os) =
     (case owned_spec r f o' of
        None \<Rightarrow> reconcile_loop r f desired wk seen os
      | Some spec \<Rightarrow>
          if finding_Key o' \<in> set seen then reconcile_loop r f desired wk seen os
          else (let (out, seen') = reconcile_loop r f desired wk (finding_Key o' # seen) os
                in (reconcile_one f desired wk spec o' @ out, seen')))"

definition opRank :: "Op \<Rightarrow> int" where
  "opRank op = (case op of OpClose \<Rightarrow> 0 | OpOpen \<Rightarrow> 2 | _ \<Rightarrow> 1)"

definition lessKey :: "Key \<Rightarrow> Key \<Rightarrow> bool" where
  "lessKey a b =
     (if keyTaskID a \<noteq> keyTaskID b then keyTaskID a < keyTaskID b
      else if keyKind a \<noteq> keyKind b then keyKind a < keyKind b
      else keySubject a < keySubject b)"

definition transition_order :: "Transition \<Rightarrow> (string \<times> string \<times> string) \<times> int" where
  "transition_order t = (key_texts (trKey t), opRank (trOp t))"

definition open_keys :: "Facts \<Rightarrow> Finding list \<Rightarrow> Key list" where
  "open_keys f open = map finding_Key (filter (\<lambda>o'. fdTaskID o' = fTaskID f) open)"

definition open_of :: "Registry \<Rightarrow> Facts \<Rightarrow> Key \<times> Instance \<Rightarrow> Transition" where
  "open_of r f x =
     want_transition f (case map_of r (keyKind (fst x)) of None \<Rightarrow> 0 | Some spec \<Rightarrow> ksVersion spec) OpOpen
       (fst x) (snd x)"

definition Reconcile :: "Registry \<Rightarrow> Finding list \<Rightarrow> Facts \<Rightarrow> Transition list \<times> Desired" where
  "Reconcile r open f =
     (let (desired, wk) = derive r f (open_keys f open);
          (out, seen) = reconcile_loop r f desired wk [] open;
          opens = map (open_of r f) (filter (\<lambda>x. fst x \<notin> set seen) desired)
      in (sort_key transition_order (out @ opens), desired))"

section \<open>Health\<close>

definition chainDirectoryOnly :: "KindSpec \<Rightarrow> bool" where
  "chainDirectoryOnly spec \<longleftrightarrow>
     length (ksScopes spec) \<noteq> 0 \<and> list_all (\<lambda>s. s = ScopeChainLocal \<or> s = ScopeChainObjects) (ksScopes spec)"

definition node_gone_skips :: "Registry \<Rightarrow> Facts \<Rightarrow> Finding \<Rightarrow> bool" where
  "node_gone_skips r f o' \<longleftrightarrow>
     fNodeGone f \<and> (case map_of r (fdKind o') of None \<Rightarrow> False | Some spec \<Rightarrow> chainDirectoryOnly spec)"

definition note_reason :: "Registry \<Rightarrow> Facts \<Rightarrow> int \<times> Key list \<Rightarrow> Finding \<Rightarrow> int \<times> Key list" where
  "note_reason r f acc o' =
     (let (worst, reasons) = acc; rk = rank (fdSeverity o')
      in if node_gone_skips r f o' \<or> \<not> rk \<ge> rank Warning then acc
         else if rk > worst then (rk, [finding_Key o'])
         else if rk = worst then (worst, reasons @ [finding_Key o']) else acc)"

definition unknown_scopes :: "Registry \<Rightarrow> Facts \<Rightarrow> Scope list" where
  "unknown_scopes r f =
     (let produced = (case fProduced f of None \<Rightarrow> Produced | Some p \<Rightarrow> p)
      in concat (map (\<lambda>(k, spec). if \<not> ksManaged spec then []
            else filter (\<lambda>s. s \<noteq> ScopeSignals \<and> go_get False produced s \<and> \<not> complete f s) (ksScopes spec)) r)
         @ emit (fNodeGone f) ScopeChainLocal)"

definition HealthOf :: "Registry \<Rightarrow> Finding list \<Rightarrow> Facts \<Rightarrow> TaskHealth" where
  "HealthOf r open f =
     (let (worst, reasons) = foldl (note_reason r f) (0, []) open;
          unknown = sort (remdups (unknown_scopes r f));
          status = (if worst = rank Critical then StatusUnhealthy
                    else if worst = rank Warning then StatusDegraded
                    else if length unknown > 0 then StatusUnknown else StatusHealthy)
      in \<lparr>thTaskID = fTaskID f, thStatus = status, thReasons = sort_key key_texts reasons, thUnknown = unknown,
          thEvaluatedAt = fNow f,
          thUnknownDetail = (if fNodeGone f \<and> status = StatusUnknown then ''node gone'' else [])\<rparr>)"

section \<open>Applying\<close>

definition after_open :: "(Key \<times> Finding) list \<times> Key list \<Rightarrow> Finding \<Rightarrow> (Key \<times> Finding) list \<times> Key list" where
  "after_open acc f =
     (let (by, keys) = acc
      in (AList.update (finding_Key f) f by,
          if map_of by (finding_Key f) = None then keys @ [finding_Key f] else keys))"

definition zero_finding :: Finding where
  "zero_finding = \<lparr>fdTaskID = [], fdKind = [], fdSubject = [], fdSeverity = [], fdDetail = [], fdEvidence = [],
     fdSegments = [], fdFirstSeen = 0, fdLastSeen = 0, fdGeneration = 0\<rparr>"

definition apply_instance :: "Transition \<Rightarrow> Finding \<Rightarrow> Finding" where
  "apply_instance t f =
     f\<lparr>fdTaskID := keyTaskID (trKey t), fdKind := keyKind (trKey t), fdSubject := keySubject (trKey t),
       fdSeverity := inSeverity (trInstance t), fdDetail := inDetail (trInstance t),
       fdEvidence := inEvidence (trInstance t), fdSegments := inSegments (trInstance t)\<rparr>"

definition after_one :: "(Key \<times> Finding) list \<times> Key list \<Rightarrow> Transition \<Rightarrow> (Key \<times> Finding) list \<times> Key list" where
  "after_one acc t =
     (let (by, keys) = acc; k = trKey t
      in if trOp t = OpClose then (AList.delete k by, keys)
         else (case map_of by k of
                 Some f \<Rightarrow> (AList.update k (apply_instance t f) by, keys)
               | None \<Rightarrow> (AList.update k (apply_instance t zero_finding) by, keys @ [k])))"

fun collect_open :: "(Key \<times> Finding) list \<Rightarrow> Key list \<Rightarrow> Finding list" where
  "collect_open by [] = []"
| "collect_open by (k # ks) =
     (case map_of by k of Some f \<Rightarrow> f # collect_open (AList.delete k by) ks | None \<Rightarrow> collect_open by ks)"

definition afterTransitions :: "Finding list \<Rightarrow> Transition list \<Rightarrow> Finding list" where
  "afterTransitions open ts =
     (let (by, keys) = foldl after_one (foldl after_open ([], []) open) ts in collect_open by keys)"

end
