(* ===== verification/Hlt_Store.thy ===== *)
theory Hlt_Store
  imports Hlt_Reconcile
begin

text \<open>
  Health persistence: the fence and the content digest of a transition
  (\<open>internal/health/fence.go\<close>), the one fence rule (\<open>internal/healthstore/store.go\<close>) and the
  standalone file store (\<open>internal/healthstore/file.go\<close>). The store's state is the value of
  \<open>.health.json\<close>; an operation takes what \<open>load\<close> returned (\<open>Inl\<close> an error of the file system or
  of the JSON decoder), the answer of \<open>save\<close> (\<open>None\<close> when the file was replaced) and the clock,
  and returns an error or its result with the new file value. SHA-256 is a parameter.
\<close>

section \<open>Fence and digest\<close>

type_synonym FenceMode = string

definition FenceCluster :: FenceMode where [health_texts]: "FenceCluster = ''cluster''"
definition FenceStandalone :: FenceMode where [health_texts]: "FenceStandalone = ''standalone''"
definition FenceNeverLeased :: FenceMode where [health_texts]: "FenceNeverLeased = ''never''"

record Fence =
  feMode :: FenceMode
  feTaskEpoch :: int64
  feNode :: string
  feInstance :: string
  feProxy :: bool
  feDelegated :: bool
  feChainVerified :: bool

definition RecordChainOwner :: "Fence \<Rightarrow> bool" where
  "RecordChainOwner f \<longleftrightarrow> feMode f = FenceCluster \<and> \<not> feProxy f \<and> \<not> feDelegated f \<and> feChainVerified f"

definition digest_parts :: "string \<Rightarrow> Transition \<Rightarrow> string list" where
  "digest_parts taskID t =
     (let fact = (if trFactAt t = 0 then trAt t else trFactAt t)
      in [taskID, keyKind (trKey t), keySubject (trKey t), op_string (trOp t), trReason t,
          inSeverity (trInstance t), inEvidence (trInstance t), inDetail (trInstance t), rfc3339_nano fact])"

definition TransitionDigest :: "(string \<Rightarrow> string) \<Rightarrow> string \<Rightarrow> Transition \<Rightarrow> string" where
  "TransitionDigest sha taskID t =
     sha (concat (map (\<lambda>p. filter (\<lambda>c. c \<noteq> CHR 0x00) p @ [CHR 0x00]) (digest_parts taskID t)))"

section \<open>The fence rule\<close>

datatype store_error =
    ErrFenced | ErrLeaseLagging | ErrSchemaAbsent | ErrModeUnsupported | ErrLockWait
  | ErrEvidenceRequired | IOError string

record HealthLease =
  hlOwner :: string
  hlEpoch :: int64
  hlExpired :: bool

record StoredFence =
  sdMode :: FenceMode
  sdEpoch :: int64
  sdNode :: string
  sdInstance :: string
  sdChainOwner :: string

definition fence_standalone :: "Fence \<Rightarrow> StoredFence option \<Rightarrow> store_error option" where
  "fence_standalone f stored =
     (case stored of
        None \<Rightarrow> None
      | Some s \<Rightarrow>
          if sdMode s \<noteq> [] \<and> sdMode s \<noteq> FenceStandalone then Some ErrFenced
          else if sdNode s \<noteq> [] \<and> sdNode s \<noteq> feNode f then Some ErrFenced else None)"

definition fence_never :: "HealthLease option \<Rightarrow> StoredFence option \<Rightarrow> store_error option" where
  "fence_never lease stored =
     (if lease \<noteq> None then Some ErrFenced
      else (case stored of None \<Rightarrow> None | Some s \<Rightarrow> if sdMode s = FenceCluster then Some ErrFenced else None))"

definition fence_lease :: "Fence \<Rightarrow> HealthLease \<Rightarrow> store_error option" where
  "fence_lease f lease =
     (if feProxy f \<or> feDelegated f then
        (if hlEpoch lease \<noteq> feTaskEpoch f \<or> (\<not> hlExpired lease \<and> hlOwner lease \<noteq> []) then Some ErrFenced else None)
      else if hlOwner lease \<noteq> feNode f \<or> hlEpoch lease \<noteq> feTaskEpoch f then Some ErrFenced
      else if hlExpired lease then Some ErrLeaseLagging else None)"

definition fence_stored :: "Fence \<Rightarrow> HealthLease \<Rightarrow> StoredFence option \<Rightarrow> store_error option" where
  "fence_stored f lease stored =
     (case stored of
        None \<Rightarrow> None
      | Some s \<Rightarrow>
          if sdMode s = FenceCluster \<and>
             (sdEpoch s > feTaskEpoch f \<or>
              (sdEpoch s = feTaskEpoch f \<and> sdNode s \<noteq> [] \<and> sdNode s \<noteq> feNode f
               \<and> \<not> ((feProxy f \<or> feDelegated f) \<and> hlOwner lease = [])))
          then Some ErrFenced else None)"

definition fence_delegated :: "Fence \<Rightarrow> StoredFence option \<Rightarrow> store_error option" where
  "fence_delegated f stored =
     (if feDelegated f \<and>
         (case stored of None \<Rightarrow> True | Some s \<Rightarrow> sdChainOwner s = [] \<or> sdChainOwner s \<noteq> feNode f)
      then Some ErrFenced else None)"

definition CheckFence :: "Fence \<Rightarrow> HealthLease option \<Rightarrow> StoredFence option \<Rightarrow> store_error option" where
  "CheckFence f lease stored =
     (if feMode f = FenceStandalone then fence_standalone f stored
      else if feMode f = FenceNeverLeased then fence_never lease stored
      else if feMode f \<noteq> FenceCluster then Some ErrModeUnsupported
      else (case lease of
              None \<Rightarrow> Some ErrFenced
            | Some l \<Rightarrow>
                (case fence_lease f l of
                   Some e \<Rightarrow> Some e
                 | None \<Rightarrow>
                     (case fence_stored f l stored of
                        Some e \<Rightarrow> Some e
                      | None \<Rightarrow> fence_delegated f stored))))"

section \<open>The file\<close>

record StoredTransition =
  stTaskID :: string
  stKind :: string
  stSubject :: string
  stOp :: string
  stReason :: string
  stSeverity :: string
  stDigest :: string
  stDetail :: string
  stGeneration :: int64
  stKindVersion :: int
  stFactAt :: instant

record fileFinding =
  ffFinding :: Finding
  ffCount :: int64
  ffResolvedAt :: "instant option"
  ffWaiverEvidence :: string
  ffWaiverReason :: string
  ffWaiverActor :: string
  ffWaivedAt :: "instant option"
  ffWaiverKindVer :: int

record fileHealth =
  fhHealth :: TaskHealth
  fhGeneration :: int64
  fhStored :: StoredFence

record fileState =
  fsFindings :: "fileFinding list"
  fsHealth :: "fileHealth go_map"
  fsTransitions :: "StoredTransition list"
  fsPending :: "Transition list go_map"

type_synonym loaded = "store_error + fileState"

definition maxFileTransitions :: nat where
  "maxFileTransitions = 20000"

definition new_file_finding :: "Finding \<Rightarrow> fileFinding" where
  "new_file_finding f = \<lparr>ffFinding = f, ffCount = 0, ffResolvedAt = None, ffWaiverEvidence = [], ffWaiverReason = [],
     ffWaiverActor = [], ffWaivedAt = None, ffWaiverKindVer = 0\<rparr>"

definition zero_health :: TaskHealth where
  "zero_health = \<lparr>thTaskID = [], thStatus = StatusNone, thReasons = [], thUnknown = [], thEvaluatedAt = 0,
     thUnknownDetail = []\<rparr>"

definition stored_of :: "Fence \<Rightarrow> StoredFence" where
  "stored_of fence = \<lparr>sdMode = feMode fence, sdEpoch = 0, sdNode = feNode fence, sdInstance = feInstance fence,
     sdChainOwner = []\<rparr>"

definition generation_of :: "fileState \<Rightarrow> string \<Rightarrow> int64" where
  "generation_of st taskID = (case map_of (fsHealth st) taskID of None \<Rightarrow> 0 | Some r \<Rightarrow> fhGeneration r)"

definition stored_fence :: "fileState \<Rightarrow> string \<Rightarrow> StoredFence option" where
  "stored_fence st taskID = map_option fhStored (map_of (fsHealth st) taskID)"

definition finding_index :: "fileFinding list \<Rightarrow> Key \<Rightarrow> nat option" where
  "finding_index fs = map_of (rev (map (\<lambda>(i, ff). (finding_Key (ffFinding ff), i)) (enumerate 0 fs)))"

section \<open>Applying transitions\<close>

text \<open>The variables of the loop: digests, generation, findings, log, and the generations returned.\<close>

record apply_state =
  asDigests :: "string list"
  asGen :: int64
  asFindings :: "fileFinding list"
  asLog :: "StoredTransition list"
  asOut :: "int64 list"

definition log_row :: "string \<Rightarrow> instant \<Rightarrow> string \<Rightarrow> int64 \<Rightarrow> Transition \<Rightarrow> StoredTransition" where
  "log_row taskID now d gen t =
     \<lparr>stTaskID = taskID, stKind = keyKind (trKey t), stSubject = keySubject (trKey t), stOp = op_string (trOp t),
      stReason = trReason t, stSeverity = inSeverity (trInstance t), stDigest = d, stDetail = inDetail (trInstance t),
      stGeneration = gen, stKindVersion = trKindVersion t, stFactAt = (if trFactAt t = 0 then now else trFactAt t)\<rparr>"

definition close_row :: "instant \<Rightarrow> int64 \<Rightarrow> fileFinding \<Rightarrow> fileFinding" where
  "close_row now gen ff =
     (if ffResolvedAt ff = None
      then ff\<lparr>ffResolvedAt := Some now, ffFinding := (ffFinding ff)\<lparr>fdGeneration := gen\<rparr>\<rparr> else ff)"

definition write_row :: "instant \<Rightarrow> int64 \<Rightarrow> Transition \<Rightarrow> fileFinding \<Rightarrow> fileFinding" where
  "write_row now gen t ff =
     ff\<lparr>ffFinding := (ffFinding ff)\<lparr>fdSeverity := inSeverity (trInstance t), fdDetail := inDetail (trInstance t),
          fdEvidence := inEvidence (trInstance t), fdSegments := inSegments (trInstance t), fdLastSeen := now,
          fdGeneration := gen\<rparr>,
        ffResolvedAt := None, ffCount := ffCount ff + 1\<rparr>"

definition write_findings ::
  "string \<Rightarrow> instant \<Rightarrow> int64 \<Rightarrow> Transition \<Rightarrow> fileFinding list \<Rightarrow> fileFinding list" where
  "write_findings taskID now gen t fs =
     (let key = \<lparr>keyTaskID = taskID, keyKind = keyKind (trKey t), keySubject = keySubject (trKey t)\<rparr>
      in case finding_index fs key of
           Some j \<Rightarrow> fs[j := (if trOp t = OpClose then close_row now gen (fs ! j) else write_row now gen t (fs ! j))]
         | None \<Rightarrow>
             if trOp t = OpClose then fs
             else fs @ [write_row now gen t (new_file_finding (zero_finding\<lparr>fdTaskID := taskID,
                    fdKind := keyKind (trKey t), fdSubject := keySubject (trKey t), fdFirstSeen := now\<rparr>))])"

definition apply_step ::
  "(string \<Rightarrow> string) \<Rightarrow> string \<Rightarrow> instant \<Rightarrow> apply_state \<Rightarrow> Transition \<Rightarrow> apply_state" where
  "apply_step sha taskID now s t =
     (let d = TransitionDigest sha taskID t; gen = asGen s + 1
      in if d \<in> set (asDigests s) then s\<lparr>asOut := asOut s @ [0]\<rparr>
         else \<lparr>asDigests = d # asDigests s, asGen = gen, asFindings = write_findings taskID now gen t (asFindings s),
               asLog = asLog s @ [log_row taskID now d gen t], asOut = asOut s @ [gen]\<rparr>)"

definition start_state :: "fileState \<Rightarrow> string \<Rightarrow> apply_state" where
  "start_state st taskID =
     \<lparr>asDigests = map stDigest (filter (\<lambda>x. stTaskID x = taskID) (fsTransitions st)), asGen = generation_of st taskID,
      asFindings = fsFindings st, asLog = fsTransitions st, asOut = []\<rparr>"

definition trim_log :: "StoredTransition list \<Rightarrow> StoredTransition list" where
  "trim_log rows = (if length rows > maxFileTransitions then drop (length rows - maxFileTransitions) rows else rows)"

definition applied_file :: "(string \<Rightarrow> string) \<Rightarrow> instant \<Rightarrow> fileState \<Rightarrow> string \<Rightarrow> Fence \<Rightarrow> Transition list \<Rightarrow> TaskHealth \<Rightarrow> fileState" where
  "applied_file sha now st taskID fence ts h =
     (let s = foldl (apply_step sha taskID now) (start_state st taskID) ts
      in st\<lparr>fsFindings := asFindings s, fsTransitions := trim_log (asLog s),
            fsHealth := AList.update taskID \<lparr>fhHealth = h\<lparr>thTaskID := taskID\<rparr>, fhGeneration = asGen s,
              fhStored = stored_of fence\<rparr> (fsHealth st)\<rparr>)"

definition ApplyTransitions ::
  "(string \<Rightarrow> string) \<Rightarrow> instant \<Rightarrow> loaded \<Rightarrow> (fileState \<Rightarrow> store_error option) \<Rightarrow> string \<Rightarrow> Fence \<Rightarrow> Transition list
     \<Rightarrow> TaskHealth \<Rightarrow> store_error + (int64 list \<times> fileState)" where
  "ApplyTransitions sha now load_res save taskID fence ts h =
     (if feMode fence \<noteq> FenceStandalone then Inl ErrModeUnsupported
      else (case load_res of
              Inl e \<Rightarrow> Inl e
            | Inr st \<Rightarrow>
                (case CheckFence fence None (stored_fence st taskID) of
                   Some e \<Rightarrow> Inl e
                 | None \<Rightarrow>
                     (let s = foldl (apply_step sha taskID now) (start_state st taskID) ts;
                          st' = applied_file sha now st taskID fence ts h
                      in case save st' of Some e \<Rightarrow> Inl e | None \<Rightarrow> Inr (asOut s, st')))))"

section \<open>Listings, pending transitions, waivers\<close>

definition ListOpenFindingsForTask :: "fileState \<Rightarrow> string \<Rightarrow> Finding list" where
  "ListOpenFindingsForTask st taskID =
     sort_key (\<lambda>f. (fdKind f, fdSubject f))
       (map ffFinding (filter (\<lambda>f. fdTaskID (ffFinding f) = taskID \<and> ffResolvedAt f = None) (fsFindings st)))"

definition ListHealth :: "fileState \<Rightarrow> TaskHealth list" where
  "ListHealth st = sort_key thTaskID (map (fhHealth \<circ> snd) (fsHealth st))"

definition ListTransitions :: "fileState \<Rightarrow> string \<Rightarrow> StoredTransition list" where
  "ListTransitions st taskID =
     sort_key stGeneration (filter (\<lambda>t. stTaskID t = taskID) (fsTransitions st))"

definition SavePending :: "fileState \<Rightarrow> string \<Rightarrow> Transition list \<Rightarrow> fileState" where
  "SavePending st taskID ts =
     st\<lparr>fsPending := (if length ts = 0 then AList.delete taskID (fsPending st) else AList.update taskID ts (fsPending st))\<rparr>"

definition LoadPending :: "fileState \<Rightarrow> Transition list go_map" where
  "LoadPending st = fsPending st"

definition waiver_of :: "fileFinding \<Rightarrow> Waiver" where
  "waiver_of f = \<lparr>wvKey = finding_Key (ffFinding f), wvEvidence = ffWaiverEvidence f, wvReason = ffWaiverReason f,
     wvActor = ffWaiverActor f, wvAt = (case ffWaivedAt f of None \<Rightarrow> 0 | Some at \<Rightarrow> at)\<rparr>"

definition ListWaivers :: "fileState \<Rightarrow> string \<Rightarrow> Waiver list" where
  "ListWaivers st taskID =
     sort_key (\<lambda>w. (keyKind (wvKey w), keySubject (wvKey w)))
       (map waiver_of (filter (\<lambda>f. \<not> (fdTaskID (ffFinding f) \<noteq> taskID \<or> ffWaiverEvidence f = [])) (fsFindings st)))"

fun first_row :: "Key \<Rightarrow> nat \<Rightarrow> fileFinding list \<Rightarrow> nat option" where
  "first_row key i [] = None"
| "first_row key i (f # fs) = (if finding_Key (ffFinding f) = key then Some i else first_row key (i + 1) fs)"

text \<open>The health record, generation and log row a waiver operation writes.\<close>

definition waiver_file ::
  "fileState \<Rightarrow> string \<Rightarrow> Fence \<Rightarrow> fileFinding list \<Rightarrow> StoredTransition \<Rightarrow> fileState" where
  "waiver_file st taskID fence fs row =
     (let rec = map_of (fsHealth st) taskID; gen = generation_of st taskID + 1
      in st\<lparr>fsFindings := fs,
            fsHealth := AList.update taskID \<lparr>fhHealth = (case rec of None \<Rightarrow> zero_health | Some r \<Rightarrow> fhHealth r),
              fhGeneration = gen, fhStored = stored_of fence\<rparr> (fsHealth st),
            fsTransitions := fsTransitions st @ [row\<lparr>stGeneration := gen\<rparr>]\<rparr>)"

definition waiver_row :: "(string \<Rightarrow> string) \<Rightarrow> string \<Rightarrow> Key \<Rightarrow> Op \<Rightarrow> string \<Rightarrow> string \<Rightarrow> string \<Rightarrow> instant \<Rightarrow> instant \<Rightarrow> StoredTransition" where
  "waiver_row sha taskID key op reason evidence detail at fat =
     (let t = \<lparr>trKey = key, trOp = op, trReason = reason, trAt = at, trFactAt = fat, trGeneration = 0, trKindVersion = 1,
               trInstance = (instance_of [] detail)\<lparr>inKey := key, inEvidence := evidence\<rparr>\<rparr>
      in \<lparr>stTaskID = taskID, stKind = keyKind key, stSubject = keySubject key, stOp = op_string op, stReason = reason,
          stSeverity = [], stDigest = TransitionDigest sha taskID t, stDetail = [], stGeneration = 0, stKindVersion = 1,
          stFactAt = fat\<rparr>)"

definition PutWaiver ::
  "(string \<Rightarrow> string) \<Rightarrow> instant \<Rightarrow> loaded \<Rightarrow> (fileState \<Rightarrow> store_error option) \<Rightarrow> string \<Rightarrow> Fence \<Rightarrow> Waiver
     \<Rightarrow> store_error + fileState" where
  "PutWaiver sha now load_res save taskID fence w =
     (if feMode fence \<noteq> FenceStandalone then Inl ErrModeUnsupported
      else if wvEvidence w = [] then Inl ErrEvidenceRequired
      else (case load_res of
              Inl e \<Rightarrow> Inl e
            | Inr st \<Rightarrow>
                (case CheckFence fence None (stored_fence st taskID) of
                   Some e \<Rightarrow> Inl e
                 | None \<Rightarrow>
                     (let at = (if wvAt w = 0 then now else wvAt w);
                          key = \<lparr>keyTaskID = taskID, keyKind = keyKind (wvKey w), keySubject = keySubject (wvKey w)\<rparr>;
                          fs = (case first_row key 0 (fsFindings st) of
                                  Some j \<Rightarrow> fsFindings st
                                | None \<Rightarrow> fsFindings st @ [new_file_finding (zero_finding\<lparr>fdTaskID := taskID,
                                     fdKind := keyKind key, fdSubject := keySubject key, fdFirstSeen := now,
                                     fdLastSeen := now\<rparr>)]);
                          j = (case first_row key 0 (fsFindings st) of Some j \<Rightarrow> j | None \<Rightarrow> length (fsFindings st));
                          fs' = fs[j := (fs ! j)\<lparr>ffWaiverEvidence := wvEvidence w, ffWaiverReason := wvReason w,
                                   ffWaiverActor := wvActor w, ffWaivedAt := Some at, ffWaiverKindVer := 1\<rparr>];
                          row = waiver_row sha taskID key OpWaive (wvReason w) (wvEvidence w)
                                  (wvActor w @ '': '' @ wvReason w) now at;
                          st' = waiver_file st taskID fence fs' row
                      in case save st' of Some e \<Rightarrow> Inl e | None \<Rightarrow> Inr st'))))"

definition DeleteWaiver ::
  "(string \<Rightarrow> string) \<Rightarrow> instant \<Rightarrow> loaded \<Rightarrow> (fileState \<Rightarrow> store_error option) \<Rightarrow> string \<Rightarrow> Fence \<Rightarrow> Key
     \<Rightarrow> store_error + fileState" where
  "DeleteWaiver sha now load_res save taskID fence key =
     (if feMode fence \<noteq> FenceStandalone then Inl ErrModeUnsupported
      else (case load_res of
              Inl e \<Rightarrow> Inl e
            | Inr st \<Rightarrow>
                (case CheckFence fence None (stored_fence st taskID) of
                   Some e \<Rightarrow> Inl e
                 | None \<Rightarrow>
                     (case first_row key 0 (fsFindings st) of
                        None \<Rightarrow> Inr st
                      | Some j \<Rightarrow>
                          if ffWaiverEvidence (fsFindings st ! j) = [] then Inr st
                          else (let fs' = (fsFindings st)[j := (fsFindings st ! j)\<lparr>ffWaiverEvidence := [],
                                            ffWaiverReason := [], ffWaiverActor := [], ffWaivedAt := None,
                                            ffWaiverKindVer := 0\<rparr>];
                                    row = waiver_row sha taskID key OpUnwaive ''UNWAIVE'' [] [] now now;
                                    st' = waiver_file st taskID fence fs' row
                                in case save st' of Some e \<Rightarrow> Inl e | None \<Rightarrow> Inr st')))))"

end
