(* ===== verification/Hlt_Reconcile_Props.thy ===== *)
theory Hlt_Reconcile_Props
  imports Hlt_Reconcile
begin

text \<open>
  What the lifecycle of findings guarantees: the derived set is keyed by the task and its managed
  kinds, every key gets at most one transition, an incomplete scope never closes or lowers a
  finding, and applying the transitions settles the open set.
\<close>

section \<open>Shape of the derived set\<close>

definition desired_ok :: "Registry \<Rightarrow> Facts \<Rightarrow> Desired \<Rightarrow> bool" where
  "desired_ok r f d \<longleftrightarrow> distinct (map fst d) \<and>
     (\<forall>(k, i) \<in> set d. inKey i = k \<and> keyTaskID k = fTaskID f \<and>
        (\<exists>spec. map_of r (keyKind k) = Some spec \<and> ksManaged spec))"

lemma desired_ok_update:
  "desired_ok r f d \<Longrightarrow> inKey i = k \<Longrightarrow> keyTaskID k = fTaskID f \<Longrightarrow> map_of r (keyKind k) = Some spec \<Longrightarrow>
   ksManaged spec \<Longrightarrow> desired_ok r f (AList.update k i d)"
  using set_alist_update_subset [of k i d]
  by (auto simp: desired_ok_def distinct_update)

lemma stamp_key [simp]:
  "inKey (stamp_instance f spec k i) = \<lparr>keyTaskID = fTaskID f, keyKind = k, keySubject = keySubject (inKey i)\<rparr>"
  by (simp add: stamp_instance_def)

lemma note_instance_ok:
  assumes "desired_ok r f (fst acc)" and "map_of r k = Some spec" and "ksManaged spec"
  shows "desired_ok r f (fst (note_instance f spec k acc i))"
  using assms desired_ok_update [OF assms(1), of "stamp_instance f spec k i" _ spec]
  by (simp add: note_instance_def Let_def case_prod_beta split: option.split)

lemma derive_kind_ok:
  assumes "desired_ok r f (fst acc)"
  shows "desired_ok r f (fst (derive_kind r f acc k))"
proof (cases "map_of r k")
  case (Some spec)
  have "desired_ok r f (fst (foldl (note_instance f spec k) acc is))" if "ksManaged spec" for "is"
    using assms
  proof (induction "is" arbitrary: acc)
    case (Cons i "is")
    show ?case using Cons.IH [OF note_instance_ok [OF Cons.prems Some that]] by simp
  qed simp
  moreover have "derives f spec = []" if "\<not> ksManaged spec"
    using that by (simp add: derives_def split: option.split)
  ultimately show ?thesis using assms Some by (cases "ksManaged spec") (simp_all add: derive_kind_def)
qed (simp add: derive_kind_def assms)

lemma deriveRaw_ok: "desired_ok r f (fst (deriveRaw r f))"
proof -
  have "desired_ok r f (fst (foldl (derive_kind r f) acc ks))" if "desired_ok r f (fst acc)" for acc ks
    using that
  proof (induction ks arbitrary: acc)
    case (Cons k ks)
    then show ?case using derive_kind_ok by simp
  qed simp
  from this [of "([], [])" "kinds r"] show ?thesis by (simp add: deriveRaw_def) (simp add: desired_ok_def)
qed

lemma desired_ok_filter: "desired_ok r f d \<Longrightarrow> desired_ok r f (filter P d)"
  by (auto simp: desired_ok_def distinct_map_filter)

lemma derive_ok: "desired_ok r f (fst (derive r f ks))"
  using deriveRaw_ok [of r f] by (simp add: derive_def case_prod_beta desired_ok_filter)

lemma desired_okD:
  assumes "desired_ok r f d" and "map_of d k = Some i"
  shows "inKey i = k" "keyTaskID k = fTaskID f" "\<exists>spec. map_of r (keyKind k) = Some spec \<and> ksManaged spec"
  using assms by (auto simp: desired_ok_def dest!: map_of_SomeD)

section \<open>The loop over the open findings\<close>

lemma reconcile_loop_seen:
  "set (snd (reconcile_loop r f d wk seen os)) = set seen \<union> {finding_Key o' | o'. o' \<in> set os \<and> owned_spec r f o' \<noteq> None}"
proof (induction r f d wk seen os rule: reconcile_loop.induct)
  case (2 r f d wk seen o' os)
  show ?case
  proof (cases "owned_spec r f o'")
    case None
    with 2 show ?thesis by auto
  next
    case (Some spec)
    with 2 show ?thesis by (cases "finding_Key o' \<in> set seen") (auto simp: case_prod_beta)
  qed
qed simp

text \<open>With distinct keys the loop is a plain \<open>concat map\<close> over the rows the evaluator owns.\<close>

definition loop_out :: "Registry \<Rightarrow> Facts \<Rightarrow> Desired \<Rightarrow> (Key \<times> bool) list \<Rightarrow> Finding \<Rightarrow> Transition list" where
  "loop_out r f d wk o' =
     (case owned_spec r f o' of None \<Rightarrow> [] | Some spec \<Rightarrow> reconcile_one f d wk spec o')"

lemma reconcile_loop_distinct:
  "distinct (map finding_Key os) \<Longrightarrow> finding_Key ` set os \<inter> set seen = {} \<Longrightarrow>
   fst (reconcile_loop r f d wk seen os) = concat (map (loop_out r f d wk) os)"
proof (induction os arbitrary: seen)
  case (Cons o' os)
  show ?case
  proof (cases "owned_spec r f o'")
    case None
    with Cons show ?thesis by (auto simp: loop_out_def)
  next
    case (Some spec)
    have "finding_Key ` set os \<inter> set (finding_Key o' # seen) = {}" using Cons.prems by auto
    with Cons Some show ?thesis by (auto simp: loop_out_def case_prod_beta)
  qed
qed simp

lemma reconcile_loop_from:
  "t \<in> set (fst (reconcile_loop r f d wk seen os)) \<Longrightarrow> \<exists>o' \<in> set os. t \<in> set (loop_out r f d wk o')"
  by (induction r f d wk seen os rule: reconcile_loop.induct)
    (auto simp: loop_out_def case_prod_beta split: option.splits if_splits)

lemma closeOf_simps [simp]:
  "trKey (closeOf o' spec rs f) = finding_Key o'" "trOp (closeOf o' spec rs f) = OpClose"
  "trReason (closeOf o' spec rs f) = rs"
  by (simp_all add: closeOf_def Let_def)

lemma config_close_simps [simp]:
  "trKey (config_close f spec o') = finding_Key o'" "trOp (config_close f spec o') = OpClose"
  "trReason (config_close f spec o') = ReasonConfig"
  by (simp_all add: config_close_def Let_def)

lemma reconcile_one_key: "t \<in> set (reconcile_one f d wk spec o') \<Longrightarrow> trKey t = finding_Key o'"
  by (auto simp: reconcile_one_def change_of_def want_transition_def close_of_absent_def Let_def
      split: option.splits if_splits)

lemma reconcile_one_length: "length (reconcile_one f d wk spec o') \<le> Suc 0"
  by (cases "map_of d (finding_Key o')")
    (simp_all add: reconcile_one_def change_of_def close_of_absent_def Let_def emit_def)

lemma loop_out_key: "t \<in> set (loop_out r f d wk o') \<Longrightarrow> trKey t = finding_Key o'"
  by (auto simp: loop_out_def reconcile_one_key split: option.splits)

lemma loop_out_cases: "loop_out r f d wk o' = [] \<or> (\<exists>t. loop_out r f d wk o' = [t] \<and> trKey t = finding_Key o')"
proof -
  have "length (loop_out r f d wk o') \<le> Suc 0"
    by (simp add: loop_out_def reconcile_one_length split: option.split)
  then consider "loop_out r f d wk o' = []" | t where "loop_out r f d wk o' = [t]"
    by (cases "loop_out r f d wk o'") auto
  then show ?thesis
    by cases (use loop_out_key [of _ r f d wk o'] in auto)
qed

section \<open>One transition per key\<close>

lemma loop_keys:
  "distinct (map trKey (fst (reconcile_loop r f d wk seen os))) \<and>
   trKey ` set (fst (reconcile_loop r f d wk seen os)) \<inter> set seen = {} \<and>
   trKey ` set (fst (reconcile_loop r f d wk seen os)) \<subseteq> set (snd (reconcile_loop r f d wk seen os))"
proof (induction r f d wk seen os rule: reconcile_loop.induct)
  case (2 r f d wk seen o' os)
  show ?case
  proof (cases "owned_spec r f o'")
    case None
    with 2 show ?thesis by simp
  next
    case (Some spec)
    show ?thesis
    proof (cases "finding_Key o' \<in> set seen")
      case True
      with 2 Some show ?thesis by simp
    next
      case False
      let ?rest = "reconcile_loop r f d wk (finding_Key o' # seen) os"
      have ih: "distinct (map trKey (fst ?rest))" "trKey ` set (fst ?rest) \<inter> set (finding_Key o' # seen) = {}"
        "trKey ` set (fst ?rest) \<subseteq> set (snd ?rest)"
        using 2(3) [OF Some False] by blast+
      have own: "finding_Key o' \<in> set (snd ?rest)" by (simp add: reconcile_loop_seen)
      consider "reconcile_one f d wk spec o' = []" | t where "reconcile_one f d wk spec o' = [t]" "trKey t = finding_Key o'"
        using loop_out_cases [of r f d wk o'] Some by (auto simp: loop_out_def)
      then show ?thesis
      proof cases
        case 1
        then show ?thesis using ih Some False by (auto simp: case_prod_beta)
      next
        case 2
        then show ?thesis using ih own Some False by (auto simp: case_prod_beta)
      qed
    qed
  qed
qed simp

definition wanted :: "Registry \<Rightarrow> Finding list \<Rightarrow> Facts \<Rightarrow> Desired" where
  "wanted r open f = fst (derive r f (open_keys f open))"

definition waived_keys :: "Registry \<Rightarrow> Facts \<Rightarrow> (Key \<times> bool) list" where
  "waived_keys r f = snd (deriveRaw r f)"

lemma derive_split: "derive r f (open_keys f open) = (wanted r open f, waived_keys r f)"
  by (simp add: wanted_def waived_keys_def derive_def case_prod_beta)

lemma wanted_ok: "desired_ok r f (wanted r open f)"
  by (simp add: wanted_def derive_ok)

lemma wanted_distinct: "distinct (map fst (wanted r open f))"
  using wanted_ok by (simp add: desired_ok_def)

lemmas wanted_mem = map_of_in_set [OF wanted_distinct]

lemma owned_of_wanted:
  "map_of (wanted r open f) (finding_Key o') = Some i \<Longrightarrow> owned_spec r f o' \<noteq> None"
  using desired_okD [OF wanted_ok, of r "open" f "finding_Key o'" i] by (auto simp: owned_spec_def)

lemma seen_wanted:
  assumes "map_of (wanted r open f) k = Some i"
  shows "k \<in> set (snd (reconcile_loop r f d wk [] open)) \<longleftrightarrow> k \<in> finding_Key ` set open"
  using assms owned_of_wanted by (fastforce simp: reconcile_loop_seen)

lemma reconcile_fst:
  "fst (Reconcile r open f) = sort_key transition_order
     (fst (reconcile_loop r f (wanted r open f) (waived_keys r f) [] open)
      @ map (open_of r f) (filter (\<lambda>x. fst x \<notin> finding_Key ` set open) (wanted r open f)))"
proof -
  let ?seen = "snd (reconcile_loop r f (wanted r open f) (waived_keys r f) [] open)"
  have "filter (\<lambda>x. fst x \<notin> set ?seen) (wanted r open f)
      = filter (\<lambda>x. fst x \<notin> finding_Key ` set open) (wanted r open f)"
  proof (rule filter_cong [OF refl])
    fix x assume "x \<in> set (wanted r open f)"
    then have "map_of (wanted r open f) (fst x) = Some (snd x)"
      using wanted_mem [of "fst x" "snd x" r "open" f] by simp
    then show "(fst x \<notin> set ?seen) = (fst x \<notin> finding_Key ` set open)" by (simp add: seen_wanted)
  qed
  then show ?thesis by (simp add: Reconcile_def derive_split case_prod_beta)
qed

lemma open_of_simps [simp]: "trKey (open_of r f x) = fst x" "trOp (open_of r f x) = OpOpen"
  "trInstance (open_of r f x) = snd x"
  by (simp_all add: open_of_def want_transition_def)

lemma transition_keys_distinct: "distinct (map trKey (fst (Reconcile r open f)))"
proof -
  let ?out = "fst (reconcile_loop r f (wanted r open f) (waived_keys r f) [] open)"
  let ?opens = "map (open_of r f) (filter (\<lambda>x. fst x \<notin> finding_Key ` set open) (wanted r open f))"
  have "distinct (map fst (filter (\<lambda>x. fst x \<notin> finding_Key ` set open) (wanted r open f)))"
    by (simp add: wanted_distinct distinct_map_filter)
  then have "distinct (map trKey ?opens)" by (simp add: comp_def)
  moreover have "trKey ` set ?out \<subseteq> finding_Key ` set open"
    using loop_keys [of r f "wanted r open f" "waived_keys r f" "[]" "open"] by (auto simp: reconcile_loop_seen)
  moreover have "trKey ` set ?opens \<inter> finding_Key ` set open = {}" by auto
  ultimately have "trKey ` set ?out \<inter> trKey ` set ?opens = {}" by blast
  then have d: "distinct (map trKey (?out @ ?opens))"
    using loop_keys [of r f "wanted r open f" "waived_keys r f" "[]" "open"] \<open>distinct (map trKey ?opens)\<close>
    unfolding map_append distinct_append set_map by blast
  have "mset (map trKey (fst (Reconcile r open f))) = mset (map trKey (?out @ ?opens))"
    unfolding mset_map reconcile_fst mset_sort ..
  then show ?thesis using d by (metis mset_eq_imp_distinct_iff)
qed

lemma transition_mem:
  assumes "distinct (map finding_Key open)"
  shows "t \<in> set (fst (Reconcile r open f)) \<longleftrightarrow>
    (\<exists>o' \<in> set open. t \<in> set (loop_out r f (wanted r open f) (waived_keys r f) o')) \<or>
    (\<exists>k i. map_of (wanted r open f) k = Some i \<and> k \<notin> finding_Key ` set open \<and> t = open_of r f (k, i))"
proof -
  let ?w = "wanted r open f"
  have "t \<in> set (map (open_of r f) (filter (\<lambda>x. fst x \<notin> finding_Key ` set open) ?w)) \<longleftrightarrow>
      (\<exists>k i. (k, i) \<in> set ?w \<and> k \<notin> finding_Key ` set open \<and> t = open_of r f (k, i))"
    by force
  then show ?thesis
    unfolding reconcile_fst set_sort set_append Un_iff wanted_mem
      reconcile_loop_distinct [OF assms, of "[]" r f ?w "waived_keys r f", simplified]
    by simp
qed

lemma transition_from:
  assumes "t \<in> set (fst (Reconcile r open f))"
  shows "(\<exists>o' \<in> set open. t \<in> set (loop_out r f (wanted r open f) (waived_keys r f) o')) \<or>
    (\<exists>x. x \<in> set (wanted r open f) \<and> t = open_of r f x)"
  using assms reconcile_loop_from [of t r f "wanted r open f" "waived_keys r f" "[]" "open"]
  by (auto simp: reconcile_fst)

section \<open>Applying transitions\<close>

lemma after_open_map:
  "map_of (fst (foldl after_open (bm, ks) os)) k
     = (case map_of (rev (map (\<lambda>o'. (finding_Key o', o')) os)) k of Some o' \<Rightarrow> Some o' | None \<Rightarrow> map_of bm k)"
proof (induction os arbitrary: bm ks)
  case (Cons o' os)
  then show ?case
    by (simp add: after_open_def alist_simps map_add_def split: option.split)
qed simp

lemma map_of_rev_distinct: "distinct (map fst xs) \<Longrightarrow> map_of (rev xs) = map_of xs"
  by (rule map_of_eqI) (auto simp: rev_map [symmetric] dest: map_of_SomeD)

text \<open>The invariant of the two variables \<open>by\<close> and \<open>keys\<close>.\<close>

definition after_ok :: "(Key \<times> Finding) list \<times> Key list \<Rightarrow> bool" where
  "after_ok acc \<longleftrightarrow> (\<forall>k f. map_of (fst acc) k = Some f \<longrightarrow> finding_Key f = k \<and> k \<in> set (snd acc))"

lemma after_open_ok: "after_ok acc \<Longrightarrow> after_ok (after_open acc o')"
  by (auto simp: after_ok_def after_open_def alist_simps case_prod_beta Let_def split: if_splits)

lemma apply_instance_key [simp]: "finding_Key (apply_instance t f) = trKey t"
  by (simp add: finding_Key_def apply_instance_def)

lemma after_one_ok: "after_ok acc \<Longrightarrow> after_ok (after_one acc t)"
  by (auto simp: after_ok_def after_one_def alist_simps case_prod_beta Let_def delete_conv'
      split: if_splits option.splits)

lemma foldl_keeps: "P a \<Longrightarrow> (\<And>a x. P a \<Longrightarrow> P (g a x)) \<Longrightarrow> P (foldl g a xs)"
  by (induction xs arbitrary: a) auto

lemma after_ok_tail: "after_ok (bm, k # ks) \<Longrightarrow> map_of bm k = None \<Longrightarrow> after_ok (bm, ks)"
  unfolding after_ok_def by (metis fst_conv option.distinct(1) set_ConsD snd_conv)

lemma collect_open_mem:
  "after_ok (bm, ks) \<Longrightarrow> x \<in> set (collect_open bm ks) \<longleftrightarrow> map_of bm (finding_Key x) = Some x"
proof (induction ks arbitrary: bm)
  case Nil
  then show ?case by (auto simp: after_ok_def)
next
  case (Cons k ks)
  show ?case
  proof (cases "map_of bm k")
    case None
    then have "after_ok (bm, ks)" by (rule after_ok_tail [OF Cons.prems])
    with None Cons.IH show ?thesis by simp
  next
    case (Some f)
    then have "finding_Key f = k" using Cons.prems by (simp add: after_ok_def)
    moreover have "after_ok (AList.delete k bm, ks)"
      using Cons.prems by (auto simp: after_ok_def delete_conv' split: if_splits)
    ultimately show ?thesis using Some Cons.IH [of "AList.delete k bm"] by (auto simp: delete_conv')
  qed
qed

lemma collect_open_distinct:
  "after_ok (bm, ks) \<Longrightarrow> distinct (map finding_Key (collect_open bm ks))"
proof (induction ks arbitrary: bm)
  case (Cons k ks)
  show ?case
  proof (cases "map_of bm k")
    case None
    then have "after_ok (bm, ks)" by (rule after_ok_tail [OF Cons.prems])
    with None Cons.IH show ?thesis by simp
  next
    case (Some f)
    then have "finding_Key f = k" using Cons.prems by (simp add: after_ok_def)
    moreover have ok: "after_ok (AList.delete k bm, ks)"
      using Cons.prems by (auto simp: after_ok_def delete_conv' split: if_splits)
    ultimately show ?thesis
      using Some Cons.IH [OF ok] collect_open_mem [OF ok] by (auto simp: delete_conv')
  qed
qed simp

definition transition_at :: "Transition list \<Rightarrow> Key \<Rightarrow> Transition option" where
  "transition_at ts = map_of (map (\<lambda>t. (trKey t, t)) ts)"

definition applied :: "Transition option \<Rightarrow> Finding option \<Rightarrow> Finding option" where
  "applied t o' =
     (case t of None \<Rightarrow> o'
      | Some t \<Rightarrow> if trOp t = OpClose then None
                  else Some (apply_instance t (case o' of Some f \<Rightarrow> f | None \<Rightarrow> zero_finding)))"

lemma after_one_map: "map_of (fst (after_one acc t)) k
    = (if k = trKey t then applied (Some t) (map_of (fst acc) k) else map_of (fst acc) k)"
  by (simp add: after_one_def case_prod_beta Let_def applied_def alist_simps delete_conv' split: option.split)

lemma after_ts_map:
  "distinct (map trKey ts) \<Longrightarrow>
   map_of (fst (foldl after_one acc ts)) k = applied (transition_at ts k) (map_of (fst acc) k)"
proof (induction ts arbitrary: acc)
  case (Cons t ts)
  then have ih: "map_of (fst (foldl after_one (after_one acc t) ts)) k
      = applied (transition_at ts k) (map_of (fst (after_one acc t)) k)" by simp
  have "transition_at ts (trKey t) = None"
    using Cons.prems by (auto simp: transition_at_def map_of_eq_None_iff)
  then show ?case
    using ih by (auto simp: after_one_map transition_at_def applied_def)
qed (simp add: transition_at_def applied_def)

definition finding_at :: "Finding list \<Rightarrow> Key \<Rightarrow> Finding option" where
  "finding_at open = map_of (map (\<lambda>o'. (finding_Key o', o')) open)"

lemma finding_at_iff:
  "distinct (map finding_Key open) \<Longrightarrow> finding_at open k = Some o' \<longleftrightarrow> o' \<in> set open \<and> finding_Key o' = k"
  unfolding finding_at_def by (subst map_of_eq_Some_iff) (auto simp: comp_def)

text \<open>\<open>afterTransitions\<close>, read key by key.\<close>

lemma after_mem:
  assumes "distinct (map finding_Key open)" and "distinct (map trKey ts)"
  shows "x \<in> set (afterTransitions open ts) \<longleftrightarrow>
    applied (transition_at ts (finding_Key x)) (finding_at open (finding_Key x)) = Some x"
proof -
  let ?acc = "foldl after_open ([], []) open"
  have "after_ok ?acc" by (rule foldl_keeps) (auto simp: after_open_ok, simp add: after_ok_def)
  then have ok: "after_ok (foldl after_one ?acc ts)" by (rule foldl_keeps) (rule after_one_ok)
  have "distinct (map fst (map (\<lambda>o'. (finding_Key o', o')) open))" using assms(1) by (simp add: comp_def)
  then have "map_of (fst ?acc) k = finding_at open k" for k
    by (simp add: after_open_map map_of_rev_distinct finding_at_def split: option.split)
  then show ?thesis
    using ok after_ts_map [OF assms(2), of ?acc "finding_Key x"]
      collect_open_mem [of "fst (foldl after_one ?acc ts)" "snd (foldl after_one ?acc ts)" x]
    by (simp add: afterTransitions_def case_prod_beta)
qed

lemma after_distinct: "distinct (map finding_Key (afterTransitions open ts))"
proof -
  let ?acc = "foldl after_open ([], []) open"
  have "after_ok ?acc" by (rule foldl_keeps) (auto simp: after_open_ok, simp add: after_ok_def)
  then have "after_ok (foldl after_one ?acc ts)" by (rule foldl_keeps) (rule after_one_ok)
  then show ?thesis
    using collect_open_distinct [of "fst (foldl after_one ?acc ts)" "snd (foldl after_one ?acc ts)"]
    by (simp add: afterTransitions_def case_prod_beta)
qed

section \<open>Settling\<close>

lemma transition_at_iff:
  "distinct (map trKey ts) \<Longrightarrow> transition_at ts k = Some t \<longleftrightarrow> t \<in> set ts \<and> trKey t = k"
  unfolding transition_at_def by (subst map_of_eq_Some_iff) (auto simp: comp_def)

lemma transition_at_key: "transition_at ts k = Some t \<Longrightarrow> trKey t = k"
  by (auto simp: transition_at_def dest: map_of_SomeD)

lemma loop_out_only:
  assumes "distinct (map finding_Key open)" and "o' \<in> set open" and "o2 \<in> set open"
    and "t \<in> set (loop_out r f d wk o2)" and "trKey t = finding_Key o'"
  shows "o2 = o'"
  using assms loop_out_key [OF assms(4)] by (auto simp: distinct_map dest: inj_onD)

lemma transition_at_open:
  assumes "distinct (map finding_Key open)" and o: "o' \<in> set open"
  shows "transition_at (fst (Reconcile r open f)) (finding_Key o')
    = (case loop_out r f (wanted r open f) (waived_keys r f) o' of [] \<Rightarrow> None | t # _ \<Rightarrow> Some t)"
proof (rule option.exhaust [of "transition_at (fst (Reconcile r open f)) (finding_Key o')"])
  let ?ts = "fst (Reconcile r open f)" and ?l = "loop_out r f (wanted r open f) (waived_keys r f)"
  note at = transition_at_iff [OF transition_keys_distinct, of r "open" f "finding_Key o'"]
  { assume none: "transition_at ?ts (finding_Key o') = None"
    have "?l o' = []"
    proof (rule ccontr)
      assume "?l o' \<noteq> []"
      then obtain t where "?l o' = [t]" "trKey t = finding_Key o'" using loop_out_cases by blast
      then have "t \<in> set ?ts" "trKey t = finding_Key o'" using o transition_mem [OF assms(1)] by fastforce+
      then show False using none at by simp
    qed
    then show ?thesis using none by simp }
  { fix t assume some: "transition_at ?ts (finding_Key o') = Some t"
    then have t: "t \<in> set ?ts" "trKey t = finding_Key o'" using at by auto
    then have "t \<in> set (?l o')"
      using transition_mem [OF assms(1), of t r f] o loop_out_only [OF assms(1) o] by fastforce
    then have "?l o' = [t]" using loop_out_cases [of r f "wanted r open f" "waived_keys r f" o'] by auto
    then show ?thesis using some by simp }
qed

lemma transition_at_new:
  assumes "distinct (map finding_Key open)" and "k \<notin> finding_Key ` set open"
  shows "transition_at (fst (Reconcile r open f)) k
    = map_option (\<lambda>i. open_of r f (k, i)) (map_of (wanted r open f) k)"
proof -
  have "transition_at (fst (Reconcile r open f)) k = Some t \<longleftrightarrow>
      (\<exists>i. map_of (wanted r open f) k = Some i \<and> t = open_of r f (k, i))" for t
  proof -
    have "\<not> (\<exists>o' \<in> set open. t \<in> set (loop_out r f (wanted r open f) (waived_keys r f) o') \<and> trKey t = k)"
      using assms(2) loop_out_key by fastforce
    then show ?thesis
      unfolding transition_at_iff [OF transition_keys_distinct] transition_mem [OF assms(1)]
      using assms(2) by auto
  qed
  then show ?thesis by (cases "map_of (wanted r open f) k") (auto simp: option.expand)
qed

abbreviation settled :: "Registry \<Rightarrow> Finding list \<Rightarrow> Facts \<Rightarrow> Finding list" where
  "settled r open f \<equiv> afterTransitions open (fst (Reconcile r open f))"

lemma finding_at_key: "finding_at open k = Some o' \<Longrightarrow> o' \<in> set open \<and> finding_Key o' = k"
  by (auto simp: finding_at_def dest: map_of_SomeD)

lemma after_at:
  assumes "distinct (map finding_Key open)" and "distinct (map trKey ts)"
  shows "finding_at (afterTransitions open ts) k = applied (transition_at ts k) (finding_at open k)"
proof -
  have "finding_at (afterTransitions open ts) k = Some x \<longleftrightarrow>
      applied (transition_at ts k) (finding_at open k) = Some x" for x
  proof -
    have "applied (transition_at ts k) (finding_at open k) = Some x \<Longrightarrow> finding_Key x = k"
      using transition_at_key [of ts k] finding_at_key [of "open" k]
      by (auto simp: applied_def split: option.splits if_splits)
    then show ?thesis
      using after_mem [OF assms, of x] unfolding finding_at_iff [OF after_distinct] by auto
  qed
  then show ?thesis by (metis not_Some_eq)
qed

lemma settled_at:
  assumes "distinct (map finding_Key open)"
  shows "finding_at (settled r open f) k = applied (transition_at (fst (Reconcile r open f)) k) (finding_at open k)"
  by (rule after_at [OF assms transition_keys_distinct])

lemma finding_at_None: "finding_at open k = None \<longleftrightarrow> k \<notin> finding_Key ` set open"
  by (simp add: finding_at_def map_of_eq_None_iff image_image)

definition shows_instance :: "Finding \<Rightarrow> Instance \<Rightarrow> bool" where
  "shows_instance o' want \<longleftrightarrow> fdSeverity o' = inSeverity want \<and> fdDetail o' = inDetail want
     \<and> fdEvidence o' = inEvidence want \<and> fdSegments o' = inSegments want"

lemma shows_open [simp]: "shows_instance (apply_instance (open_of r f (k, i)) zero_finding) i"
  by (simp add: shows_instance_def apply_instance_def)

lemma shows_want: "trInstance t = want \<Longrightarrow> shows_instance (apply_instance t o') want"
  by (auto simp: shows_instance_def apply_instance_def)

lemma change_of_shows: "shows_instance o' want \<Longrightarrow> change_of f spec o' want = []"
  by (simp add: change_of_def change_op_def shows_instance_def Let_def)

lemma change_of_cases:
  "change_of f spec o' want = [] \<or>
   (\<exists>t. change_of f spec o' want = [t] \<and> trOp t \<noteq> OpClose \<and> trInstance t = want)"
  by (auto simp: change_of_def change_op_def want_transition_def Let_def emit_def)

lemma close_of_absent_op: "t \<in> set (close_of_absent f wk spec o') \<Longrightarrow> trOp t = OpClose"
  by (auto simp: close_of_absent_def Let_def split: if_splits)

lemma loop_out_absent:
  assumes "map_of d (finding_Key o') = None" and "t \<in> set (loop_out r f d wk o')"
  shows "trOp t = OpClose"
  using assms close_of_absent_op [of t f wk _ o']
  by (cases "owned_spec r f o'") (auto simp: loop_out_def reconcile_one_def)

lemma loop_out_wanted:
  assumes "map_of (wanted r open f) (finding_Key o') = Some want"
  obtains spec where "owned_spec r f o' = Some spec"
    "loop_out r f (wanted r open f) wk o' = change_of f spec o' want"
  using assms owned_of_wanted [OF assms] by (auto simp: loop_out_def reconcile_one_def)

lemma settled_finding:
  assumes d: "distinct (map finding_Key open)" and x: "finding_at (settled r open f) k = Some x"
  shows "(\<exists>want. map_of (wanted r open f) k = Some want \<and> shows_instance x want) \<or>
    (x \<in> set open \<and> loop_out r f (wanted r open f) (waived_keys r f) x = [])"
proof (cases "finding_at open k")
  case None
  then have "k \<notin> finding_Key ` set open" by (simp add: finding_at_None)
  then have eq: "applied (map_option (\<lambda>i. open_of r f (k, i)) (map_of (wanted r open f) k)) None = Some x"
    using x None settled_at [OF d, of r f k] transition_at_new [OF d, of k r f] by simp
  then obtain i where i: "map_of (wanted r open f) k = Some i"
    by (cases "map_of (wanted r open f) k") (simp_all add: applied_def)
  then have "x = apply_instance (open_of r f (k, i)) zero_finding" using eq by (simp add: applied_def)
  then show ?thesis using i by simp
next
  case (Some o')
  then have o: "o' \<in> set open" "finding_Key o' = k" by (auto dest: finding_at_key)
  let ?l = "loop_out r f (wanted r open f) (waived_keys r f) o'"
  have eq: "applied (case ?l of [] \<Rightarrow> None | t # _ \<Rightarrow> Some t) (Some o') = Some x"
    using x Some transition_at_open [OF d o(1), of r f] o(2) by (simp add: settled_at [OF d])
  show ?thesis
  proof (cases "?l")
    case Nil
    with eq have "x = o'" by (simp add: applied_def)
    with o Nil show ?thesis by simp
  next
    case (Cons t ts)
    show ?thesis
    proof (cases "map_of (wanted r open f) k")
      case None
      then have "trOp t = OpClose"
        using loop_out_absent [of "wanted r open f" o' t r f "waived_keys r f"] Cons o by simp
      with eq Cons show ?thesis by (simp add: applied_def)
    next
      case (Some want)
      then obtain spec where "?l = change_of f spec o' want" using o loop_out_wanted by metis
      then have "trOp t \<noteq> OpClose" "trInstance t = want" using Cons change_of_cases [of f spec o' want] by auto
      with eq Cons have "shows_instance x want" using shows_want by (auto simp: applied_def)
      with Some show ?thesis by simp
    qed
  qed
qed

lemma settled_wanted_open:
  assumes d: "distinct (map finding_Key open)" and w: "map_of (wanted r open f) k = Some want"
  shows "finding_at (settled r open f) k \<noteq> None"
proof (cases "finding_at open k")
  case None
  then have "k \<notin> finding_Key ` set open" by (simp add: finding_at_None)
  with w show ?thesis by (simp add: settled_at [OF d] transition_at_new [OF d] applied_def)
next
  case (Some o')
  then have o: "o' \<in> set open" "finding_Key o' = k" by (auto dest: finding_at_key)
  obtain spec where l: "loop_out r f (wanted r open f) (waived_keys r f) o' = change_of f spec o' want"
    using w o loop_out_wanted by metis
  show ?thesis
    using Some transition_at_open [OF d o(1), of r f] o(2) change_of_cases [of f spec o' want]
    by (auto simp: settled_at [OF d] l applied_def)
qed

lemma raw_mem: "(k, i) \<in> set (fst (deriveRaw r f)) \<longleftrightarrow> map_of (fst (deriveRaw r f)) k = Some i"
  using deriveRaw_ok [of r f] by (intro map_of_in_set) (simp add: desired_ok_def)

lemma open_keys_mem: "keyTaskID k = fTaskID f \<Longrightarrow> k \<in> set (open_keys f open) \<longleftrightarrow> finding_at open k \<noteq> None"
  by (auto simp: open_keys_def finding_at_None)

lemma wanted_mem_raw:
  "(k, i) \<in> set (wanted r open f) \<longleftrightarrow>
     (k, i) \<in> set (fst (deriveRaw r f)) \<and> (needs_confirm r (k, i) \<and> \<not> known f k \<longrightarrow> finding_at open k \<noteq> None)"
proof -
  have "keyTaskID k = fTaskID f" if "(k, i) \<in> set (fst (deriveRaw r f))"
    using that deriveRaw_ok [of r f] by (auto simp: desired_ok_def)
  then show ?thesis by (auto simp: wanted_def derive_def case_prod_beta open_keys_mem)
qed

text \<open>The second pass derives what the first one did.\<close>

lemma settled_wanted:
  assumes d: "distinct (map finding_Key open)"
  shows "wanted r (settled r open f) f = wanted r open f"
proof -
  have "(\<not> (needs_confirm r x \<and> fst x \<notin> set (open_keys f (settled r open f)) \<and> \<not> known f (fst x)))
      = (\<not> (needs_confirm r x \<and> fst x \<notin> set (open_keys f open) \<and> \<not> known f (fst x)))"
    if x: "x \<in> set (fst (deriveRaw r f))" for x
  proof -
    obtain k i where ki: "x = (k, i)" by (cases x)
    have t: "keyTaskID k = fTaskID f" using x ki deriveRaw_ok [of r f] by (auto simp: desired_ok_def)
    have "finding_at (settled r open f) k \<noteq> None \<longleftrightarrow> finding_at open k \<noteq> None" if c: "needs_confirm r x" "\<not> known f k"
    proof
      assume "finding_at open k \<noteq> None"
      then have "(k, i) \<in> set (wanted r open f)" using x ki c by (simp add: wanted_mem_raw)
      then show "finding_at (settled r open f) k \<noteq> None" using wanted_mem settled_wanted_open [OF d] by blast
    next
      assume s: "finding_at (settled r open f) k \<noteq> None"
      show "finding_at open k \<noteq> None"
      proof
        assume n: "finding_at open k = None"
        have "map_of (wanted r open f) k = None"
        proof (rule ccontr)
          assume "map_of (wanted r open f) k \<noteq> None"
          then obtain j where "(k, j) \<in> set (wanted r open f)" using wanted_mem by blast
          then have "(k, j) \<in> set (fst (deriveRaw r f))" "(k, i) \<in> set (wanted r open f) \<longleftrightarrow> i = j"
            using x ki raw_mem [of k i r f] raw_mem [of k j r f] wanted_mem_raw by (auto simp: wanted_mem_raw)
          then show False using c n ki x raw_mem [of k i r f] raw_mem [of k j r f] \<open>(k, j) \<in> set (wanted r open f)\<close>
            by (auto simp: wanted_mem_raw)
        qed
        moreover have "k \<notin> finding_Key ` set open" using n by (simp add: finding_at_None)
        ultimately show False using s n by (simp add: settled_at [OF d] transition_at_new [OF d] applied_def)
      qed
    qed
    then show ?thesis using ki t open_keys_mem by auto
  qed
  then show ?thesis by (simp add: wanted_def derive_def case_prod_beta cong: filter_cong)
qed

lemma reconcile_settled:
  assumes d: "distinct (map finding_Key open)"
  shows "fst (Reconcile r (settled r open f) f) = []"
proof -
  let ?open = "settled r open f" and ?w = "wanted r open f"
  have "t \<notin> set (fst (Reconcile r ?open f))" for t
  proof
    assume "t \<in> set (fst (Reconcile r ?open f))"
    then consider x where "x \<in> set ?open" "t \<in> set (loop_out r f ?w (waived_keys r f) x)"
      | k i where "map_of ?w k = Some i" "k \<notin> finding_Key ` set ?open"
      unfolding transition_mem [OF after_distinct] settled_wanted [OF d] by blast
    then show False
    proof cases
      case 1
      then have "finding_at ?open (finding_Key x) = Some x" using finding_at_iff [OF after_distinct] by blast
      from settled_finding [OF d this] have "loop_out r f ?w (waived_keys r f) x = []"
      proof
        assume "\<exists>want. map_of ?w (finding_Key x) = Some want \<and> shows_instance x want"
        then show ?thesis using loop_out_wanted change_of_shows by metis
      qed simp
      with 1 show False by simp
    next
      case 2
      then show False using settled_wanted_open [OF d] by (simp add: finding_at_None)
    qed
  qed
  then show ?thesis by (metis list.set_intros(1) neq_Nil_conv)
qed

end
