(* ===== verification/Hlt_Store_Props.thy ===== *)
theory Hlt_Store_Props
  imports Hlt_Store Hlt_Reconcile_Props
begin

text \<open>
  What health persistence promises: one writer per lease, a replay of stored content changes
  nothing, and the open findings the file store lists after an apply are the ones
  \<open>afterTransitions\<close> computes. \<open>finding_store\<close> is the contract between the evaluator and a store.
\<close>

section \<open>The fence\<close>

lemma fence_cluster:
  assumes "feMode f = FenceCluster" and "CheckFence f lease stored = None"
  obtains l where "lease = Some l" "fence_lease f l = None" "fence_stored f l stored = None"
    "fence_delegated f stored = None"
  using assms by (auto simp: CheckFence_def health_texts split: option.splits)

lemma fence_lease_ok:
  assumes "fence_lease f l = None"
  shows "hlEpoch l = feTaskEpoch f"
    and "feProxy f \<or> feDelegated f \<Longrightarrow> hlExpired l \<or> hlOwner l = []"
    and "\<not> (feProxy f \<or> feDelegated f) \<Longrightarrow> hlOwner l = feNode f \<and> \<not> hlExpired l"
  using assms by (auto simp: fence_lease_def split: if_splits)

section \<open>Replays\<close>

definition task_digests :: "string \<Rightarrow> StoredTransition list \<Rightarrow> string set" where
  "task_digests taskID rows = set (map stDigest (filter (\<lambda>x. stTaskID x = taskID) rows))"

lemma log_row_simps [simp]: "stTaskID (log_row taskID now d gen t) = taskID" "stDigest (log_row taskID now d gen t) = d"
  by (simp_all add: log_row_def)

lemma task_digests_append: "task_digests taskID (rows @ [row]) =
    (if stTaskID row = taskID then insert (stDigest row) (task_digests taskID rows) else task_digests taskID rows)"
  unfolding task_digests_def filter_append map_append set_append by simp

lemma apply_step_digests:
  "set (asDigests s) = task_digests taskID (asLog s) \<Longrightarrow>
   set (asDigests (apply_step sha taskID now s t)) = task_digests taskID (asLog (apply_step sha taskID now s t))"
  by (simp add: apply_step_def Let_def task_digests_append)

lemma apply_steps_digests:
  "set (asDigests s) = task_digests taskID (asLog s) \<Longrightarrow>
   set (asDigests (foldl (apply_step sha taskID now) s ts)) = task_digests taskID (asLog (foldl (apply_step sha taskID now) s ts))"
  by (induction ts arbitrary: s) (simp_all add: apply_step_digests)

lemma start_digests: "set (asDigests (start_state st taskID)) = task_digests taskID (asLog (start_state st taskID))"
  by (simp add: start_state_def task_digests_def)

lemma apply_steps_seen:
  "set (asDigests s) \<union> TransitionDigest sha taskID ` set ts \<subseteq> set (asDigests (foldl (apply_step sha taskID now) s ts))"
proof (induction ts arbitrary: s)
  case (Cons t ts)
  have "insert (TransitionDigest sha taskID t) (set (asDigests s)) \<subseteq> set (asDigests (apply_step sha taskID now s t))"
    by (auto simp: apply_step_def Let_def)
  then show ?case using Cons.IH [of "apply_step sha taskID now s t"] by auto
qed simp

lemma apply_steps_replay:
  "TransitionDigest sha taskID ` set ts \<subseteq> set (asDigests s) \<Longrightarrow>
   foldl (apply_step sha taskID now) s ts = s\<lparr>asOut := asOut s @ replicate (length ts) 0\<rparr>"
proof (induction ts arbitrary: s)
  case (Cons t ts)
  then have "apply_step sha taskID now s t = s\<lparr>asOut := asOut s @ [0]\<rparr>" by (simp add: apply_step_def)
  then show ?case using Cons.IH [of "s\<lparr>asOut := asOut s @ [0]\<rparr>"] Cons.prems by simp
qed simp

lemma apply_result:
  assumes "ApplyTransitions sha now (Inr st) save taskID fence ts h = Inr (gens, st')"
  shows "gens = asOut (foldl (apply_step sha taskID now) (start_state st taskID) ts)"
    and "st' = applied_file sha now st taskID fence ts h" and "feMode fence = FenceStandalone"
    and "CheckFence fence None (stored_fence st taskID) = None"
  using assms by (auto simp: ApplyTransitions_def Let_def split: if_splits option.splits)

lemma apply_log_length:
  "length (asLog (foldl (apply_step sha taskID now) s ts)) \<le> length (asLog s) + length ts"
proof (induction ts arbitrary: s)
  case (Cons t ts)
  have "length (asLog (apply_step sha taskID now s t)) \<le> length (asLog s) + 1"
    by (simp add: apply_step_def Let_def)
  then show ?case using Cons.IH [of "apply_step sha taskID now s t"] by simp
qed simp

section \<open>Reading the stored findings by key\<close>

abbreviation ff_key :: "fileFinding \<Rightarrow> Key" where
  "ff_key ff \<equiv> finding_Key (ffFinding ff)"

definition content :: "Finding \<Rightarrow> Severity \<times> string \<times> string \<times> string list" where
  "content f = (fdSeverity f, fdDetail f, fdEvidence f, fdSegments f)"

definition row_at :: "fileFinding list \<Rightarrow> Key \<Rightarrow> fileFinding option" where
  "row_at fs = map_of (map (\<lambda>ff. (ff_key ff, ff)) fs)"

lemma row_at_iff: "distinct (map ff_key fs) \<Longrightarrow> row_at fs k = Some ff \<longleftrightarrow> ff \<in> set fs \<and> ff_key ff = k"
  unfolding row_at_def by (subst map_of_eq_Some_iff) (auto simp: comp_def)

lemma finding_index_Some:
  assumes d: "distinct (map ff_key fs)" and i: "i < length fs"
  shows "finding_index fs (ff_key (fs ! i)) = Some i"
proof -
  let ?m = "map (\<lambda>(i, ff). (ff_key ff, i)) (enumerate 0 fs)"
  have k: "map fst ?m = map ff_key fs" by (rule nth_equalityI) (simp_all add: nth_enumerate_eq)
  have "?m ! i = (ff_key (fs ! i), i)" using i by (simp add: nth_enumerate_eq)
  then have "(ff_key (fs ! i), i) \<in> set ?m" using i by (metis length_enumerate length_map nth_mem)
  then have "map_of ?m (ff_key (fs ! i)) = Some i" using d k by (simp add: map_of_in_set [symmetric])
  then show ?thesis using map_of_rev_distinct [of ?m] d k by (simp add: finding_index_def)
qed

lemma finding_index_cases:
  assumes "distinct (map ff_key fs)"
  obtains (found) i where "finding_index fs k = Some i" "i < length fs" "ff_key (fs ! i) = k"
    | (absent) "finding_index fs k = None" "k \<notin> ff_key ` set fs"
proof (cases "k \<in> ff_key ` set fs")
  case True
  then obtain i where "i < length fs" "ff_key (fs ! i) = k" by (auto simp: in_set_conv_nth)
  then show thesis using finding_index_Some [OF assms] found by blast
next
  case False
  let ?m = "map (\<lambda>(i, ff). (ff_key ff, i)) (enumerate 0 fs)"
  have "map fst ?m = map ff_key fs" by (rule nth_equalityI) (simp_all add: nth_enumerate_eq)
  then have "fst ` set (rev ?m) = ff_key ` set fs" by (metis set_map set_rev)
  then have "finding_index fs k = None" using False by (simp add: finding_index_def map_of_eq_None_iff)
  then show thesis using False absent by blast
qed
text \<open>The effect of one transition on the row of every key.\<close>

definition row_after :: "string \<Rightarrow> instant \<Rightarrow> int64 \<Rightarrow> Transition \<Rightarrow> fileFinding option \<Rightarrow> fileFinding option" where
  "row_after taskID now gen t row =
     (if trOp t = OpClose then map_option (close_row now gen) row
      else Some (write_row now gen t (case row of Some ff \<Rightarrow> ff
        | None \<Rightarrow> new_file_finding (zero_finding\<lparr>fdTaskID := taskID, fdKind := keyKind (trKey t),
            fdSubject := keySubject (trKey t), fdFirstSeen := now\<rparr>))))"

lemma row_keys [simp]: "ff_key (close_row now gen ff) = ff_key ff" "ff_key (write_row now gen t ff) = ff_key ff"
  by (simp_all add: close_row_def write_row_def finding_Key_def)

lemma row_at_update:
  assumes "distinct (map ff_key fs)" and "i < length fs" and "ff_key ff = ff_key (fs ! i)"
  shows "row_at (fs[i := ff]) k = (if k = ff_key ff then Some ff else row_at fs k)"
    and "map ff_key (fs[i := ff]) = map ff_key fs"
proof -
  show keys: "map ff_key (fs[i := ff]) = map ff_key fs"
    using assms(2, 3) by (metis list_update_id map_update nth_map)
  then have d: "distinct (map ff_key (fs[i := ff]))" using assms(1) by simp
  have "row_at (fs[i := ff]) k = Some x \<longleftrightarrow> (if k = ff_key ff then Some ff else row_at fs k) = Some x" for x
  proof -
    have "x \<in> set (fs[i := ff]) \<longleftrightarrow> x = ff \<or> (\<exists>j < length fs. j \<noteq> i \<and> x = fs ! j)"
      using assms(2) by (auto simp: in_set_conv_nth nth_list_update)
    moreover have "j \<noteq> i \<Longrightarrow> j < length fs \<Longrightarrow> ff_key (fs ! j) \<noteq> ff_key ff" for j
      using assms by (auto simp: distinct_conv_nth)
    moreover have "x \<in> set fs \<and> ff_key x \<noteq> ff_key ff \<Longrightarrow> \<exists>j < length fs. j \<noteq> i \<and> x = fs ! j"
      using assms(3) by (metis in_set_conv_nth)
    ultimately show ?thesis
      unfolding row_at_iff [OF d] using row_at_iff [OF assms(1)] by (auto simp: in_set_conv_nth)
  qed
  then show "row_at (fs[i := ff]) k = (if k = ff_key ff then Some ff else row_at fs k)" by (metis not_Some_eq)
qed

lemma row_at_None: "row_at fs k = None \<longleftrightarrow> k \<notin> ff_key ` set fs"
  by (simp add: row_at_def map_of_eq_None_iff image_image)

lemma row_at_nth: "distinct (map ff_key fs) \<Longrightarrow> i < length fs \<Longrightarrow> row_at fs (ff_key (fs ! i)) = Some (fs ! i)"
  by (simp add: row_at_iff)

lemma row_at_append: "ff_key ff \<notin> ff_key ` set fs \<Longrightarrow> row_at (fs @ [ff]) k = (if k = ff_key ff then Some ff else row_at fs k)"
  using row_at_None [of fs "ff_key ff"] by (simp add: row_at_def map_add_def split: option.split)

lemma write_findings_at:
  assumes d: "distinct (map ff_key fs)" and k: "keyTaskID (trKey t) = taskID"
  shows "row_at (write_findings taskID now gen t fs) x
      = (if x = trKey t then row_after taskID now gen t (row_at fs x) else row_at fs x)"
    and "distinct (map ff_key (write_findings taskID now gen t fs))"
proof -
  have key: "\<lparr>keyTaskID = taskID, keyKind = keyKind (trKey t), keySubject = keySubject (trKey t)\<rparr> = trKey t"
    using k by simp
  have "(row_at (write_findings taskID now gen t fs) x
      = (if x = trKey t then row_after taskID now gen t (row_at fs x) else row_at fs x)) \<and>
      distinct (map ff_key (write_findings taskID now gen t fs))"
  proof (rule finding_index_cases [OF d, of "trKey t"])
    fix i assume found: "finding_index fs (trKey t) = Some i" "i < length fs" "ff_key (fs ! i) = trKey t"
    let ?ff = "if trOp t = OpClose then close_row now gen (fs ! i) else write_row now gen t (fs ! i)"
    have w: "write_findings taskID now gen t fs = fs[i := ?ff]" using found by (simp add: write_findings_def key)
    have f: "ff_key ?ff = ff_key (fs ! i)" by simp
    show ?thesis
      using row_at_update(1) [OF d found(2) f, of x] row_at_update(2) [OF d found(2) f] row_at_nth [OF d found(2)]
        found(3) d f
      by (simp add: w row_after_def)
  next
    assume absent: "finding_index fs (trKey t) = None" "trKey t \<notin> ff_key ` set fs"
    let ?new = "new_file_finding (zero_finding\<lparr>fdTaskID := taskID, fdKind := keyKind (trKey t),
            fdSubject := keySubject (trKey t), fdFirstSeen := now\<rparr>)"
    have nk: "ff_key ?new = trKey t" using key by (simp add: new_file_finding_def finding_Key_def)
    have r: "row_at fs (trKey t) = None" using absent(2) by (simp add: row_at_None)
    have w: "write_findings taskID now gen t fs = (if trOp t = OpClose then fs else fs @ [write_row now gen t ?new])"
      using absent by (simp add: write_findings_def key)
    show ?thesis
      using absent(2) nk r d by (simp add: w row_after_def row_at_append)
  qed
  then show "row_at (write_findings taskID now gen t fs) x
      = (if x = trKey t then row_after taskID now gen t (row_at fs x) else row_at fs x)"
    and "distinct (map ff_key (write_findings taskID now gen t fs))" by blast+
qed

text \<open>What a row shows as an open finding.\<close>

definition shown :: "fileFinding option \<Rightarrow> (Severity \<times> string \<times> string \<times> string list) option" where
  "shown row = (case row of None \<Rightarrow> None
     | Some ff \<Rightarrow> if ffResolvedAt ff = None then Some (content (ffFinding ff)) else None)"

definition want_content :: "Transition \<Rightarrow> (Severity \<times> string \<times> string \<times> string list) option" where
  "want_content t = (if trOp t = OpClose then None
     else Some (inSeverity (trInstance t), inDetail (trInstance t), inEvidence (trInstance t), inSegments (trInstance t)))"

lemma shown_after: "shown (row_after taskID now gen t row) = want_content t"
proof (cases row)
  case (Some ff)
  then show ?thesis
    by (cases "ffResolvedAt ff")
      (simp_all add: shown_def row_after_def close_row_def write_row_def want_content_def content_def)
qed (simp add: shown_def row_after_def close_row_def write_row_def want_content_def content_def)

lemma apply_steps_shown:
  assumes "distinct (map ff_key (asFindings s))" and "distinct (map trKey ts)"
    and "\<forall>t \<in> set ts. keyTaskID (trKey t) = taskID"
    and "distinct (map (TransitionDigest sha taskID) ts)"
    and "TransitionDigest sha taskID ` set ts \<inter> set (asDigests s) = {}"
  shows "shown (row_at (asFindings (foldl (apply_step sha taskID now) s ts)) k)
      = (case transition_at ts k of None \<Rightarrow> shown (row_at (asFindings s) k) | Some t \<Rightarrow> want_content t) \<and>
    distinct (map ff_key (asFindings (foldl (apply_step sha taskID now) s ts)))"
  using assms
proof (induction ts arbitrary: s)
  case (Cons t ts)
  let ?s = "apply_step sha taskID now s t"
  have t: "keyTaskID (trKey t) = taskID" using Cons.prems(3) by simp
  have new: "TransitionDigest sha taskID t \<notin> set (asDigests s)" using Cons.prems(5) by simp
  have s: "asFindings ?s = write_findings taskID now (asGen s + 1) t (asFindings s)"
    "set (asDigests ?s) = insert (TransitionDigest sha taskID t) (set (asDigests s))"
    using new by (simp_all add: apply_step_def Let_def)
  have d: "distinct (map ff_key (asFindings ?s))" using write_findings_at(2) [OF Cons.prems(1) t] by (simp add: s)
  have dis: "TransitionDigest sha taskID ` set ts \<inter> set (asDigests ?s) = {}" using Cons.prems(4, 5) s(2) by auto
  have ih: "shown (row_at (asFindings (foldl (apply_step sha taskID now) ?s ts)) k)
      = (case transition_at ts k of None \<Rightarrow> shown (row_at (asFindings ?s) k) | Some t \<Rightarrow> want_content t) \<and>
    distinct (map ff_key (asFindings (foldl (apply_step sha taskID now) ?s ts)))"
    by (rule Cons.IH) (use d dis Cons.prems(2, 3, 4) in simp_all)
  have "transition_at ts (trKey t) = None"
    using Cons.prems(2) by (auto simp: transition_at_def map_of_eq_None_iff)
  moreover have "shown (row_at (asFindings ?s) k) = (if k = trKey t then want_content t else shown (row_at (asFindings s) k))"
    using write_findings_at(1) [OF Cons.prems(1) t] by (simp add: s shown_after)
  ultimately show ?case using ih by (auto simp: transition_at_def split: option.split)
qed (simp add: transition_at_def)

section \<open>The contract of a finding store\<close>

definition same_open :: "Finding list \<Rightarrow> Finding list \<Rightarrow> bool" where
  "same_open as bs \<longleftrightarrow> (\<forall>k. map_option content (finding_at as k) = map_option content (finding_at bs k))"

lemma same_open_none: "same_open as bs \<Longrightarrow> finding_at as k = None \<longleftrightarrow> finding_at bs k = None"
  unfolding same_open_def by (metis option.map_disc_iff)

lemma same_open_wanted: "same_open as bs \<Longrightarrow> wanted r as f = wanted r bs f"
proof -
  assume s: "same_open as bs"
  have "fst x \<in> set (open_keys f as) \<longleftrightarrow> fst x \<in> set (open_keys f bs)" if "x \<in> set (fst (deriveRaw r f))" for x
  proof -
    have "keyTaskID (fst x) = fTaskID f" using that deriveRaw_ok [of r f] by (auto simp: desired_ok_def)
    then show ?thesis using same_open_none [OF s] by (simp add: open_keys_mem)
  qed
  then show ?thesis by (simp add: wanted_def derive_def case_prod_beta cong: filter_cong)
qed

lemma loop_out_content:
  assumes "finding_Key a = finding_Key b" and "content a = content b"
  shows "loop_out r f d wk a = [] \<longleftrightarrow> loop_out r f d wk b = []"
proof -
  have o: "owned_spec r f a = owned_spec r f b"
    using assms(1) by (simp add: owned_spec_def finding_Key_def cong: option.case_cong if_cong)
  have "change_of f spec a want = [] \<longleftrightarrow> change_of f spec b want = []" for spec want
    using assms by (simp add: change_of_def change_op_def content_def Let_def)
  moreover have "close_of_absent f wk spec a = [] \<longleftrightarrow> close_of_absent f wk spec b = []" for spec
    using assms(1) by (simp add: close_of_absent_def Let_def)
  ultimately show ?thesis
    using assms(1) o by (simp add: loop_out_def reconcile_one_def split: option.split)
qed

lemma reconcile_nothing:
  assumes "distinct (map finding_Key open)"
  shows "fst (Reconcile r open f) = [] \<longleftrightarrow>
    (\<forall>k o'. finding_at open k = Some o' \<longrightarrow> loop_out r f (wanted r open f) (waived_keys r f) o' = []) \<and>
    (\<forall>k i. map_of (wanted r open f) k = Some i \<longrightarrow> finding_at open k \<noteq> None)"
proof -
  have e: "xs = [] \<longleftrightarrow> (\<forall>t. t \<notin> set xs)" for xs :: "Transition list" by (cases xs) auto
  show ?thesis
    unfolding e [of "fst (Reconcile r open f)"] e [of "loop_out r f (wanted r open f) (waived_keys r f) _"]
      transition_mem [OF assms] finding_at_iff [OF assms] finding_at_None by blast
qed

lemma reconcile_same_nothing:
  assumes "distinct (map finding_Key as)" and "distinct (map finding_Key bs)" and s: "same_open as bs"
    and n: "fst (Reconcile r as f) = []"
  shows "fst (Reconcile r bs f) = []"
proof -
  note w = same_open_wanted [OF s, of r f]
  have "loop_out r f (wanted r bs f) (waived_keys r f) b = []" if b: "finding_at bs k = Some b" for k b
  proof -
    obtain a where a: "finding_at as k = Some a" "content a = content b"
      using b s [unfolded same_open_def, THEN spec, of k] by (cases "finding_at as k") auto
    then have "finding_Key a = finding_Key b" using finding_at_key [OF a(1)] finding_at_key [OF b] by simp
    moreover have "loop_out r f (wanted r as f) (waived_keys r f) a = []"
      using n a(1) unfolding reconcile_nothing [OF assms(1)] by blast
    ultimately show ?thesis using loop_out_content [of a b] a(2) w by simp
  qed
  moreover have "finding_at bs k \<noteq> None" if "map_of (wanted r bs f) k = Some i" for k i
    using that n same_open_none [OF s] unfolding reconcile_nothing [OF assms(1)] w by metis
  ultimately show ?thesis unfolding reconcile_nothing [OF assms(2)] by blast
qed

locale finding_store =
  fixes ok :: "'s \<Rightarrow> bool"
    and fresh :: "'s \<Rightarrow> Transition list \<Rightarrow> bool"
    and apply_to :: "'s \<Rightarrow> Transition list \<Rightarrow> 's"
    and listing :: "'s \<Rightarrow> Finding list"
  assumes keeps_ok: "ok s \<Longrightarrow> fresh s ts \<Longrightarrow> ok (apply_to s ts)"
    and listing_distinct: "ok s \<Longrightarrow> distinct (map finding_Key (listing s))"
    and apply_lists: "ok s \<Longrightarrow> fresh s ts \<Longrightarrow> same_open (afterTransitions (listing s) ts) (listing (apply_to s ts))"
begin

text \<open>A pass that is planned on the listing and applied to the store settles the store.\<close>

lemma pass_settles:
  assumes "ok s" and "fresh s (fst (Reconcile r (listing s) f))"
  shows "fst (Reconcile r (listing (apply_to s (fst (Reconcile r (listing s) f)))) f) = []"
  by (rule reconcile_same_nothing [OF after_distinct _ apply_lists [OF assms]])
    (simp_all add: listing_distinct keeps_ok assms reconcile_settled)

end

section \<open>The file store keeps the contract\<close>

definition file_ok :: "fileState \<Rightarrow> bool" where
  "file_ok st \<longleftrightarrow> distinct (map ff_key (fsFindings st))"

definition file_fresh :: "(string \<Rightarrow> string) \<Rightarrow> string \<Rightarrow> fileState \<Rightarrow> Transition list \<Rightarrow> bool" where
  "file_fresh sha taskID st ts \<longleftrightarrow> distinct (map trKey ts) \<and> list_all (\<lambda>t. keyTaskID (trKey t) = taskID) ts
     \<and> distinct (map (TransitionDigest sha taskID) ts)
     \<and> list_all (\<lambda>t. TransitionDigest sha taskID t \<notin> task_digests taskID (fsTransitions st)) ts"

lemma listing_mem:
  "f \<in> set (ListOpenFindingsForTask st taskID) \<longleftrightarrow>
     (\<exists>ff \<in> set (fsFindings st). ffFinding ff = f \<and> fdTaskID f = taskID \<and> ffResolvedAt ff = None)"
  by (auto simp: ListOpenFindingsForTask_def)

lemma listing_distinct: "file_ok st \<Longrightarrow> distinct (map finding_Key (ListOpenFindingsForTask st taskID))"
proof -
  assume "file_ok st"
  then have "distinct (map finding_Key (map ffFinding (filter P (fsFindings st))))" for P
    by (simp add: file_ok_def comp_def distinct_map_filter)
  then show ?thesis
    unfolding ListOpenFindingsForTask_def by (metis (no_types, lifting) mset_eq_imp_distinct_iff mset_map mset_sort)
qed

lemma listing_content:
  assumes "file_ok st"
  shows "map_option content (finding_at (ListOpenFindingsForTask st taskID) k)
    = (if keyTaskID k = taskID then shown (row_at (fsFindings st) k) else None)"
proof -
  have r: "row_at (fsFindings st) k = Some ff \<longleftrightarrow> ff \<in> set (fsFindings st) \<and> ff_key ff = k" for ff
    using assms by (simp add: file_ok_def row_at_iff)
  show ?thesis
  proof (cases "finding_at (ListOpenFindingsForTask st taskID) k")
    case None
    then have "\<not> (keyTaskID k = taskID \<and> ffResolvedAt ff = None)" if "row_at (fsFindings st) k = Some ff" for ff
      using that r [of ff] by (auto simp: finding_at_None listing_mem image_iff)
    then show ?thesis using None by (auto simp: shown_def split: option.split)
  next
    case (Some f)
    then obtain ff where "ff \<in> set (fsFindings st)" "ffFinding ff = f" "fdTaskID f = taskID" "ffResolvedAt ff = None" "finding_Key f = k"
      using finding_at_key [OF Some] listing_mem by blast
    then show ?thesis using Some r [of ff] by (auto simp: shown_def)
  qed
qed

lemma applied_content:
  "map_option content (applied t o') = (case t of None \<Rightarrow> map_option content o' | Some t \<Rightarrow> want_content t)"
  by (simp add: applied_def want_content_def content_def apply_instance_def split: option.split)

lemma file_applied:
  assumes ok: "file_ok st" and fresh: "file_fresh sha taskID st ts"
  shows "shown (row_at (fsFindings (applied_file sha now st taskID fence ts h)) k)
      = (case transition_at ts k of None \<Rightarrow> shown (row_at (fsFindings st) k) | Some t \<Rightarrow> want_content t)"
    and "file_ok (applied_file sha now st taskID fence ts h)"
proof -
  have st: "asFindings (start_state st taskID) = fsFindings st"
    "set (asDigests (start_state st taskID)) = task_digests taskID (fsTransitions st)"
    using start_digests [of st taskID] by (simp_all add: start_state_def)
  have a: "fsFindings (applied_file sha now st taskID fence ts h)
      = asFindings (foldl (apply_step sha taskID now) (start_state st taskID) ts)"
    by (simp add: applied_file_def Let_def)
  have "shown (row_at (asFindings (foldl (apply_step sha taskID now) (start_state st taskID) ts)) k)
      = (case transition_at ts k of None \<Rightarrow> shown (row_at (asFindings (start_state st taskID)) k) | Some t \<Rightarrow> want_content t) \<and>
    distinct (map ff_key (asFindings (foldl (apply_step sha taskID now) (start_state st taskID) ts)))"
    by (rule apply_steps_shown) (use ok fresh in \<open>auto simp: st file_ok_def file_fresh_def list_all_iff\<close>)
  then show "shown (row_at (fsFindings (applied_file sha now st taskID fence ts h)) k)
      = (case transition_at ts k of None \<Rightarrow> shown (row_at (fsFindings st) k) | Some t \<Rightarrow> want_content t)"
    and "file_ok (applied_file sha now st taskID fence ts h)"
    unfolding a file_ok_def st(1) [symmetric] by blast+
qed

interpretation fs: finding_store file_ok "file_fresh sha taskID"
    "\<lambda>st ts. applied_file sha now st taskID fence ts h" "\<lambda>st. ListOpenFindingsForTask st taskID"
  for sha now taskID fence h
proof
  fix s ts assume "file_ok s"
  then show "distinct (map finding_Key (ListOpenFindingsForTask s taskID))" by (rule listing_distinct)
next
  fix s ts assume s: "file_ok s" "file_fresh sha taskID s ts"
  then show "file_ok (applied_file sha now s taskID fence ts h)" by (rule file_applied)
  have ts: "distinct (map trKey ts)" using s(2) by (simp add: file_fresh_def)
  have "map_option content (finding_at (afterTransitions (ListOpenFindingsForTask s taskID) ts) k)
      = map_option content (finding_at (ListOpenFindingsForTask (applied_file sha now s taskID fence ts h) taskID) k)" for k
  proof (cases "keyTaskID k = taskID")
    case True
    then show ?thesis
      using file_applied [OF s] listing_content [OF s(1)] listing_content [OF file_applied(2) [OF s]]
      by (simp add: after_at [OF listing_distinct [OF s(1)] ts] applied_content split: option.split)
  next
    case False
    have "transition_at ts k = None"
    proof (cases "transition_at ts k")
      case (Some t)
      then show ?thesis
        using False s(2) transition_at_iff [OF ts] by (auto simp: file_fresh_def list_all_iff)
    qed
    then show ?thesis
      using False listing_content [OF s(1)] listing_content [OF file_applied(2) [OF s]]
      by (simp add: after_at [OF listing_distinct [OF s(1)] ts] applied_content)
  qed
  then show "same_open (afterTransitions (ListOpenFindingsForTask s taskID) ts)
      (ListOpenFindingsForTask (applied_file sha now s taskID fence ts h) taskID)"
    by (simp add: same_open_def)
qed

end
