(* ===== verification/Hlt_Props.thy ===== *)
theory Hlt_Props
  imports Hlt_Reconcile_Props
begin

text \<open>
  The properties of the health evaluator's lifecycle function, over the lemmas of
  \<open>Hlt_Reconcile_Props\<close>, and of the kind table. \<open>controller\<close> is the contract of a
  reconciling controller: a plan computed from a state, applied to it, leaves nothing to plan.
\<close>

section \<open>A reconciling controller\<close>

locale controller =
  fixes plan :: "'s \<Rightarrow> 't list"
    and apply_plan :: "'s \<Rightarrow> 't list \<Rightarrow> 's"
    and ok :: "'s \<Rightarrow> bool"
  assumes settles: "ok s \<Longrightarrow> plan (apply_plan s (plan s)) = []"
    and keeps_ok: "ok s \<Longrightarrow> ok (apply_plan s (plan s))"
    and idle: "ok s \<Longrightarrow> apply_plan s [] = s"
begin

definition pass :: "'s \<Rightarrow> 's" where
  "pass s = apply_plan s (plan s)"

lemma pass_fixed: "ok s \<Longrightarrow> pass (pass s) = pass s"
  using settles [of s] idle [OF keeps_ok, of s] by (simp add: pass_def)

lemma passes: "ok s \<Longrightarrow> (pass ^^ Suc n) s = pass s"
  by (induction n) (simp_all add: pass_fixed)

end

lemma after_open_distinct:
  "distinct (map finding_Key os) \<Longrightarrow> finding_Key ` set os \<inter> fst ` set bm = {} \<Longrightarrow>
   foldl after_open (bm, ks) os = (bm @ map (\<lambda>o'. (finding_Key o', o')) os, ks @ map finding_Key os)"
proof (induction os arbitrary: bm ks)
  case (Cons o' os)
  have n: "finding_Key o' \<notin> fst ` set bm" using Cons.prems by auto
  then have "map_of bm (finding_Key o') = None" by (simp add: map_of_eq_None_iff)
  moreover have "AList.update (finding_Key o') o' bm = bm @ [(finding_Key o', o')]"
    using n by (induction bm) auto
  ultimately have "after_open (bm, ks) o' = (bm @ [(finding_Key o', o')], ks @ [finding_Key o'])"
    by (simp add: after_open_def)
  moreover have "finding_Key ` set os \<inter> fst ` set (bm @ [(finding_Key o', o')]) = {}" using Cons.prems by auto
  ultimately show ?case using Cons.IH [of "bm @ [(finding_Key o', o')]"] Cons.prems by simp
qed simp

lemma collect_open_all:
  "distinct (map finding_Key os) \<Longrightarrow>
   collect_open (map (\<lambda>o'. (finding_Key o', o')) os) (map finding_Key os) = os"
proof (induction os)
  case (Cons o' os)
  have "AList.delete (finding_Key o') (map (\<lambda>o'. (finding_Key o', o')) os) = map (\<lambda>o'. (finding_Key o', o')) os"
    using Cons.prems by (intro delete_id) (simp add: image_image)
  with Cons show ?case by simp
qed simp

lemma after_none: "distinct (map finding_Key open) \<Longrightarrow> afterTransitions open [] = open"
  using after_open_distinct [of "open" "[]" "[]"] by (simp add: afterTransitions_def collect_open_all)

interpretation hc: controller "\<lambda>open. fst (Reconcile r open f)" afterTransitions "\<lambda>open. distinct (map finding_Key open)"
  for r f
  by unfold_locales (simp_all add: reconcile_settled after_distinct after_none)

text \<open>C10. Reconciling is idempotent: whatever the registry and the facts, one pass settles the open
  findings of distinct keys. A second pass with the same facts plans no transition, and any number of
  passes leaves the same open set as one.\<close>

theorem passes_settle:
  assumes "distinct (map finding_Key open)"
  shows "fst (Reconcile r (afterTransitions open (fst (Reconcile r open f))) f) = [] \<and>
    ((\<lambda>os. afterTransitions os (fst (Reconcile r os f))) ^^ Suc n) open
      = afterTransitions open (fst (Reconcile r open f))"
  using hc.settles [OF assms] hc.passes [OF assms, of n r f] by (simp add: hc.pass_def [abs_def])

section \<open>Transitions\<close>

text \<open>C8. A pass that lacks the inputs of a finding may open it or raise its severity, but it never
  closes, rewrites or lowers it: every CLOSE, UPDATE and DOWNGRADE is of a managed kind of this task,
  and every scope the instance is judged from was complete, except for a close with reason CONFIG of a
  finding that exists only because of the object storage the task no longer has. The transitions have
  distinct keys and come sorted.\<close>

theorem incomplete_pass_keeps:
  assumes "t \<in> set (fst (Reconcile r open f))"
  shows "keyTaskID (trKey t) = fTaskID f \<and> distinct (map trKey (fst (Reconcile r open f)))
    \<and> sorted (map transition_order (fst (Reconcile r open f)))
    \<and> (\<exists>spec. map_of r (keyKind (trKey t)) = Some spec \<and> ksManaged spec \<and>
        (trOp t = OpOpen \<or> trOp t = OpEscalate \<or> instanceComplete f spec (trKey t) \<or>
         (trOp t = OpClose \<and> trReason t = ReasonConfig \<and> fNoObjectStorage f \<and> configScoped (trKey t))))"
proof -
  have "keyTaskID (trKey t) = fTaskID f \<and> (\<exists>spec. map_of r (keyKind (trKey t)) = Some spec \<and> ksManaged spec \<and>
        (trOp t = OpOpen \<or> trOp t = OpEscalate \<or> instanceComplete f spec (trKey t) \<or>
         (trOp t = OpClose \<and> trReason t = ReasonConfig \<and> fNoObjectStorage f \<and> configScoped (trKey t))))"
    using transition_from [OF assms]
  proof
    assume "\<exists>x. x \<in> set (wanted r open f) \<and> t = open_of r f x"
    then obtain x where x: "x \<in> set (wanted r open f)" "t = open_of r f x" by blast
    then have "map_of (wanted r open f) (fst x) = Some (snd x)" using wanted_mem [of "fst x" "snd x"] by simp
    from desired_okD(2, 3) [OF wanted_ok this] x show ?thesis by auto
  next
    assume "\<exists>o' \<in> set open. t \<in> set (loop_out r f (wanted r open f) (waived_keys r f) o')"
    then obtain o' where t: "t \<in> set (loop_out r f (wanted r open f) (waived_keys r f) o')" by blast
    then obtain spec where s: "owned_spec r f o' = Some spec"
      and one: "t \<in> set (reconcile_one f (wanted r open f) (waived_keys r f) spec o')"
      by (cases "owned_spec r f o'") (auto simp: loop_out_def)
    have k: "trKey t = finding_Key o'" using loop_out_key [OF t] .
    have "map_of r (fdKind o') = Some spec" "ksManaged spec" "fdTaskID o' = fTaskID f"
      using s by (auto simp: owned_spec_def split: option.splits if_splits)
    moreover have "trOp t = OpOpen \<or> trOp t = OpEscalate \<or> instanceComplete f spec (trKey t) \<or>
         (trOp t = OpClose \<and> trReason t = ReasonConfig \<and> fNoObjectStorage f \<and> configScoped (trKey t))"
    proof (cases "map_of (wanted r open f) (finding_Key o')")
      case None
      then show ?thesis
        using one k by (auto simp: reconcile_one_def close_of_absent_def Let_def split: if_splits)
    next
      case (Some want)
      then show ?thesis
        using one k
        by (auto simp: reconcile_one_def change_of_def change_op_def want_transition_def Let_def split: if_splits)
    qed
    ultimately show ?thesis using k by simp
  qed
  then show ?thesis using transition_keys_distinct by (simp add: reconcile_fst)
qed

text \<open>A new finding of a kind that needs confirmation opens only in the second of two passes that
  derive it: with the candidates of the previous pass as the confirmed keys, and the key not open, an
  OPEN means the previous pass derived that key too; and a first derivation is listed as pending.\<close>

lemma opens_after_two_passes:
  assumes "t \<in> set (fst (Reconcile r open f))" and "trOp t = OpOpen"
    and "needs_confirm r (trKey t, trInstance t)" and "fConfirmed f = Candidates r f0"
    and "\<not> go_get False (fOpen f) (trKey t)"
  shows "trKey t \<in> fst ` set (fst (deriveRaw r f0)) \<and> trKey t \<in> fst ` set (fst (deriveRaw r f))"
proof -
  have "trOp t' \<noteq> OpOpen" if "t' \<in> set (loop_out r f (wanted r open f) (waived_keys r f) o')" for t' o'
    using that close_of_absent_op [of t' f "waived_keys r f" _ o']
    by (auto simp: loop_out_def reconcile_one_def change_of_def change_op_def want_transition_def Let_def
        split: option.splits if_splits)
  then obtain x where x: "x \<in> set (wanted r open f)" "t = open_of r f x" "fst x \<notin> finding_Key ` set open"
    using assms(1, 2) reconcile_loop_from [of t r f "wanted r open f" "waived_keys r f" "[]" "open"]
    by (auto simp: reconcile_fst)
  then have n: "finding_at open (fst x) = None" by (simp add: finding_at_None)
  have raw: "x \<in> set (fst (deriveRaw r f))" and kn: "known f (fst x)"
    using x(1) wanted_mem_raw [of "fst x" "snd x" r "open" f] n assms(3) x(2) by auto
  have "go_get False (Candidates r f0) (fst x)" using kn assms(4, 5) x(2) by (simp add: known_def)
  then have "map_of (Candidates r f0) (fst x) \<noteq> None" by (auto simp: go_get_def split: option.splits)
  then have "fst x \<in> fst ` set (Candidates r f0)" by (simp add: map_of_eq_None_iff)
  then have "fst x \<in> fst ` set (filter (needs_confirm r) (fst (deriveRaw r f0)))"
    unfolding Candidates_def set_map image_image fst_conv .
  then have "fst x \<in> fst ` set (fst (deriveRaw r f0))" by (rule subsetD [rotated]) auto
  with raw x(2) show ?thesis by auto
qed

section \<open>Health\<close>

definition counted :: "Registry \<Rightarrow> Facts \<Rightarrow> Finding \<Rightarrow> bool" where
  "counted r f o' \<longleftrightarrow> \<not> node_gone_skips r f o' \<and> rank (fdSeverity o') \<ge> 2"

lemma note_reason_counted:
  "note_reason r f (w, ks) o' =
     (if \<not> counted r f o' then (w, ks)
      else if rank (fdSeverity o') > w then (rank (fdSeverity o'), [finding_Key o'])
      else if rank (fdSeverity o') = w then (w, ks @ [finding_Key o']) else (w, ks))"
  by (simp add: note_reason_def counted_def Let_def)

lemma foldl_max_ge: "w \<le> foldl max w xs" for w :: int
  by (induction xs arbitrary: w) (auto intro: order_trans max.cobounded1)

lemma foldl_max_eq: "foldl max w xs = Max (insert w (set xs))" for w :: int
proof (induction xs arbitrary: w)
  case (Cons x xs)
  then show ?case by (cases "xs = []") (simp_all add: max.assoc max.left_commute max.commute)
qed simp

lemma reasons_fold:
  "foldl (note_reason r f) (w, ks) os =
     (let W = foldl max w (map (\<lambda>o'. rank (fdSeverity o')) (filter (counted r f) os))
      in (W, (if W = w then ks else []) @ map finding_Key (filter (\<lambda>o'. counted r f o' \<and> rank (fdSeverity o') = W) os)))"
proof (induction os arbitrary: w ks)
  case (Cons o' os)
  show ?case
  proof (cases "counted r f o'")
    case False
    then show ?thesis using Cons.IH [of w ks] by (simp add: note_reason_counted)
  next
    case True
    let ?rk = "rank (fdSeverity o')"
    let ?W = "foldl max (max w ?rk) (map (\<lambda>o'. rank (fdSeverity o')) (filter (counted r f) os))"
    have W: "w \<le> ?W" "?rk \<le> ?W" using foldl_max_ge [of "max w ?rk"] by (auto intro: order_trans)
    consider "?rk > w" | "?rk = w" | "?rk < w" by linarith
    then show ?thesis
    proof cases
      case 1
      then have "max w ?rk = ?rk" by simp
      then show ?thesis using 1 True Cons.IH [of ?rk "[finding_Key o']"] W
        by (auto simp: note_reason_counted Let_def)
    next
      case 2
      then have "max w ?rk = w" by simp
      then show ?thesis using 2 True Cons.IH [of w "ks @ [finding_Key o']"] W
        by (auto simp: note_reason_counted Let_def)
    next
      case 3
      then have "max w ?rk = w" by simp
      then show ?thesis using 3 True Cons.IH [of w ks] W
        by (auto simp: note_reason_counted Let_def)
    qed
  qed
qed simp

definition worst_of :: "Registry \<Rightarrow> Facts \<Rightarrow> Finding list \<Rightarrow> int" where
  "worst_of r f open = Max (insert 0 ((\<lambda>o'. rank (fdSeverity o')) ` {o' \<in> set open. counted r f o'}))"

lemma worst_of_cases:
  "worst_of r f open \<in> {0, 2, 3} \<and>
   (worst_of r f open = 3 \<longleftrightarrow> (\<exists>o' \<in> set open. \<not> node_gone_skips r f o' \<and> fdSeverity o' = Critical)) \<and>
   (worst_of r f open \<ge> 2 \<longleftrightarrow> (\<exists>o' \<in> set open. counted r f o'))"
proof -
  let ?S = "insert 0 ((\<lambda>o'. rank (fdSeverity o')) ` {o' \<in> set open. counted r f o'})"
  have fin: "finite ?S" by simp
  have S: "?S \<subseteq> {0, 2, 3}" by (auto simp: counted_def rank_def)
  have m: "Max ?S \<in> ?S" using fin by (intro Max_in) auto
  have "3 \<in> ?S \<Longrightarrow> Max ?S = 3" using S fin by (intro Max_eqI) auto
  moreover have "Max ?S = 3 \<Longrightarrow> 3 \<in> ?S" using m by simp
  moreover have "3 \<in> ?S \<longleftrightarrow> (\<exists>o' \<in> set open. \<not> node_gone_skips r f o' \<and> fdSeverity o' = Critical)"
    by (force simp: counted_def rank_def image_iff)
  moreover have "2 \<le> Max ?S \<longleftrightarrow> (\<exists>o' \<in> set open. counted r f o')"
    unfolding Max_ge_iff [OF fin insert_not_empty] by (auto simp: counted_def)
  ultimately show ?thesis using m S unfolding worst_of_def by blast
qed

lemma HealthOf_worst:
  "thStatus (HealthOf r open f) =
     (if worst_of r f open = 3 then StatusUnhealthy else if worst_of r f open = 2 then StatusDegraded
      else if unknown_scopes r f \<noteq> [] then StatusUnknown else StatusHealthy)"
  "set (thReasons (HealthOf r open f)) =
     {finding_Key o' | o'. o' \<in> set open \<and> counted r f o' \<and> rank (fdSeverity o') = worst_of r f open}"
proof -
  have W: "foldl max 0 (map (\<lambda>o'. rank (fdSeverity o')) (filter (counted r f) open)) = worst_of r f open"
    by (simp add: foldl_max_eq worst_of_def)
  show "thStatus (HealthOf r open f) =
     (if worst_of r f open = 3 then StatusUnhealthy else if worst_of r f open = 2 then StatusDegraded
      else if unknown_scopes r f \<noteq> [] then StatusUnknown else StatusHealthy)"
    by (simp add: HealthOf_def reasons_fold Let_def W)
  show "set (thReasons (HealthOf r open f)) =
     {finding_Key o' | o'. o' \<in> set open \<and> counted r f o' \<and> rank (fdSeverity o') = worst_of r f open}"
    by (auto simp: HealthOf_def reasons_fold Let_def W)
qed

definition counts :: "Registry \<Rightarrow> Facts \<Rightarrow> Severity \<Rightarrow> Finding \<Rightarrow> bool" where
  "counts r f s o' \<longleftrightarrow> \<not> node_gone_skips r f o' \<and> fdSeverity o' = s"


section \<open>The derived keys\<close>

definition keys_of :: "Desired \<times> (Key \<times> bool) list \<Rightarrow> Key set" where
  "keys_of acc = fst ` set (fst acc) \<union> fst ` set (snd acc)"

lemma fst_update: "fst ` set (AList.update k v m) = insert k (fst ` set m)"
  using dom_update [of k v m] by simp

lemma note_instance_keys:
  "keys_of (note_instance f spec k acc i) = insert (inKey (stamp_instance f spec k i)) (keys_of acc)"
proof -
  let ?i = "stamp_instance f spec k i"
  have "inKey ?i \<in> fst ` set (fst acc)" if "map_of (fst acc) (inKey ?i) = Some p" for p
    using that map_of_SomeD by (metis fst_conv imageI)
  then show ?thesis
    by (auto simp: keys_of_def note_instance_def Let_def case_prod_beta fst_update
        simp del: stamp_key split: option.splits if_splits)
qed

lemma note_instances_keys:
  "keys_of (foldl (note_instance f spec k) acc is) = (inKey \<circ> stamp_instance f spec k) ` set is \<union> keys_of acc"
  by (induction "is" arbitrary: acc) (simp_all add: note_instance_keys del: stamp_key)

definition derived_keys :: "Registry \<Rightarrow> Facts \<Rightarrow> Kind \<Rightarrow> Key set" where
  "derived_keys r f k = (case map_of r k of None \<Rightarrow> {}
     | Some spec \<Rightarrow> (inKey \<circ> stamp_instance f spec k) ` set (derives f spec))"

lemma derive_kind_keys: "keys_of (derive_kind r f acc k) = derived_keys r f k \<union> keys_of acc"
  by (simp add: derive_kind_def derived_keys_def note_instances_keys split: option.split)

lemma derive_kinds_keys: "keys_of (foldl (derive_kind r f) acc ks) = (\<Union>k \<in> set ks. derived_keys r f k) \<union> keys_of acc"
  by (induction ks arbitrary: acc) (auto simp: derive_kind_keys)

lemma raw_keys: "keys_of (deriveRaw r f) = (\<Union>k \<in> fst ` set r. derived_keys r f k)"
proof -
  have "keys_of ([], []) = {}" by (simp add: keys_of_def)
  then show ?thesis using derive_kinds_keys [of r f "([], [])" "kinds r"] by (simp add: deriveRaw_def kinds_def)
qed

text \<open>A waiver takes only instances of a waivable kind away.\<close>

definition only_waivable :: "Registry \<Rightarrow> (Key \<times> bool) list \<Rightarrow> bool" where
  "only_waivable r wk \<longleftrightarrow> (\<forall>k \<in> fst ` set wk. \<exists>spec. map_of r (keyKind k) = Some spec \<and> ksWaivable spec)"

lemma note_instance_waivable:
  assumes "only_waivable r (snd acc)" and "map_of r k = Some spec"
  shows "only_waivable r (snd (note_instance f spec k acc i))"
proof (cases "waived f (stamp_instance f spec k i) spec")
  case True
  then have "ksWaivable spec" by (simp add: waived_def)
  then show ?thesis
    using assms True
    unfolding only_waivable_def note_instance_def Let_def case_prod_beta by (simp add: fst_update del: image_iff)
next
  case False
  then show ?thesis using assms(1) by (simp add: note_instance_def Let_def case_prod_beta split: option.split)
qed

lemma derive_kind_waivable:
  assumes "only_waivable r (snd acc)"
  shows "only_waivable r (snd (derive_kind r f acc k))"
proof (cases "map_of r k")
  case (Some spec)
  have "only_waivable r (snd (foldl (note_instance f spec k) acc is))" for "is"
    by (rule foldl_keeps [of "\<lambda>acc. only_waivable r (snd acc)"]) (auto simp: assms note_instance_waivable Some)
  then show ?thesis by (simp add: derive_kind_def Some)
qed (simp add: derive_kind_def assms)

lemma waived_keys_waivable: "only_waivable r (waived_keys r f)"
  unfolding waived_keys_def deriveRaw_def
  by (rule foldl_keeps [of "\<lambda>acc. only_waivable r (snd acc)"])
    (auto simp: derive_kind_waivable, simp add: only_waivable_def)

lemma not_waived:
  "map_of r (keyKind k) = Some spec \<Longrightarrow> \<not> ksWaivable spec \<Longrightarrow> k \<notin> fst ` set (waived_keys r f)"
  using waived_keys_waivable [of r f] by (force simp: only_waivable_def)

lemma go_get_absent: "k \<notin> fst ` set m \<Longrightarrow> go_get z m k = z"
  by (simp add: go_get_def map_of_eq_None_iff [symmetric])

section \<open>The kind table\<close>

definition registry_specs :: "KindSpec list" where
  "registry_specs = chain_specs @ signal_specs @ state_specs @ verify_specs @ [gtid_hole_spec]"

lemma foldl_update_distinct:
  "distinct (map g xs) \<Longrightarrow> g ` set xs \<inter> fst ` set m = {} \<Longrightarrow>
   foldl (\<lambda>r s. AList.update (g s) (h s) r) m xs = m @ map (\<lambda>s. (g s, h s)) xs"
proof (induction xs arbitrary: m)
  case (Cons x xs)
  have "g x \<notin> fst ` set m" using Cons.prems by auto
  then have "AList.update (g x) (h x) m = m @ [(g x, h x)]" by (induction m) auto
  moreover have "g ` set xs \<inter> fst ` set (m @ [(g x, h x)]) = {}" using Cons.prems by auto
  ultimately show ?case using Cons.IH [of "m @ [(g x, h x)]"] Cons.prems by simp
qed simp

lemmas spec_defs = chain_specs_def signal_specs_def state_specs_def verify_specs_def gtid_hole_spec_def
  chainSpec_def signalSpec_def stateSpec_def verifySpec_def kind_spec_def uploadUnverifiedSpec_def
  sealFactsAbsentSpec_def healthStaleSpec_def

lemma registry_kinds: "map ksKind registry_specs =
  [SegmentUnreadable, SegmentOverlap, SegmentDamaged, ChainIndexGap, LegacyFailback, CheckpointAhead,
   SegmentMissing, OrphanRow, UploadLate, UploadUnverified, SegmentEmptyLeftover, UploadRecordFailed,
   MetadataWriteBlocked, TaskPersistFailed, EventPersistFailed, EventReadFailed, DumpCleanupPersistFailed,
   DiskListFailed, RetentionRecordFailed, RetryLoopFailed, OpenTailCutFailed, MetricSourceFailed,
   TaskRecordsFailed, MetaUnreachable, HealthStoreUnavailable, DumpStalled, TransitionStalled, TaskFailed,
   TaskUnadopted, TaskNoProgress, SourceUnreachable, SealFactsAbsent, HealthStale, HealthStoreDegraded,
   VerifyFailed, ObjectCorrupt, UploadClockSkew, LocalUnreadable, DrillFailed, DrillRefused, GTIDHole]"
  by (simp add: registry_specs_def spec_defs)

lemma registry_kinds_distinct: "distinct (map ksKind registry_specs)"
  unfolding registry_kinds by (simp add: health_kinds)

lemma DefaultRegistry_specs: "DefaultRegistry = map (\<lambda>s. (ksKind s, managed_spec s)) registry_specs"
  using foldl_update_distinct [OF registry_kinds_distinct, of "[]" managed_spec]
  by (simp add: DefaultRegistry_def registry_specs_def)

definition spec_ok :: "Kind \<times> KindSpec \<Rightarrow> bool" where
  "spec_ok x \<longleftrightarrow> ksKind (snd x) = fst x \<and> ksScopes (snd x) \<noteq> [] \<and>
     list_all (\<lambda>s. s \<in> {ScopeChainLocal, ScopeChainObjects, ScopeTaskState, ScopeSignals, ScopeStore, ScopeVerify})
       (ksScopes (snd x)) \<and>
     ksSeverity (snd x) \<in> {Critical, Warning, Info} \<and> 0 < ksVersion (snd x) \<and>
     ksManaged (snd x) = (fst x \<in> set ManagedKinds) \<and>
     (if ksManaged (snd x) then ksDerive (snd x) \<noteq> None else \<not> ksConfirm (snd x))"

lemma managed_spec_simps [simp]:
  "ksKind (managed_spec s) = ksKind s" "ksScopes (managed_spec s) = ksScopes s"
  "ksSeverity (managed_spec s) = ksSeverity s" "ksVersion (managed_spec s) = ksVersion s"
  "ksDerive (managed_spec s) = ksDerive s" "ksClear (managed_spec s) = ksClear s"
  "ksWaivable (managed_spec s) = ksWaivable s"
  "ksManaged (managed_spec s) = (ksKind s \<in> set ManagedKinds)"
  "ksConfirm (managed_spec s) = (ksKind s \<in> set p25Managed \<or> ksKind s = OrphanRow)"
  by (auto simp: managed_spec_def ManagedKinds_def)

lemmas managed_defs = ManagedKinds_def p23Managed_def p24Managed_def p25Managed_def p253Managed_def
  p26dManaged_def p254Managed_def p27Managed_def p261Managed_def

lemma unmanaged_kinds:
  "filter (\<lambda>k. k \<notin> set ManagedKinds) (map ksKind registry_specs) =
     [HealthStoreDegraded, VerifyFailed, ObjectCorrupt, UploadClockSkew, LocalUnreadable, DrillFailed, DrillRefused]"
  unfolding registry_kinds by (simp add: managed_defs health_kinds)

lemma confirm_managed: "k \<in> set p25Managed \<or> k = OrphanRow \<Longrightarrow> k \<in> set ManagedKinds"
  by (auto simp: ManagedKinds_def p254Managed_def)

lemma unmanaged_derive: "s \<in> set registry_specs \<Longrightarrow> ksDerive s = None \<Longrightarrow> ksKind s \<notin> set ManagedKinds"
  unfolding registry_specs_def spec_defs
  by (simp; elim disjE; simp add: managed_defs health_kinds)

lemma specs_shape:
  "list_all (\<lambda>s. ksScopes s \<noteq> [] \<and>
     list_all (\<lambda>x. x \<in> {ScopeChainLocal, ScopeChainObjects, ScopeTaskState, ScopeSignals, ScopeStore, ScopeVerify})
       (ksScopes s) \<and> ksSeverity s \<in> {Critical, Warning, Info} \<and> 0 < ksVersion s) registry_specs"
  by (simp add: registry_specs_def spec_defs)

lemma registry_spec_ok: "list_all spec_ok DefaultRegistry"
  using specs_shape unmanaged_derive confirm_managed
  by (auto simp: DefaultRegistry_specs list_all_iff spec_ok_def)

lemma registry_distinct: "distinct (map fst DefaultRegistry)"
  using registry_kinds_distinct by (simp add: DefaultRegistry_specs comp_def)

section \<open>Severities of what is derived\<close>

definition sev_ok :: "Instance \<Rightarrow> bool" where
  "sev_ok i \<longleftrightarrow> inSeverity i \<in> {[], Critical, Warning, Info}"

lemma instance_of_sev [simp]: "inSeverity (instance_of s d) = []"
  by (simp add: instance_of_def)

lemma signalDerive_sev: "list_all sev_ok (signalDerive k f)"
  by (auto simp: signalDerive_def Let_def sev_ok_def list_all_iff)

lemma chainDerive_sev: "list_all sev_ok (chainDerive k f)"
  by (auto simp: chainDerive_def chain_instance_def upload_late_severity_def Let_def sev_ok_def list_all_iff
      split: option.split)

lemma state_derives_sev:
  "list_all sev_ok (dumpStalledDerive f)" "list_all sev_ok (transitionStalledDerive f)"
  "list_all sev_ok (taskFailedDerive f)" "list_all sev_ok (taskUnadoptedDerive f)"
  "list_all sev_ok (noProgressDerive f)" "list_all sev_ok (sourceUnreachableDerive f)"
  "list_all sev_ok (sealFactsAbsentDerive f)" "list_all sev_ok (healthStaleDerive f)"
  by (auto simp: dumpStalledDerive_def transitionStalledDerive_def taskFailedDerive_def taskUnadoptedDerive_def
      noProgressDerive_def sourceUnreachableDerive_def sealFactsAbsentDerive_def healthStaleDerive_def stale_one_def
      sev_ok_def list_all_iff Let_def split: option.splits if_splits)

lemma specs_derive_sev: "s \<in> set registry_specs \<Longrightarrow> ksDerive s = Some d \<Longrightarrow> list_all sev_ok (d f)"
  unfolding registry_specs_def spec_defs
  by (simp, elim disjE; auto simp: signalDerive_sev chainDerive_sev state_derives_sev)

definition known_severities :: "Desired \<Rightarrow> bool" where
  "known_severities d \<longleftrightarrow> list_all (\<lambda>x. inSeverity (snd x) \<in> {Critical, Warning, Info}) d"

lemma note_instance_known:
  "known_severities (fst acc) \<Longrightarrow> sev_ok i \<Longrightarrow> ksSeverity spec \<in> {Critical, Warning, Info} \<Longrightarrow>
   known_severities (fst (note_instance f spec k acc i))"
  using set_alist_update_subset [of "inKey (stamp_instance f spec k i)" "stamp_instance f spec k i" "fst acc"]
  by (auto simp: known_severities_def list_all_iff note_instance_def Let_def case_prod_beta sev_ok_def
      stamp_instance_def split: option.splits if_splits)

lemma note_instances_known:
  "known_severities (fst acc) \<Longrightarrow> list_all sev_ok is \<Longrightarrow> ksSeverity spec \<in> {Critical, Warning, Info} \<Longrightarrow>
   known_severities (fst (foldl (note_instance f spec k) acc is))"
proof (induction "is" arbitrary: acc)
  case (Cons i "is")
  then show ?case using note_instance_known [OF Cons.prems(1), of i spec f k] by simp
qed simp

lemma derive_kind_known:
  assumes "known_severities (fst acc)"
  shows "known_severities (fst (derive_kind DefaultRegistry f acc k))"
proof (cases "map_of DefaultRegistry k")
  case (Some spec)
  then obtain s where s: "s \<in> set registry_specs" "spec = managed_spec s"
    by (auto simp: DefaultRegistry_specs dest!: map_of_SomeD)
  then have "list_all sev_ok (derives f spec)"
    using specs_derive_sev by (auto simp: derives_def split: option.split)
  moreover have "ksSeverity spec \<in> {Critical, Warning, Info}"
    using s specs_shape by (auto simp: list_all_iff)
  ultimately have "known_severities (fst (foldl (note_instance f spec k) acc (derives f spec)))"
    using note_instances_known [OF assms] by blast
  then show ?thesis by (simp add: derive_kind_def Some)
qed (simp add: derive_kind_def assms)

lemma raw_known: "known_severities (fst (deriveRaw DefaultRegistry f))"
  unfolding deriveRaw_def
  by (rule foldl_keeps [of "\<lambda>acc. known_severities (fst acc)"]) (auto simp: derive_kind_known, simp add: known_severities_def)

text \<open>C35. The kind table is well formed: its forty-one kinds are distinct, every entry carries its own
  kind, at least one known scope, a known severity and a positive version, exactly the kinds listed as
  managed are managed and each of them has a derivation, no unmanaged kind asks for confirmation;
  every violation kind of the chain maps to a managed kind; and whatever the facts are, every derived
  finding has one of the three severities.\<close>

theorem registry_typed:
  "distinct (map fst DefaultRegistry) \<and> length DefaultRegistry = 41 \<and> list_all spec_ok DefaultRegistry
   \<and> list_all (\<lambda>k. map_of DefaultRegistry k \<noteq> None) (ManagedKinds @ LegacyKinds)
   \<and> list_all (\<lambda>v. case FromAssurance v of None \<Rightarrow> False | Some k \<Rightarrow> k \<in> set ManagedKinds) AllKinds
   \<and> list_all (\<lambda>x. inSeverity (snd x) \<in> {Critical, Warning, Info}) (Desire DefaultRegistry f)"
proof -
  have "length DefaultRegistry = 41"
    using arg_cong [OF registry_kinds, of length] by (simp add: DefaultRegistry_specs)
  moreover have "list_all (\<lambda>k. k \<in> set (map ksKind registry_specs)) (ManagedKinds @ LegacyKinds)"
    unfolding registry_kinds by (simp add: managed_defs LegacyKinds_def)
  then have "list_all (\<lambda>k. map_of DefaultRegistry k \<noteq> None) (ManagedKinds @ LegacyKinds)"
    by (simp add: list_all_iff DefaultRegistry_specs map_of_eq_None_iff image_image image_iff)
  moreover have "list_all (\<lambda>v. case FromAssurance v of None \<Rightarrow> False | Some k \<Rightarrow> k \<in> set ManagedKinds) AllKinds"
    by (simp add: AllKinds_def FromAssurance_def fromAssurance_def violation_kinds managed_defs)
  moreover have "known_severities (Desire DefaultRegistry f)"
    using raw_known [of f] by (auto simp: Desire_def derive_def case_prod_beta known_severities_def list_all_iff)
  ultimately show ?thesis using registry_distinct registry_spec_ok by (simp add: known_severities_def)
qed

section \<open>From stalled to unreachable\<close>

lemma registry_lookup: "s \<in> set registry_specs \<Longrightarrow> map_of DefaultRegistry (ksKind s) = Some (managed_spec s)"
  by (rule map_of_is_SomeI [OF registry_distinct]) (simp add: DefaultRegistry_specs)

lemma raw_key_kind:
  assumes "k \<in> keys_of (deriveRaw r f)"
  obtains spec i where "map_of r (keyKind k) = Some spec" "i \<in> set (derives f spec)"
    "k = \<lparr>keyTaskID = fTaskID f, keyKind = keyKind k, keySubject = keySubject (inKey i)\<rparr>"
  using assms by (auto simp: raw_keys derived_keys_def split: option.splits)

lemma wanted_raw: "k \<in> fst ` set (wanted r open f) \<Longrightarrow> k \<in> keys_of (deriveRaw r f)"
proof -
  assume "k \<in> fst ` set (wanted r open f)"
  then obtain i where "(k, i) \<in> set (wanted r open f)" by auto
  then have "(k, i) \<in> set (fst (deriveRaw r f))" by (simp add: wanted_mem_raw)
  then show ?thesis unfolding keys_of_def by (metis UnI1 fst_conv imageI)
qed

definition stamped :: "Registry \<Rightarrow> Facts \<Rightarrow> Key \<times> Instance \<Rightarrow> bool" where
  "stamped r f x \<longleftrightarrow> (\<exists>spec i. map_of r (keyKind (fst x)) = Some spec \<and> i \<in> set (derives f spec)
     \<and> snd x = stamp_instance f spec (keyKind (fst x)) i)"

lemma note_instance_stamped:
  assumes "\<forall>x \<in> set (fst acc). stamped r f x" and "map_of r k = Some spec" and "i \<in> set (derives f spec)"
  shows "\<forall>x \<in> set (fst (note_instance f spec k acc i)). stamped r f x"
proof -
  let ?i = "stamp_instance f spec k i"
  have "stamped r f (inKey ?i, ?i)" using assms(2, 3) by (auto simp: stamped_def)
  then have "\<forall>x \<in> set (AList.update (inKey ?i) ?i (fst acc)). stamped r f x"
    using set_alist_update_subset [of "inKey ?i" ?i "fst acc"] assms(1) by blast
  with assms(1) show ?thesis
    by (simp add: note_instance_def Let_def case_prod_beta del: stamp_key split: option.split)
qed

lemma note_instances_stamped:
  assumes "\<forall>x \<in> set (fst acc). stamped r f x" and "map_of r k = Some spec" and "set is \<subseteq> set (derives f spec)"
  shows "\<forall>x \<in> set (fst (foldl (note_instance f spec k) acc is)). stamped r f x"
  using assms(1, 3)
proof (induction "is" arbitrary: acc)
  case (Cons i "is")
  then have "i \<in> set (derives f spec)" "set is \<subseteq> set (derives f spec)" by simp_all
  then show ?case using Cons.IH [OF note_instance_stamped [OF Cons.prems(1) assms(2)]] by simp
qed simp

lemma raw_stamped: "x \<in> set (fst (deriveRaw r f)) \<Longrightarrow> stamped r f x"
proof -
  have "\<forall>x \<in> set (fst (derive_kind r f acc k)). stamped r f x" if "\<forall>x \<in> set (fst acc). stamped r f x" for acc k
  proof (cases "map_of r k")
    case (Some spec)
    then show ?thesis using note_instances_stamped [OF that Some order.refl] by (simp add: derive_kind_def)
  qed (simp add: derive_kind_def that)
  then have "\<forall>x \<in> set (fst (deriveRaw r f)). stamped r f x"
    unfolding deriveRaw_def by (intro foldl_keeps [of "\<lambda>acc. \<forall>x \<in> set (fst acc). stamped r f x"]) simp_all
  then show "x \<in> set (fst (deriveRaw r f)) \<Longrightarrow> stamped r f x" by blast
qed

text \<open>A derived instance of a kind that needs no confirmation and cannot be waived is wanted.\<close>

lemma derived_wanted:
  assumes r: "map_of r k = Some spec" and d: "i \<in> set (derives f spec)"
    and plain: "\<not> ksWaivable spec" "\<not> ksConfirm spec" "\<And>i. i \<in> set (derives f spec) \<Longrightarrow> \<not> inConfirm i"
  shows "\<lparr>keyTaskID = fTaskID f, keyKind = k, keySubject = keySubject (inKey i)\<rparr> \<in> fst ` set (wanted r open f)"
proof -
  let ?k = "\<lparr>keyTaskID = fTaskID f, keyKind = k, keySubject = keySubject (inKey i)\<rparr>"
  have "k \<in> fst ` set r" using r by (metis fst_conv imageI map_of_SomeD)
  then have "?k \<in> keys_of (deriveRaw r f)" using r d by (force simp: raw_keys derived_keys_def)
  moreover have "?k \<notin> fst ` set (waived_keys r f)" by (rule not_waived [of r _ spec]) (use r plain in simp_all)
  ultimately obtain j where j: "(?k, j) \<in> set (fst (deriveRaw r f))" by (auto simp: keys_of_def waived_keys_def)
  have "\<not> inConfirm j" using raw_stamped [OF j] r plain(3) by (auto simp: stamped_def stamp_instance_def)
  then have "\<not> needs_confirm r (?k, j)" using r plain(2) by (simp add: needs_confirm_def)
  then have "(?k, j) \<in> set (wanted r open f)" using j by (simp add: wanted_mem_raw)
  then show ?thesis by force
qed

lemma dump_stalled_spec:
  obtains s where "map_of DefaultRegistry DumpStalled = Some s" "ksScopes s = [ScopeSignals, ScopeTaskState]"
    "ksDerive s = Some dumpStalledDerive" "ksKind s = DumpStalled" "ksManaged s" "\<not> ksWaivable s"
    "clHolds (ksClear s) = Some dumpStalledCleared" "clReason (ksClear s) = Some dumpStalledReason"
    "clHoldDown (ksClear s) = 0"
proof -
  have m: "DumpStalled \<in> set ManagedKinds" by (simp add: managed_defs)
  have "hd state_specs \<in> set registry_specs" by (simp add: registry_specs_def state_specs_def)
  note lk = registry_lookup [OF this]
  show thesis
    by (rule that [of "managed_spec (hd state_specs)"])
      (use lk in \<open>simp_all add: state_specs_def kind_spec_def m\<close>)
qed

lemma source_unreachable_spec:
  obtains s where "map_of DefaultRegistry SourceUnreachable = Some s" "ksScopes s = [ScopeTaskState, ScopeSignals]"
    "ksDerive s = Some sourceUnreachableDerive" "ksManaged s" "\<not> ksWaivable s" "\<not> ksConfirm s"
proof -
  have m: "SourceUnreachable \<in> set ManagedKinds" by (simp add: managed_defs)
  have c: "SourceUnreachable \<notin> set p25Managed" "SourceUnreachable \<noteq> OrphanRow"
    by (simp_all add: p25Managed_def health_kinds)
  have "state_specs ! 5 \<in> set registry_specs" by (simp add: registry_specs_def state_specs_def)
  note lk = registry_lookup [OF this]
  show thesis
    by (rule that [of "managed_spec (state_specs ! 5)"])
      (use lk in \<open>simp_all add: state_specs_def kind_spec_def m c\<close>)
qed

lemma unreachable_derives:
  assumes "unreachable f"
  shows "dumpStalledDerive f = []"
    "\<exists>i. sourceUnreachableDerive f = [i] \<and> keySubject (inKey i) = [] \<and> \<not> inConfirm i"
proof -
  obtain l where l: "liveness f = Some l" using assms by (auto simp: unreachable_def split: option.splits)
  show "dumpStalledDerive f = []"
    using assms stalled_unreachable [of f] by (simp add: dumpStalledDerive_def l)
  show "\<exists>i. sourceUnreachableDerive f = [i] \<and> keySubject (inKey i) = [] \<and> \<not> inConfirm i"
    using assms by (simp add: sourceUnreachableDerive_def l instance_of_def subject_key_def)
qed

lemma handed_off:
  assumes u: "unreachable f" and c: "complete f ScopeSignals" "complete f ScopeTaskState"
    and d: "distinct (map finding_Key open)" and o: "o' \<in> set open"
    and k: "finding_Key o' = \<lparr>keyTaskID = fTaskID f, keyKind = DumpStalled, keySubject = []\<rparr>"
  shows "closeOf o' (the (map_of DefaultRegistry DumpStalled)) ReasonHandedOff f
      \<in> set (fst (Reconcile DefaultRegistry open f))
    \<and> finding_Key o' \<notin> fst ` set (snd (Reconcile DefaultRegistry open f))
    \<and> \<lparr>keyTaskID = fTaskID f, keyKind = SourceUnreachable, keySubject = []\<rparr>
        \<in> fst ` set (snd (Reconcile DefaultRegistry open f))"
proof -
  let ?r = DefaultRegistry and ?w = "wanted DefaultRegistry open f"
  have w: "snd (Reconcile ?r open f) = ?w" by (simp add: Reconcile_def derive_split case_prod_beta)
  obtain s where s: "map_of ?r DumpStalled = Some s" "ksScopes s = [ScopeSignals, ScopeTaskState]"
    "ksDerive s = Some dumpStalledDerive" "ksKind s = DumpStalled" "ksManaged s" "\<not> ksWaivable s"
    "clHolds (ksClear s) = Some dumpStalledCleared" "clReason (ksClear s) = Some dumpStalledReason"
    "clHoldDown (ksClear s) = 0" by (rule dump_stalled_spec)
  have gone: "finding_Key o' \<notin> fst ` set ?w"
  proof
    assume "finding_Key o' \<in> fst ` set ?w"
    then have "finding_Key o' \<in> keys_of (deriveRaw ?r f)" by (rule wanted_raw)
    then show False
      by (rule raw_key_kind) (use k s unreachable_derives(1) [OF u] in \<open>auto simp: derives_def split: if_splits\<close>)
  qed
  then have n: "map_of ?w (finding_Key o') = None" by (simp add: map_of_eq_None_iff)
  have key: "fdTaskID o' = fTaskID f" "fdKind o' = DumpStalled" "fdSubject o' = []"
    using k by (simp_all add: finding_Key_def)
  have "\<not> configScoped (finding_Key o')"
    by (simp add: configScoped_def key IsObjectSubject_def has_suffix_def objectSuffix_def health_kinds)
  moreover have "instanceComplete f s (finding_Key o')"
    using c by (simp add: instanceComplete_def key IsObjectSubject_def has_suffix_def objectSuffix_def s allComplete_def
        health_kinds)
  moreover have "\<not> go_get False (waived_keys ?r f) (finding_Key o')"
    using not_waived [of ?r "finding_Key o'" s f] s by (simp add: key go_get_absent)
  moreover have "\<not> stalled f" using u stalled_unreachable by blast
  ultimately have "close_of_absent f (waived_keys ?r f) s o' = [closeOf o' s ReasonHandedOff f]"
    using s u by (simp add: close_of_absent_def still_holds_def held_down_def close_reason_def dumpStalledCleared_def
        dumpStalledReason_def ReasonHandedOff_def)
  then have "loop_out ?r f ?w (waived_keys ?r f) o' = [closeOf o' s ReasonHandedOff f]"
    using n s by (simp add: loop_out_def owned_spec_def key reconcile_one_def)
  then have "closeOf o' s ReasonHandedOff f \<in> set (fst (Reconcile ?r open f))"
    using transition_mem [OF d] o by fastforce
  moreover obtain s2 where s2: "map_of ?r SourceUnreachable = Some s2" "ksScopes s2 = [ScopeTaskState, ScopeSignals]"
    "ksDerive s2 = Some sourceUnreachableDerive" "ksManaged s2" "\<not> ksWaivable s2" "\<not> ksConfirm s2"
    by (rule source_unreachable_spec)
  obtain i where i: "sourceUnreachableDerive f = [i]" "keySubject (inKey i) = []" "\<not> inConfirm i"
    using unreachable_derives(2) [OF u] by blast
  have "\<lparr>keyTaskID = fTaskID f, keyKind = SourceUnreachable, keySubject = keySubject (inKey i)\<rparr> \<in> fst ` set ?w"
    by (rule derived_wanted [OF s2(1)]) (use s2 c i in \<open>auto simp: derives_def\<close>)
  ultimately show ?thesis using gone i(2) s(1) by (simp add: w)
qed

text \<open>When the source is unreachable, a pass with complete signals and task state closes an open
  DUMP_STALLED finding of the task with reason HANDED_OFF and wants SOURCE_UNREACHABLE in the same
  pass, so the outage is never without an open finding; DUMP_STALLED itself is not wanted.\<close>

lemma stall_handed_off:
  assumes u: "unreachable f" and c: "complete f ScopeSignals" "complete f ScopeTaskState"
    and d: "distinct (map finding_Key open)" and o: "o' \<in> set open"
    and k: "finding_Key o' = \<lparr>keyTaskID = fTaskID f, keyKind = DumpStalled, keySubject = []\<rparr>"
  shows "closeOf o' (the (map_of DefaultRegistry DumpStalled)) ReasonHandedOff f
      \<in> set (fst (Reconcile DefaultRegistry open f))
    \<and> finding_Key o' \<notin> fst ` set (snd (Reconcile DefaultRegistry open f))
    \<and> \<lparr>keyTaskID = fTaskID f, keyKind = SourceUnreachable, keySubject = []\<rparr>
        \<in> fst ` set (snd (Reconcile DefaultRegistry open f))"
  by (rule handed_off [OF assms])

section \<open>A pass on a concrete task\<close>

text \<open>A running task of node \<open>n1\<close> whose source stopped answering: the last byte was read at second
  100, an attempt failed at second 200, and DUMP_STALLED is open.\<close>

definition no_facts :: Facts where
  "no_facts = \<lparr>fTaskID = ''1'', fNow = 0, fTask = None, fChain = None, fSignals = [], fStore = None, fWaivers = [],
     fComplete = [], fAbsentSince = [], fOpen = [], fConfirmed = [], fProduced = None, fObjectSegments = [],
     fNoObjectStorage = False, fObjectConfigAudit = [], fUploadLateCriticalAfter = 0, fProbes = [], fStaleSignals = [],
     fUnreachableAfter = 0, fStalledAfter = 0, fDumpStalledAfter = 0, fNoProgressAfter = 0, fUnownedAfter = 0,
     fStaleAfter = 0, fHealthEvaluatedAt = None, fHealthKnownSince = [], fNodeGone = False, fDirectoryNode = [],
     fNameChainOwner = False\<rparr>"

definition demo_task :: TaskFacts where
  "demo_task = \<lparr>tfState = stateRunning, tfDesired = desiredRun, tfOwner = ''n1'', tfEpoch = 1, tfRunHere = True,
     tfLeaseExpired = False, tfStateSince = 0, tfLastError = [], tfFailedCurrent = False, tfOwnedElsewhere = False,
     tfUnadopted = False, tfLiveness = Some \<lparr>lvLastRead = 100 * second, lvLastFailure = 200 * second,
       lvFailureDetail = ''refused''\<rparr>, tfProgress = None\<rparr>"

definition demo_facts :: Facts where
  "demo_facts = no_facts\<lparr>fNow := 210 * second, fTask := Some demo_task,
     fComplete := [(ScopeSignals, True), (ScopeTaskState, True)]\<rparr>"

definition demo_finding :: Finding where
  "demo_finding = zero_finding\<lparr>fdTaskID := ''1'', fdKind := DumpStalled, fdSeverity := Warning, fdDetail := ''quiet''\<rparr>"

lemma demo_unreachable: "unreachable demo_facts" "complete demo_facts ScopeSignals" "complete demo_facts ScopeTaskState"
  by (simp_all add: unreachable_def liveness_def demo_facts_def no_facts_def demo_task_def desiresRun_def
      unreachableAfter_def DefaultUnreachableAfter_def time_sub_def go_defs complete_def go_get_def)

lemma demo_key: "finding_Key demo_finding = \<lparr>keyTaskID = fTaskID demo_facts, keyKind = DumpStalled, keySubject = []\<rparr>"
  by (simp add: demo_finding_def demo_facts_def no_facts_def zero_finding_def finding_Key_def)

lemma demo_distinct: "distinct (map finding_Key [demo_finding])" "demo_finding \<in> set [demo_finding]"
  by simp_all

lemmas demo_handed_off = handed_off [OF demo_unreachable demo_distinct demo_key]

theorem passes_settle_witness:
  "distinct (map finding_Key [demo_finding]) \<and>
   fst (Reconcile DefaultRegistry
     (afterTransitions [demo_finding] (fst (Reconcile DefaultRegistry [demo_finding] demo_facts))) demo_facts) = []"
  using passes_settle [OF demo_distinct(1), of DefaultRegistry demo_facts 0] demo_distinct by blast

theorem incomplete_pass_keeps_witness:
  "keyTaskID (trKey (closeOf demo_finding (the (map_of DefaultRegistry DumpStalled)) ReasonHandedOff demo_facts))
     = fTaskID demo_facts"
  using incomplete_pass_keeps [OF conjunct1 [OF demo_handed_off]] by blast

lemma demo_complete:
  assumes "o' \<in> set [demo_finding]" and "owned_spec DefaultRegistry demo_facts o' = Some spec"
  shows "instanceComplete demo_facts spec (finding_Key o') \<and> \<not> still_holds demo_facts spec (finding_Key o')
      \<and> \<not> held_down demo_facts spec (finding_Key o')"
proof -
  obtain s where s: "map_of DefaultRegistry DumpStalled = Some s" "ksScopes s = [ScopeSignals, ScopeTaskState]"
    "ksDerive s = Some dumpStalledDerive" "ksKind s = DumpStalled" "ksManaged s" "\<not> ksWaivable s"
    "clHolds (ksClear s) = Some dumpStalledCleared" "clReason (ksClear s) = Some dumpStalledReason"
    "clHoldDown (ksClear s) = 0" by (rule dump_stalled_spec)
  have o: "o' = demo_finding" "fdKind o' = DumpStalled" using assms(1) by (simp_all add: demo_finding_def)
  then have "spec = s" using assms(2) s(1) by (simp add: owned_spec_def split: if_splits)
  then show ?thesis
    using s demo_unreachable stalled_unreachable [of demo_facts]
    by (simp add: o demo_key instanceComplete_def IsObjectSubject_def has_suffix_def objectSuffix_def allComplete_def
        still_holds_def held_down_def dumpStalledCleared_def health_kinds)
qed


end
