(* ===== verification/Hlt_Store_Claims.thy ===== *)
theory Hlt_Store_Claims
  imports Hlt_Store_Props Hlt_Props
begin

text \<open>
  The properties of health persistence, over the interpretation \<open>fs\<close> of \<open>finding_store\<close> on the
  file store, with a concrete file they are applied to.
\<close>

section \<open>One writer\<close>

text \<open>C7. The fence admits one writer per lease: two cluster writes accepted against the same lease row
  have its epoch; two holders are the same node, and while a holder with a node id is accepted no
  proxy and no delegated write is. An accepted write is never older than the fence stored before it,
  and a delegated write comes from the node recorded as the chain owner.\<close>

theorem fence_one_writer:
  assumes "feMode f = FenceCluster" "CheckFence f lease stored = None"
    and "feMode g = FenceCluster" "CheckFence g lease stored = None"
  shows "feTaskEpoch f = feTaskEpoch g \<and> lease \<noteq> None
    \<and> (if feProxy f \<or> feDelegated f then
         feDelegated f \<longrightarrow> (\<exists>s. stored = Some s \<and> sdChainOwner s = feNode f \<and> feNode f \<noteq> [])
       else if feProxy g \<or> feDelegated g then feNode f = [] else feNode f = feNode g)
    \<and> (\<forall>s. stored = Some s \<longrightarrow> sdMode s = FenceCluster \<longrightarrow> sdEpoch s \<le> feTaskEpoch f)"
proof -
  from assms(1, 2) obtain l where l: "lease = Some l" "fence_lease f l = None" "fence_stored f l stored = None"
    "fence_delegated f stored = None" by (rule fence_cluster)
  from assms(3, 4) obtain m where "lease = Some m" "fence_lease g m = None" by (rule fence_cluster)
  then have g: "fence_lease g l = None" using l(1) by simp
  have "feTaskEpoch f = feTaskEpoch g" using fence_lease_ok(1) [OF l(2)] fence_lease_ok(1) [OF g] by simp
  moreover have "feDelegated f \<longrightarrow> (\<exists>s. stored = Some s \<and> sdChainOwner s = feNode f \<and> feNode f \<noteq> [])"
    using l(4) by (auto simp: fence_delegated_def split: option.splits if_splits)
  moreover have "\<forall>s. stored = Some s \<longrightarrow> sdMode s = FenceCluster \<longrightarrow> sdEpoch s \<le> feTaskEpoch f"
    using l(3) by (auto simp: fence_stored_def split: if_splits)
  ultimately show ?thesis
    using l(1) fence_lease_ok(2, 3) [OF l(2)] fence_lease_ok(2, 3) [OF g] by auto
qed

definition demo_fence :: Fence where
  "demo_fence = \<lparr>feMode = FenceCluster, feTaskEpoch = 2, feNode = ''n1'', feInstance = [], feProxy = False,
     feDelegated = False, feChainVerified = True\<rparr>"

theorem fence_one_writer_witness:
  "CheckFence demo_fence (Some \<lparr>hlOwner = ''n1'', hlEpoch = 2, hlExpired = False\<rparr>) None = None
   \<and> CheckFence (demo_fence\<lparr>feNode := ''n2''\<rparr>) (Some \<lparr>hlOwner = ''n1'', hlEpoch = 2, hlExpired = False\<rparr>) None
       = Some ErrFenced
   \<and> feTaskEpoch demo_fence = 2"
proof -
  have ok: "feMode demo_fence = FenceCluster"
    "CheckFence demo_fence (Some \<lparr>hlOwner = ''n1'', hlEpoch = 2, hlExpired = False\<rparr>) None = None"
    by (simp_all add: demo_fence_def CheckFence_def fence_lease_def fence_stored_def fence_delegated_def health_texts)
  from fence_one_writer [OF ok ok] show ?thesis
    by (simp add: ok) (simp add: demo_fence_def CheckFence_def fence_lease_def health_texts)
qed

section \<open>Replays\<close>

text \<open>C30. Applying is idempotent across a retry: when the transitions of an apply that was saved are
  applied again to the saved file, at any later time and with any verdict, every transition is
  recognised by its digest and gets generation 0, and the findings, the log and the generation of the
  task stay as they are, as long as the log is below its cap.\<close>

theorem replay_changes_nothing:
  assumes first: "ApplyTransitions sha now (Inr st) save taskID fence ts h = Inr (gens, st')"
    and again: "ApplyTransitions sha now' (Inr st') save' taskID fence' ts h' = Inr (gens', st'')"
    and room: "length (fsTransitions st) + length ts \<le> maxFileTransitions"
  shows "gens' = replicate (length ts) 0 \<and> fsFindings st'' = fsFindings st' \<and> fsTransitions st'' = fsTransitions st'
    \<and> generation_of st'' taskID = generation_of st' taskID"
proof -
  let ?s = "foldl (apply_step sha taskID now) (start_state st taskID) ts"
  have "length (asLog ?s) \<le> maxFileTransitions"
    using apply_log_length [of sha taskID now "start_state st taskID" ts] room by (simp add: start_state_def)
  then have st': "fsFindings st' = asFindings ?s" "fsTransitions st' = asLog ?s" "generation_of st' taskID = asGen ?s"
    using apply_result(2) [OF first]
    by (simp_all add: applied_file_def Let_def trim_log_def generation_of_def alist_simps)
  have d: "set (asDigests (start_state st' taskID)) = set (asDigests ?s)"
    using start_digests [of st' taskID] st'(2)
      apply_steps_digests [OF start_digests [of st taskID], of sha now ts]
    by (simp add: start_state_def)
  have "TransitionDigest sha taskID ` set ts \<subseteq> set (asDigests (start_state st' taskID))"
    unfolding d using apply_steps_seen by blast
  note replay = apply_steps_replay [OF this, of now']
  have len: "length (fsTransitions st') \<le> maxFileTransitions"
    using \<open>length (asLog ?s) \<le> maxFileTransitions\<close> st'(2) by simp
  have st'': "st'' = applied_file sha now' st' taskID fence' ts h'" by (rule apply_result(2) [OF again])
  have g: "gens' = asOut (foldl (apply_step sha taskID now') (start_state st' taskID) ts)"
    by (rule apply_result(1) [OF again])
  have s: "asFindings (start_state st' taskID) = fsFindings st'" "asLog (start_state st' taskID) = fsTransitions st'"
    "asGen (start_state st' taskID) = generation_of st' taskID" "asOut (start_state st' taskID) = []"
    by (simp_all add: start_state_def)
  have gen: "generation_of st'' taskID = asGen (foldl (apply_step sha taskID now') (start_state st' taskID) ts)"
    by (simp add: st'' applied_file_def Let_def generation_of_def alist_simps)
  show ?thesis
    using len by (simp add: g gen replay s) (simp add: st'' applied_file_def Let_def replay s trim_log_def)
qed

definition demo_open :: Transition where
  "demo_open = \<lparr>trKey = \<lparr>keyTaskID = ''1'', keyKind = SegmentOverlap, keySubject = ''a''\<rparr>, trOp = OpOpen,
     trReason = ReasonEval, trAt = 1, trFactAt = 1, trGeneration = 0, trKindVersion = 1,
     trInstance = (instance_of ''a'' ''twice'')\<lparr>inSeverity := Critical\<rparr>\<rparr>"

definition empty_file :: fileState where
  "empty_file = \<lparr>fsFindings = [], fsHealth = [], fsTransitions = [], fsPending = []\<rparr>"

definition solo_fence :: Fence where
  "solo_fence = \<lparr>feMode = FenceStandalone, feTaskEpoch = 0, feNode = ''n1'', feInstance = ''i1'', feProxy = False,
     feDelegated = False, feChainVerified = False\<rparr>"

abbreviation demo_file :: fileState where
  "demo_file \<equiv> applied_file (\<lambda>s. s) 5 empty_file ''1'' solo_fence [demo_open] zero_health"

lemma solo_check:
  "CheckFence solo_fence None (stored_fence empty_file ''1'') = None"
  "CheckFence solo_fence None (stored_fence demo_file ''1'') = None"
  by (simp_all add: CheckFence_def solo_fence_def fence_standalone_def stored_fence_def empty_file_def applied_file_def
      stored_of_def Let_def)

lemma demo_apply:
  "ApplyTransitions (\<lambda>s. s) 5 (Inr empty_file) (\<lambda>_. None) ''1'' solo_fence [demo_open] zero_health = Inr ([1], demo_file)"
  using solo_check(1) by (simp add: ApplyTransitions_def solo_fence_def Let_def apply_step_def start_state_def empty_file_def
      generation_of_def)

lemma demo_again:
  obtains gens st'' where
    "ApplyTransitions (\<lambda>s. s) 9 (Inr demo_file) (\<lambda>_. None) ''1'' solo_fence [demo_open] zero_health = Inr (gens, st'')"
  using solo_check(2) by (simp add: ApplyTransitions_def solo_fence_def Let_def)

theorem replay_changes_nothing_witness:
  "\<exists>st''. ApplyTransitions (\<lambda>s. s) 9 (Inr demo_file) (\<lambda>_. None) ''1'' solo_fence [demo_open] zero_health = Inr ([0], st'')
    \<and> fsFindings st'' = fsFindings demo_file"
proof -
  obtain gens st'' where again:
    "ApplyTransitions (\<lambda>s. s) 9 (Inr demo_file) (\<lambda>_. None) ''1'' solo_fence [demo_open] zero_health = Inr (gens, st'')"
    by (rule demo_again)
  show ?thesis
    using replay_changes_nothing [OF demo_apply again] again by (simp add: empty_file_def maxFileTransitions_def)
qed

section \<open>A pass through the store\<close>

text \<open>C32. The evaluator and the file store together settle: when the transitions planned on the listed
  open findings are new to the log, and the apply is saved, then the listing shows, key by key, what
  \<open>afterTransitions\<close> computed from the old listing, and reconciling the new listing with the same
  facts plans nothing.\<close>

theorem store_pass_settles:
  assumes "file_ok st" and "ts = fst (Reconcile r (ListOpenFindingsForTask st taskID) f)"
    and "file_fresh sha taskID st ts"
    and "ApplyTransitions sha now (Inr st) save taskID fence ts h = Inr (gens, st')"
  shows "fst (Reconcile r (ListOpenFindingsForTask st' taskID) f) = []
    \<and> same_open (afterTransitions (ListOpenFindingsForTask st taskID) ts) (ListOpenFindingsForTask st' taskID)
    \<and> file_ok st'"
  using fs.pass_settles [of st sha taskID r f now fence h] fs.apply_lists [of st sha taskID ts now fence h]
    fs.keeps_ok [of st sha taskID ts now fence h] apply_result(2) [OF assms(4)] assms(1-3)
  by simp

text \<open>A leftover directory that no task record drives, evaluated against an empty file.\<close>

definition left_facts :: Facts where
  "left_facts = no_facts\<lparr>fTask := Some (demo_task\<lparr>tfUnadopted := True\<rparr>), fComplete := [(ScopeTaskState, True)]\<rparr>"

definition left_registry :: Registry where
  "left_registry = [(TaskUnadopted, managed_spec (state_specs ! 3))]"

definition left_open :: Transition where
  "left_open = open_of left_registry left_facts (\<lparr>keyTaskID = ''1'', keyKind = TaskUnadopted, keySubject = []\<rparr>,
     stamp_instance left_facts (managed_spec (state_specs ! 3)) TaskUnadopted (instance_of [] (TaskUnadoptedDetail ''1'')))"

lemma left_spec: "ksDerive (state_specs ! 3) = Some taskUnadoptedDerive" "ksScopes (state_specs ! 3) = [ScopeTaskState]"
  "ksKind (state_specs ! 3) = TaskUnadopted" "ksWaivable (state_specs ! 3) = False"
  by (simp_all add: state_specs_def kind_spec_def)

lemma left_derives: "derives left_facts (managed_spec (state_specs ! 3)) = [instance_of [] (TaskUnadoptedDetail ''1'')]"
  by (simp add: derives_def left_spec complete_def go_get_def left_facts_def no_facts_def taskUnadoptedDerive_def
      demo_task_def managed_defs)

lemma left_raw: "deriveRaw left_registry left_facts = ([(\<lparr>keyTaskID = ''1'', keyKind = TaskUnadopted, keySubject = []\<rparr>,
     stamp_instance left_facts (managed_spec (state_specs ! 3)) TaskUnadopted (instance_of [] (TaskUnadoptedDetail ''1'')))], [])"
  using left_derives
  by (simp add: deriveRaw_def kinds_def left_registry_def derive_kind_def note_instance_def Let_def waived_def left_spec
      instance_of_def subject_key_def) (simp add: left_facts_def no_facts_def)

lemma left_plan: "fst (Reconcile left_registry (ListOpenFindingsForTask empty_file ''1'') left_facts) = [left_open]"
proof -
  have "TaskUnadopted \<notin> set p25Managed" "TaskUnadopted \<noteq> OrphanRow" by (simp_all add: p25Managed_def health_kinds)
  then have "\<not> needs_confirm left_registry (\<lparr>keyTaskID = ''1'', keyKind = TaskUnadopted, keySubject = []\<rparr>,
     stamp_instance left_facts (managed_spec (state_specs ! 3)) TaskUnadopted (instance_of [] (TaskUnadoptedDetail ''1'')))"
    by (simp add: needs_confirm_def left_registry_def left_spec stamp_instance_def instance_of_def)
  then show ?thesis
    by (simp add: Reconcile_def derive_def left_raw ListOpenFindingsForTask_def empty_file_def left_open_def)
qed

lemma left_apply:
  obtains gens st' where "ApplyTransitions (\<lambda>s. s) 5 (Inr empty_file) (\<lambda>_. None) ''1'' solo_fence [left_open] zero_health
    = Inr (gens, st')"
  using solo_check(1) by (simp add: ApplyTransitions_def solo_fence_def Let_def)

theorem store_pass_settles_witness:
  "\<exists>gens st'. ApplyTransitions (\<lambda>s. s) 5 (Inr empty_file) (\<lambda>_. None) ''1'' solo_fence [left_open] zero_health = Inr (gens, st')
    \<and> fst (Reconcile left_registry (ListOpenFindingsForTask st' ''1'') left_facts) = []"
proof -
  obtain gens st' where a: "ApplyTransitions (\<lambda>s. s) 5 (Inr empty_file) (\<lambda>_. None) ''1'' solo_fence [left_open] zero_health
    = Inr (gens, st')" by (rule left_apply)
  have "file_fresh (\<lambda>s. s) ''1'' empty_file [left_open]"
    by (simp add: file_fresh_def left_open_def task_digests_def empty_file_def)
  then show ?thesis
    using store_pass_settles [OF _ left_plan [symmetric] _ a] a by (auto simp: file_ok_def empty_file_def)
qed

end
