(* ===== verification/Asr_Chain.thy ===== *)
theory Asr_Chain
  imports Asr_Window Asr_Kind Bin_Tail
begin

text \<open>
  The backup chain of \<open>internal/assurance/chain.go\<close>: its segments with the place each one can be read
  from, and the checks I1 to I7 over them, with the storage verdict of \<open>internal/assurance/health.go\<close>.

  The task directory is a \<open>Disk\<close> with the answers of \<open>Stat\<close>; an absent directory is \<open>None\<close>, as the nil
  ledger. The listings of object storage are association lists, \<open>None\<close> for a nil map. The planner
  function, asked at most once, is the list it answers. A nil pointer is \<open>None\<close>. The visit counter of
  \<open>noteChainStep\<close>, which nothing here reads, and the memo of \<open>Segments\<close> are left out.
\<close>

section \<open>Data\<close>

record Checkpoint =
  cpGTIDSet :: string
  cpFile :: string
  cpPos :: int

record Row =
  roName :: string
  roSource :: string
  roEpoch :: int64
  roSealed :: bool
  roSize :: int64
  roUploadState :: string
  roChecksum :: string
  roObjectKey :: string
  roCreatedAt :: instant
  roSealedAt :: instant
  roRetentionRemoved :: bool

record Switch =
  swIdentity :: string
  swStored :: string

text \<open>\<open>lcStat\<close> is what \<open>Stat\<close> says of a name: whether it is a regular file, and its size.\<close>

record LocalDir =
  lcDisk :: Disk
  lcStat :: "string \<Rightarrow> (bool \<times> int64) option"

record Inputs =
  iFlavor :: string
  iStartGTID :: string
  iCheckpoint :: Checkpoint
  iOrder :: "string list"
  iRows :: "Row list"
  iNoCatalog :: bool
  iLocal :: "LocalDir option"
  iObjects :: "int64 go_map option"
  iObjectPrefixes :: "bool go_map option"
  iObjectStorage :: bool
  iUploadGrace :: duration
  iSwitches :: "Switch list"
  iPlanned :: "ChainViolation list"
  iPlan :: "ChainViolation list"

record Segment =
  cgName :: string
  cgNamed :: SegmentName
  cgRow :: "Row option"
  cgLocal :: bool
  cgLocalSize :: int64
  cgObject :: "int64 option"
  cgObjectListed :: bool
  cgContents :: "SegmentContents option"
  cgReadErr :: "scan_error option"

definition DefaultUploadGrace :: duration where
  "DefaultUploadGrace = 15 * 60 * second"

definition ChainOf :: "Inputs \<Rightarrow> Inputs" where
  "ChainOf c = (if iUploadGrace c \<le> 0 then c\<lparr>iUploadGrace := DefaultUploadGrace\<rparr> else c)"

definition chain_mysql :: "Inputs \<Rightarrow> bool" where
  "chain_mysql c = (let f = trim_space (iFlavor c) in f = '''' \<or> equal_fold f ''mysql'')"

section \<open>Names\<close>

definition sourcePrefix :: "string \<Rightarrow> string option" where
  "sourcePrefix source =
     (let dot = last_index source ''.''
      in if dot \<le> 0 \<or> dot = int (length source) - 1 then None else Some (take (nat dot) source))"

definition sourceIndex :: "string \<Rightarrow> (string \<times> int) option" where
  "sourceIndex source =
     (case sourcePrefix source of
        None \<Rightarrow> None
      | Some pfx \<Rightarrow> (case parse_uint (drop (length pfx + 1) source) of None \<Rightarrow> None | Some n \<Rightarrow> Some (pfx, n)))"

definition identityOf :: "string \<Rightarrow> string" where
  "identityOf source =
     (let first = takeWhile (\<lambda>c. c \<noteq> CHR ''.'') source
      in if CHR ''.'' \<notin> set source \<or> length first \<noteq> 36 \<or> length (filter (\<lambda>c. c = CHR ''-'') first) \<noteq> 4 then ''''
         else to_lower first)"

definition ObjectPrefixOf :: "string \<Rightarrow> string" where
  "ObjectPrefixOf key = (let i = last_index key ''/'' in if i < 0 then '''' else take (nat i + 1) key)"

definition prefixListed :: "Inputs \<Rightarrow> string \<Rightarrow> bool" where
  "prefixListed c key =
     (case iObjectPrefixes c of
        None \<Rightarrow> True
      | Some m \<Rightarrow> (case map_of m (ObjectPrefixOf key) of Some b \<Rightarrow> b | None \<Rightarrow> False))"

section \<open>The segments of the chain\<close>

definition zero_name :: SegmentName where
  "zero_name = \<lparr>nSource = '''', nSeq = 0, nEpoch = 0, nOpen = False\<rparr>"

definition row_named :: "Row list \<Rightarrow> string \<Rightarrow> Row option" where
  "row_named rows name = find (\<lambda>r. roName r = name) (rev rows)"

definition chain_dir :: "Inputs \<Rightarrow> LocalDir option" where
  "chain_dir c = (case iLocal c of Some l \<Rightarrow> if kDir (lcDisk l) \<noteq> '''' then Some l else None | None \<Rightarrow> None)"

definition segment_local :: "goreplication \<Rightarrow> Inputs \<Rightarrow> Segment \<Rightarrow> Segment" where
  "segment_local g c seg =
     (case chain_dir c of
        None \<Rightarrow> seg
      | Some l \<Rightarrow>
          (case lcStat l (cgName seg) of
             Some (True, sz) \<Rightarrow>
               (let seg = seg\<lparr>cgLocal := True, cgLocalSize := sz\<rparr>
                in case Contents g (lcDisk l) (cgName seg) of
                     Inl e \<Rightarrow> seg\<lparr>cgReadErr := Some e\<rparr>
                   | Inr k \<Rightarrow> seg\<lparr>cgContents := Some k\<rparr>)
           | _ \<Rightarrow> seg))"

definition segment_object :: "Inputs \<Rightarrow> Segment \<Rightarrow> Segment" where
  "segment_object c seg =
     (case (cgRow seg, iObjects c) of
        (Some row, Some objects) \<Rightarrow>
          if roObjectKey row \<noteq> '''' \<and> prefixListed c (roObjectKey row)
          then seg\<lparr>cgObjectListed := True, cgObject := map_of objects (roObjectKey row)\<rparr> else seg
      | _ \<Rightarrow> seg)"

definition chain_segment :: "goreplication \<Rightarrow> Inputs \<Rightarrow> string \<Rightarrow> Segment" where
  "chain_segment g c name =
     segment_object c (segment_local g c
       \<lparr>cgName = name, cgNamed = (case ClassifySegment name of Some n \<Rightarrow> n | None \<Rightarrow> zero_name),
        cgRow = row_named (iRows c) name, cgLocal = False, cgLocalSize = 0, cgObject = None,
        cgObjectListed = False, cgContents = None, cgReadErr = None\<rparr>)"

definition chain_Segments :: "goreplication \<Rightarrow> Inputs \<Rightarrow> Segment list" where
  "chain_Segments g c = map (chain_segment g c) (iOrder c)"

section \<open>Violations\<close>

definition violation :: "ViolationKind \<Rightarrow> string \<Rightarrow> string \<Rightarrow> string list \<Rightarrow> ChainViolation" where
  "violation k evidence detail names =
     \<lparr>vKind = k, vSegments = names, vEvidence = evidence, vDetail = detail, vProblem = None, vSince = 0\<rparr>"

section \<open>I4: the same source file twice\<close>

definition dir_file :: "LocalDir \<Rightarrow> Segment \<Rightarrow> segment_file" where
  "dir_file l seg = file_at (lcDisk l) (cgName seg)"

definition emptyLeftover :: "Inputs \<Rightarrow> Segment list \<Rightarrow> nat \<Rightarrow> bool" where
  "emptyLeftover c segs i =
     (let seg = segs ! i
      in case iLocal c of
           None \<Rightarrow> False
         | Some l \<Rightarrow>
             if \<not> nOpen (cgNamed seg) \<or> \<not> cgLocal seg \<or> i + 1 = length segs then False
             else if cgLocalSize seg < 4 + 19 then True
             else if (case cgContents seg of
                        Some k \<Rightarrow> \<not> IsEmpty (tGTIDs k) \<or> lEvents (tLog k) \<noteq> [] | None \<Rightarrow> False) then False
             else PreambleOnly (dir_file l seg))"

definition both_gtids :: "Inputs \<Rightarrow> Segment \<Rightarrow> Segment \<Rightarrow> (GTIDSet \<times> GTIDSet) option" where
  "both_gtids c a b =
     (case (cgContents a, cgContents b) of
        (Some x, Some y) \<Rightarrow>
          if chain_mysql c \<and> \<not> IsEmpty (tGTIDs x) \<and> \<not> IsEmpty (tGTIDs y) then Some (tGTIDs x, tGTIDs y) else None
      | _ \<Rightarrow> None)"

definition gtids_meet :: "GTIDSet \<Rightarrow> GTIDSet \<Rightarrow> bool" where
  "gtids_meet x y = (\<not> IsEmpty (Minus x (Minus x y)))"

definition sameBytesSpan :: "Inputs \<Rightarrow> Segment \<Rightarrow> Segment \<Rightarrow> bool" where
  "sameBytesSpan c a b =
     (if cgContents a = None \<or> cgContents b = None then True
      else case both_gtids c a b of
             Some (x, y) \<Rightarrow> gtids_meet x y
           | None \<Rightarrow>
               (case iLocal c of
                  None \<Rightarrow> True
                | Some l \<Rightarrow>
                    (case (segmentPositionsUncached (dir_file l a), segmentPositionsUncached (dir_file l b)) of
                       (Some (as, ae), Some (bs, be)) \<Rightarrow> as < be \<and> bs < ae
                     | _ \<Rightarrow> True)))"

definition minCopyBytes :: int where
  "minCopyBytes = 4 + 19"

text \<open>The loop compares the files 64 KiB at a time.\<close>

definition copyChunk :: nat where
  "copyChunk = 65536"

function prefix_loop :: "byte list \<Rightarrow> byte list \<Rightarrow> bool" where
  "prefix_loop fa fb =
     (let na = min copyChunk (length fa); nb = min copyChunk (length fb); n = min na nb
      in if take n fa \<noteq> take n fb then False
         else if na < copyChunk \<or> nb < copyChunk then n > 0 \<or> (na = 0 \<and> nb = 0)
         else prefix_loop (drop copyChunk fa) (drop copyChunk fb))"
  by pat_completeness auto
termination
  by (relation "measure (\<lambda>(fa, fb). length fa)") (auto simp: copyChunk_def)

declare prefix_loop.simps [simp del]

definition bytePrefix :: "byte list option \<Rightarrow> byte list option \<Rightarrow> bool" where
  "bytePrefix pa pb =
     (case (pa, pb) of
        (Some fa, Some fb) \<Rightarrow>
          if int (length fa) < minCopyBytes \<or> int (length fb) < minCopyBytes then False
          else if take 4 fa \<noteq> durableMagic then False
          else prefix_loop fa fb
      | _ \<Rightarrow> False)"

definition sameOpenCopy :: "goevents \<Rightarrow> Inputs \<Rightarrow> Segment \<Rightarrow> Segment \<Rightarrow> bool" where
  "sameOpenCopy g c a b =
     (case both_gtids c a b of
        Some (x, y) \<Rightarrow> gtids_meet x y
      | None \<Rightarrow>
          (case iLocal c of
             None \<Rightarrow> False
           | Some l \<Rightarrow>
               if \<not> cgLocal a \<or> \<not> cgLocal b then False
               else if list_ex (\<lambda>s. nOpen (cgNamed s) \<and> HeaderEventsOnly g (dir_file l s)) [a, b] then False
               else bytePrefix (kFile (lcDisk l) (cgName a)) (kFile (lcDisk l) (cgName b))))"

definition same_copy :: "goevents \<Rightarrow> Inputs \<Rightarrow> Segment \<Rightarrow> Segment \<Rightarrow> bool" where
  "same_copy g c a b =
     (if nOpen (cgNamed a) \<or> nOpen (cgNamed b) then sameOpenCopy g c a b else sameBytesSpan c a b)"

type_synonym seen_map = "((string \<times> int) \<times> nat list) list"

definition seen_at :: "seen_map \<Rightarrow> string \<times> int \<Rightarrow> nat list" where
  "seen_at seen key = (case map_of seen key of Some is \<Rightarrow> is | None \<Rightarrow> [])"

definition repeats_step :: "goevents \<Rightarrow> Inputs \<Rightarrow> Segment list \<Rightarrow> (Segment \<Rightarrow> Segment \<Rightarrow> bool)
    \<Rightarrow> (nat \<times> nat) list \<times> seen_map \<Rightarrow> nat \<Rightarrow> (nat \<times> nat) list \<times> seen_map" where
  "repeats_step g c segs counts st i =
     (let (out, seen) = st; seg = segs ! i
      in case sourcePrefix (nSource (cgNamed seg)) of
           None \<Rightarrow> st
         | Some pfx \<Rightarrow>
             if emptyLeftover c segs i then st
             else (let key = (pfx, nSeq (cgNamed seg));
                       hit = find (\<lambda>oi. counts (segs ! oi) seg \<and> same_copy g c (segs ! oi) seg) (seen_at seen key)
                   in (case hit of Some oi \<Rightarrow> out @ [(i, oi)] | None \<Rightarrow> out,
                       AList.update key (seen_at seen key @ [i]) seen)))"

definition sealedRepeats :: "goevents \<Rightarrow> Inputs \<Rightarrow> Segment list \<Rightarrow> (Segment \<Rightarrow> Segment \<Rightarrow> bool) \<Rightarrow> (nat \<times> nat) list" where
  "sealedRepeats g c segs counts = fst (foldl (repeats_step g c segs counts) ([], []) [0..<length segs])"

definition sealedTwiceDetail :: "Segment \<Rightarrow> Segment \<Rightarrow> string" where
  "sealedTwiceDetail a b =
     ''source file '' @ nSource (cgNamed b) @ '' is on the chain twice: '' @ cgName a @ '' and '' @ cgName b"

section \<open>I6 and I7 of one segment\<close>

definition ledgerHas :: "Inputs \<Rightarrow> string \<Rightarrow> bool" where
  "ledgerHas c name = (case chain_dir c of None \<Rightarrow> False | Some l \<Rightarrow> kSealSize (lcDisk l) name \<noteq> None)"

definition uploaded :: "Row \<Rightarrow> bool" where
  "uploaded row = equal_fold (roUploadState row) ''UPLOADED''"

definition copy_missing :: "Segment \<Rightarrow> Row \<Rightarrow> ChainViolation list" where
  "copy_missing seg row =
     (let name = cgName seg; key = roObjectKey row; gone = (cgObjectListed seg \<and> cgObject seg = None)
      in if \<not> cgLocal seg \<and> \<not> uploaded row then
           [violation I6MissingLocal (roUploadState row)
              (''segment '' @ name @ '' is '' @ roUploadState row @ '' but not on local disk'') [name]]
         else if \<not> cgLocal seg \<and> gone \<and> roRetentionRemoved row then
           [violation I6MissingObject key
              (''segment '' @ name @ '' was removed by local retention but object '' @ key @ '' is missing'') [name]]
         else if \<not> cgLocal seg \<and> gone then
           [violation I6OrphanRow key
              (''segment '' @ name @ '' is neither on local disk nor in object storage ('' @ key @ '')'') [name]]
         else if cgLocal seg \<and> uploaded row \<and> gone then
           [violation I6MissingObject key (''segment '' @ name @ '' is UPLOADED but object '' @ key @ '' is missing'') [name]]
         else [])"

definition copy_sizes :: "Inputs \<Rightarrow> Segment \<Rightarrow> Row \<Rightarrow> ChainViolation list" where
  "copy_sizes c seg row =
     (let name = cgName seg
      in emit (cgLocal seg \<and> roSealed row \<and> roSize row > 0 \<and> cgLocalSize seg \<noteq> roSize row \<and> \<not> ledgerHas c name)
           (violation I6SizeMismatch (''local='' @ format_int (cgLocalSize seg) @ '' row='' @ format_int (roSize row))
              (''segment '' @ name @ '' is '' @ format_int (cgLocalSize seg) @ '' bytes on disk, the catalog says ''
                 @ format_int (roSize row)) [name])
         @ (case cgObject seg of
              None \<Rightarrow> []
            | Some sz \<Rightarrow>
                emit (roSize row > 0 \<and> sz \<noteq> roSize row)
                  (violation I6ObjectSizeMismatch (''object='' @ format_int sz @ '' row='' @ format_int (roSize row))
                     (''object '' @ roObjectKey row @ '' is '' @ format_int sz @ '' bytes, the catalog says ''
                        @ format_int (roSize row)) [name])))"

definition copy_upload :: "Inputs \<Rightarrow> instant \<Rightarrow> Segment \<Rightarrow> Row \<Rightarrow> ChainViolation list" where
  "copy_upload c now seg row =
     (let name = cgName seg; age = duration_string (truncate_to (time_sub now (roSealedAt row)) second)
      in if \<not> iObjectStorage c then []
         else if uploaded row \<and> \<not> equal_fold (roChecksum row) ''match'' then
           [violation I7Unverified (''checksum='' @ roChecksum row)
              (''segment '' @ name @ '' is UPLOADED without a matching checksum'') [name]]
         else emit (\<not> uploaded row \<and> roSealedAt row \<noteq> 0 \<and> time_sub now (roSealedAt row) > iUploadGrace c)
                (violation I7UploadLate (roUploadState row @ '' for '' @ age)
                   (''segment '' @ name @ '' was sealed '' @ age @ '' ago and is still '' @ roUploadState row) [name]))"

definition checkCopies :: "Inputs \<Rightarrow> instant \<Rightarrow> Segment \<Rightarrow> ChainViolation list" where
  "checkCopies c now seg =
     (if nOpen (cgNamed seg) then []
      else case cgRow seg of
             None \<Rightarrow>
               if iNoCatalog c then []
               else if cgLocal seg then
                 [violation I6MissingRow (cgName seg) (''sealed segment '' @ cgName seg @ '' has no catalog row'') [cgName seg]]
               else [violation I6MissingRow (cgName seg)
                       (''chain segment '' @ cgName seg @ '' has no catalog row and no local file'') [cgName seg]]
           | Some row \<Rightarrow>
               copy_missing seg row
               @ emit (uploaded row \<and> trim_space (roObjectKey row) = '''' \<and> (iObjects c \<noteq> None \<or> iObjectStorage c))
                   (violation I6MissingObject ''object_key=''
                      (''segment '' @ cgName seg @ '' is UPLOADED but its row has no object key'') [cgName seg])
               @ copy_sizes c seg row
               @ copy_upload c now seg row)"

section \<open>Rows off the chain\<close>

definition off_chain_row :: "Inputs \<Rightarrow> Row \<Rightarrow> ChainViolation list" where
  "off_chain_row c row =
     (case iObjects c of
        None \<Rightarrow> []
      | Some objects \<Rightarrow>
          if roName row \<in> set (iOrder c) \<or> \<not> roSealed row then []
          else if (case chain_dir c of Some l \<Rightarrow> lcStat l (roName row) \<noteq> None | None \<Rightarrow> False) then []
          else if \<not> prefixListed c (roObjectKey row) then []
          else if map_of objects (roObjectKey row) \<noteq> None \<and> roObjectKey row \<noteq> '''' then []
          else if roRetentionRemoved row then
            [violation I6MissingObject (roObjectKey row)
               (''catalog row '' @ roName row @ '' was removed by local retention but object '' @ roObjectKey row
                  @ '' is missing'') [roName row]]
          else [violation I6OrphanRow (roObjectKey row)
                  (''catalog row '' @ roName row @ '' has no local file and no object'') [roName row]])"

definition checkOffChainRows :: "Inputs \<Rightarrow> ChainViolation list" where
  "checkOffChainRows c = concat (map (off_chain_row c) (iRows c))"

section \<open>The order\<close>

definition order_step :: "ChainViolation list \<times> int go_map \<Rightarrow> Segment \<Rightarrow> ChainViolation list \<times> int go_map" where
  "order_step st s =
     (let (out, lasts) = st; seq = nSeq (cgNamed s)
      in case sourcePrefix (nSource (cgNamed s)) of
           None \<Rightarrow> st
         | Some pfx \<Rightarrow>
             (case map_of lasts pfx of
                Some prev \<Rightarrow>
                  if seq < prev then
                    (out @ [violation I2OrderInvalid (format_int seq @ '' after '' @ format_int prev)
                       (''chain order puts '' @ cgName s @ '' after index '' @ format_int prev @ '' of '' @ pfx) [cgName s]], lasts)
                  else (out, AList.update pfx seq lasts)
              | None \<Rightarrow> (out, AList.update pfx seq lasts)))"

definition top_open :: "LedgerSegment list \<Rightarrow> int64 go_map" where
  "top_open locals =
     foldl (\<lambda>m ls. if nOpen (gNamed ls) \<and> nEpoch (gNamed ls) > num_of m (nSource (gNamed ls))
                    then AList.update (nSource (gNamed ls)) (nEpoch (gNamed ls)) m else m) [] locals"

definition off_order :: "Segment list \<Rightarrow> LedgerSegment list \<Rightarrow> ChainViolation list" where
  "off_order segs locals =
     concat (map (\<lambda>ls.
       if nOpen (gNamed ls) \<and> nEpoch (gNamed ls) < num_of (top_open locals) (nSource (gNamed ls)) then []
       else emit (gName ls \<notin> set (map cgName segs))
              (violation I2OrderInvalid (gName ls) (''local segment '' @ gName ls @ '' is not on the chain order'') [gName ls])) locals)"

definition checkOrder :: "Inputs \<Rightarrow> Segment list \<Rightarrow> ChainViolation list" where
  "checkOrder c segs =
     fst (foldl order_step ([], []) segs)
     @ (case iLocal c of
          None \<Rightarrow> []
        | Some l \<Rightarrow> (case Segments (lcDisk l) of Inl _ \<Rightarrow> [] | Inr locals \<Rightarrow> off_order segs locals))"

section \<open>The stored set and its holes\<close>

definition parsed :: "(string \<Rightarrow> 'err + string) \<Rightarrow> string \<Rightarrow> GTIDSet" where
  "parsed gomysql text = (case ParseGTIDSet gomysql text of Inr s \<Rightarrow> s | Inl _ \<Rightarrow> [])"

definition has_header :: "Segment \<Rightarrow> bool" where
  "has_header s = (case cgContents s of Some k \<Rightarrow> lHasPrevious (tLog k) | None \<Rightarrow> False)"

definition add_stored :: "GTIDSet \<Rightarrow> Segment \<Rightarrow> GTIDSet" where
  "add_stored acc s = (case cgContents s of Some k \<Rightarrow> AddAll acc (tGTIDs k) | None \<Rightarrow> acc)"

definition storedSet :: "(string \<Rightarrow> 'err + string) \<Rightarrow> Inputs \<Rightarrow> Segment list \<Rightarrow> GTIDSet" where
  "storedSet gomysql c segs =
     (let header = (case find has_header segs of
                      Some s \<Rightarrow> (case cgContents s of Some k \<Rightarrow> AddAll [] (parsed gomysql (lPrevious (tLog k))) | None \<Rightarrow> [])
                    | None \<Rightarrow> [])
      in foldl add_stored (AddAll header (parsed gomysql (iStartGTID c))) segs)"

definition holds_after :: "string \<Rightarrow> GTIDRange \<Rightarrow> Segment \<Rightarrow> bool" where
  "holds_after k iv s =
     (case cgContents s of Some x \<Rightarrow> list_ex (\<lambda>r. gLo r > gHi iv) (lookup (tGTIDs x) k) | None \<Rightarrow> False)"

definition segment_after :: "Segment list \<Rightarrow> string \<Rightarrow> GTIDRange \<Rightarrow> string" where
  "segment_after segs k iv =
     foldl (\<lambda>after s. if after \<noteq> '''' then after else if holds_after k iv s then cgName s else '''') '''' segs"

definition interior_hole :: "string list \<Rightarrow> Segment list \<Rightarrow> string \<Rightarrow> GTIDRange \<Rightarrow> ChainViolation list" where
  "interior_hole named segs k iv =
     (let after = segment_after segs k iv; ev = k @ '':'' @ format_int (gLo iv) @ ''-'' @ format_int (gHi iv)
      in emit (after \<notin> set named)
           (violation I3GTIDHole ev (''gtid hole: '' @ ev @ '' is stored in no segment'') [after]))"

definition checkInteriorHole :: "(string \<Rightarrow> 'err + string) \<Rightarrow> Inputs \<Rightarrow> Segment list \<Rightarrow> ChainViolation list \<Rightarrow> ChainViolation list" where
  "checkInteriorHole gomysql c segs out =
     (let named = map (hd \<circ> vSegments) (filter (\<lambda>v. vKind v = I3GTIDHole \<and> vSegments v \<noteq> []) out);
          gaps = StoredHoles (foldl add_stored [] segs) (parsed gomysql (iStartGTID c))
      in if list_ex (\<lambda>s. cgContents s = None \<and> cgLocal s) segs then []
         else concat (map (\<lambda>k. concat (map (interior_hole named segs k) (lookup gaps k))) (sort (map fst gaps))))"

section \<open>I5: the checkpoint\<close>

definition checkCheckpointGTID :: "(string \<Rightarrow> 'err + string) \<Rightarrow> Inputs \<Rightarrow> Segment list \<Rightarrow> GTIDSet \<Rightarrow> ChainViolation list" where
  "checkCheckpointGTID gomysql c segs stored =
     (let lastName = (if segs = [] then '''' else cgName (last segs)); cp = trim_space (cpGTIDSet (iCheckpoint c))
      in if cp = '''' then []
         else case ParseGTIDSet gomysql cp of
                Inl _ \<Rightarrow> []
              | Inr s \<Rightarrow>
                  (let ahead = Minus s stored
                   in emit (\<not> IsEmpty ahead)
                        (violation I5CheckpointAhead (String ahead)
                           (''checkpoint lists '' @ String ahead @ '', which no segment holds'') [lastName])))"

definition at_pos :: "string \<Rightarrow> int \<Rightarrow> string" where
  "at_pos f p = f @ '':'' @ format_int p"

definition checkpoint_tail :: "OpenTail \<Rightarrow> int \<Rightarrow> ChainViolation list" where
  "checkpoint_tail tail pos =
     emit (pos > otPos tail)
       (violation I5CheckpointAhead (at_pos (otFile tail) pos @ '' > '' @ format_int (otPos tail))
          (''checkpoint '' @ at_pos (otFile tail) pos @ '' is past the durable end '' @ format_int (otPos tail)
             @ '' of the open segment'') [path_base (otPath tail)])"

definition checkpoint_sealed :: "Segment \<Rightarrow> string \<Rightarrow> int \<Rightarrow> ChainViolation list" where
  "checkpoint_sealed seg f pos =
     (let sz = (if cgLocal seg then cgLocalSize seg else case cgRow seg of Some row \<Rightarrow> roSize row | None \<Rightarrow> 0)
      in emit (sz > 0 \<and> pos > sz)
           (violation I5CheckpointAhead (at_pos f pos @ '' > '' @ format_int sz)
              (''checkpoint '' @ at_pos f pos @ '' is past the end '' @ format_int sz @ '' of sealed segment '' @ cgName seg)
              [cgName seg]))"

definition last_of_prefix :: "string \<Rightarrow> Segment list \<Rightarrow> (string \<times> int) option" where
  "last_of_prefix pfx segs =
     foldl (\<lambda>acc s. if sourcePrefix (nSource (cgNamed s)) = Some pfx
                        \<and> nSeq (cgNamed s) \<ge> (case acc of Some (_, n) \<Rightarrow> n | None \<Rightarrow> 0)
                     then Some (cgName s, nSeq (cgNamed s)) else acc) None segs"

definition checkpoint_beyond :: "Segment list \<Rightarrow> string \<Rightarrow> int \<Rightarrow> ChainViolation list" where
  "checkpoint_beyond segs f pos =
     (case sourceIndex f of
        None \<Rightarrow> []
      | Some (pfx, seq) \<Rightarrow>
          (case last_of_prefix pfx segs of
             None \<Rightarrow> []
           | Some (lastName, lastSeq) \<Rightarrow>
               emit (seq > lastSeq)
                 (violation I5CheckpointAhead (at_pos f pos @ '' after '' @ lastName)
                    (''checkpoint '' @ at_pos f pos @ '' is at a source file after the last chain segment '' @ lastName)
                    [lastName])))"

definition checkCheckpointPos :: "goevents \<Rightarrow> Inputs \<Rightarrow> Segment list \<Rightarrow> ChainViolation list" where
  "checkCheckpointPos g c segs =
     (let f = trim_space (cpFile (iCheckpoint c)); pos = cpPos (iCheckpoint c);
          tail = (case iLocal c of Some l \<Rightarrow> Tail g (lcDisk l) | None \<Rightarrow> None)
      in if f = '''' then []
         else if (case tail of Some t \<Rightarrow> otFile t = f | None \<Rightarrow> False) then
           (case tail of Some t \<Rightarrow> checkpoint_tail t pos | None \<Rightarrow> [])
         else (case find (\<lambda>s. nSource (cgNamed s) = f \<and> \<not> nOpen (cgNamed s)) (rev segs) of
                 Some sealed \<Rightarrow> checkpoint_sealed sealed f pos
               | None \<Rightarrow> checkpoint_beyond segs f pos))"

definition CheckCheckpoint :: "goevents \<Rightarrow> (string \<Rightarrow> 'err + string) \<Rightarrow> Inputs \<Rightarrow> ChainViolation list" where
  "CheckCheckpoint g gomysql c =
     (let segs = chain_Segments (goBase g) c
      in (if chain_mysql c then checkCheckpointGTID gomysql c segs (storedSet gomysql c segs) else [])
         @ checkCheckpointPos g c segs)"

section \<open>The body\<close>

record chain_group =
  gpPrefix :: string
  gpSeq :: int
  gpLog :: SegmentGTIDLog
  gpFirst :: string
  gpId :: string

record chain_state =
  csOut :: "ChainViolation list"
  csUnrecorded :: "string list"
  csHeld :: GTIDSet
  csPrev :: "chain_group option"
  csBefore :: "GTIDEventRef list"

definition add_all :: "chain_state \<Rightarrow> ChainViolation list \<Rightarrow> chain_state" where
  "add_all st vs = st\<lparr>csOut := csOut st @ vs\<rparr>"

definition check_bytes :: "goreplication \<Rightarrow> Inputs \<Rightarrow> Segment \<Rightarrow> ChainViolation list" where
  "check_bytes g c seg =
     (case iLocal c of
        None \<Rightarrow> []
      | Some l \<Rightarrow>
          if \<not> cgLocal seg then []
          else case SegmentDamage g (lcDisk l) (cgName seg) of
                 Some detail \<Rightarrow> [violation I1Regression detail detail [cgName seg]]
               | None \<Rightarrow>
                   (case SegmentUnreadable g (lcDisk l) (cgName seg) of
                      Some reason \<Rightarrow>
                        (let detail = ''segment '' @ cgName seg @ '' is not readable: '' @ reason
                         in [violation I1Unreadable detail detail [cgName seg]])
                    | None \<Rightarrow> []))"

definition switched_ids :: "Inputs \<Rightarrow> string list" where
  "switched_ids c = map (\<lambda>sw. to_lower (trim_space (swIdentity sw))) (iSwitches c)"

definition check_switch :: "Inputs \<Rightarrow> chain_state \<Rightarrow> Segment \<Rightarrow> chain_state" where
  "check_switch c st seg =
     (let i = identityOf (nSource (cgNamed seg))
      in if i \<noteq> '''' \<and> i \<notin> set (switched_ids c) \<and> i \<notin> set (csUnrecorded st)
         then add_all (st\<lparr>csUnrecorded := csUnrecorded st @ [i]\<rparr>)
                [violation I2SwitchUnrecorded i
                   (''segment '' @ cgName seg @ '' is from server '' @ i @ '' but no source switch to it is recorded'') [cgName seg]]
         else st)"

definition check_twice :: "Inputs \<Rightarrow> Segment list \<Rightarrow> (nat \<times> nat) list \<Rightarrow> nat \<Rightarrow> ChainViolation list" where
  "check_twice c segs repeats i =
     (let seg = segs ! i
      in emit (emptyLeftover c segs i)
           (violation I4EmptyLeftover (cgName seg)
              (''open segment '' @ cgName seg @ '' holds no complete event; it is a leftover and replay is not cut for it'') [cgName seg])
         @ (case map_of repeats i of
              None \<Rightarrow> []
            | Some oi \<Rightarrow>
                [violation I4Overlap (cgName (segs ! oi) @ '' '' @ cgName seg) (sealedTwiceDetail (segs ! oi) seg)
                   [cgName seg, cgName (segs ! oi)]]))"

definition check_gtids :: "Inputs \<Rightarrow> chain_state \<Rightarrow> Segment \<Rightarrow> chain_state" where
  "check_gtids c st seg =
     (case cgContents seg of
        None \<Rightarrow> st
      | Some k \<Rightarrow>
          if \<not> chain_mysql c then st
          else (let mine = tGTIDs k; both = Minus mine (Minus mine (csHeld st));
                    inside = (case intraSegmentHole (lEvents (tLog k)) of
                                None \<Rightarrow> []
                              | Some (uuid, n) \<Rightarrow>
                                  [violation I3GTIDHole (at_pos uuid n) (''gtid hole in '' @ cgName seg @ '' at '' @ at_pos uuid n)
                                     [cgName seg]])
                in add_all (st\<lparr>csHeld := AddAll (csHeld st) mine\<rparr>)
                     (inside @ emit (\<not> IsEmpty both)
                        (violation I4Overlap (String both) (''segment '' @ cgName seg @ '' stores '' @ String both @ '' again'')
                           [cgName seg]))))"

definition merge_log :: "SegmentGTIDLog \<Rightarrow> SegmentGTIDLog \<Rightarrow> SegmentGTIDLog" where
  "merge_log prev log =
     (let prev = (if \<not> lHasPrevious prev \<and> lHasPrevious log
                  then prev\<lparr>lHasPrevious := True, lPrevious := lPrevious log\<rparr> else prev)
      in prev\<lparr>lEvents := lEvents prev @ lEvents log\<rparr>)"

definition between_hole :: "(string \<Rightarrow> 'err + string) \<Rightarrow> Inputs \<Rightarrow> GTIDSet \<Rightarrow> chain_group \<Rightarrow> GTIDEventRef list \<Rightarrow> string
    \<Rightarrow> Segment \<Rightarrow> SegmentGTIDLog \<Rightarrow> bool" where
  "between_hole gomysql c stored prev before pfx seg log \<longleftrightarrow>
     chain_mysql c \<and> cgContents seg \<noteq> None
     \<and> (if gpPrefix prev \<noteq> pfx
        then gpId prev \<notin> set (switched_ids c) \<and> identityOf (nSource (cgNamed seg)) \<notin> set (switched_ids c)
             \<and> switchHole gomysql stored before log
        else gtidHole gomysql (gpLog prev) log)"

definition check_between :: "(string \<Rightarrow> 'err + string) \<Rightarrow> Inputs \<Rightarrow> GTIDSet \<Rightarrow> chain_group \<Rightarrow> GTIDEventRef list \<Rightarrow> string
    \<Rightarrow> Segment \<Rightarrow> SegmentGTIDLog \<Rightarrow> ChainViolation list" where
  "check_between gomysql c stored prev before pfx seg log =
     (let seq = nSeq (cgNamed seg)
      in emit (gpPrefix prev = pfx \<and> seq > wrapu64 (gpSeq prev + 1))
           (violation I2IndexGap (format_int (wrapu64 (gpSeq prev + 1)) @ ''..'' @ format_int (wrapu64 (seq - 1)))
              (''source files between '' @ gpFirst prev @ '' and '' @ cgName seg @ '' are missing'') [cgName seg, gpFirst prev])
         @ emit (between_hole gomysql c stored prev before pfx seg log)
             (violation I3GTIDHole (gpFirst prev @ '' '' @ cgName seg)
                (''gtid hole between '' @ gpFirst prev @ '' and '' @ cgName seg) [cgName seg, gpFirst prev]))"

definition check_neighbour :: "(string \<Rightarrow> 'err + string) \<Rightarrow> Inputs \<Rightarrow> GTIDSet \<Rightarrow> chain_state \<Rightarrow> Segment \<Rightarrow> chain_state" where
  "check_neighbour gomysql c stored st seg =
     (case sourcePrefix (nSource (cgNamed seg)) of
        None \<Rightarrow> st
      | Some pfx \<Rightarrow>
          (let log = (case cgContents seg of Some k \<Rightarrow> tLog k | None \<Rightarrow> zero_log);
               fresh = \<lparr>gpPrefix = pfx, gpSeq = nSeq (cgNamed seg), gpLog = log, gpFirst = cgName seg,
                        gpId = identityOf (nSource (cgNamed seg))\<rparr>
           in case csPrev st of
                None \<Rightarrow> st\<lparr>csPrev := Some fresh\<rparr>
              | Some prev \<Rightarrow>
                  if gpPrefix prev = pfx \<and> gpSeq prev = nSeq (cgNamed seg)
                  then st\<lparr>csPrev := Some (prev\<lparr>gpLog := merge_log (gpLog prev) log\<rparr>)\<rparr>
                  else (let before = csBefore st @ lEvents (gpLog prev)
                        in add_all (st\<lparr>csBefore := before, csPrev := Some fresh\<rparr>)
                             (check_between gomysql c stored prev before pfx seg log))))"

definition chain_step :: "goevents \<Rightarrow> (string \<Rightarrow> 'err + string) \<Rightarrow> Inputs \<Rightarrow> instant \<Rightarrow> Segment list \<Rightarrow> GTIDSet
    \<Rightarrow> (nat \<times> nat) list \<Rightarrow> chain_state \<Rightarrow> nat \<Rightarrow> chain_state" where
  "chain_step g gomysql c now segs stored repeats st i =
     (let seg = segs ! i;
          st = add_all st (check_bytes (goBase g) c seg);
          st = check_switch c st seg;
          st = add_all st (check_twice c segs repeats i);
          st = check_gtids c st seg;
          st = check_neighbour gomysql c stored st seg
      in add_all st (checkCopies c now seg))"

definition chain_start :: chain_state where
  "chain_start = \<lparr>csOut = [], csUnrecorded = [], csHeld = [], csPrev = None, csBefore = []\<rparr>"

definition dropSizeUnderLegacyFailback :: "ChainViolation list \<Rightarrow> ChainViolation list" where
  "dropSizeUnderLegacyFailback vs =
     (if \<not> list_ex (\<lambda>v. vKind v = I3LegacyFailback) vs then vs else filter (\<lambda>v. vKind v \<noteq> I6SizeMismatch) vs)"

definition stamp_since :: "Segment list \<Rightarrow> ChainViolation \<Rightarrow> ChainViolation" where
  "stamp_since segs v =
     (if vKind v \<noteq> I7UploadLate \<or> vSegments v = [] then v
      else case find (\<lambda>s. cgName s = hd (vSegments v) \<and> cgRow s \<noteq> None) segs of
             Some s \<Rightarrow> (case cgRow s of Some row \<Rightarrow> v\<lparr>vSince := roSealedAt row\<rparr> | None \<Rightarrow> v)
           | None \<Rightarrow> v)"

definition violation_rank :: "Segment list \<Rightarrow> ChainViolation \<Rightarrow> nat" where
  "violation_rank segs v =
     (case vSegments v of
        [] \<Rightarrow> length segs
      | n # _ \<Rightarrow> (case map_of (rev (zip (map cgName segs) [0..<length segs])) n of Some p \<Rightarrow> p | None \<Rightarrow> length segs))"

definition chain_loop :: "goevents \<Rightarrow> (string \<Rightarrow> 'err + string) \<Rightarrow> Inputs \<Rightarrow> instant \<Rightarrow> chain_state" where
  "chain_loop g gomysql c now =
     (let segs = chain_Segments (goBase g) c; stored = storedSet gomysql c segs;
          repeats = sealedRepeats g c segs (\<lambda>_ _. True)
      in foldl (chain_step g gomysql c now segs stored repeats) chain_start [0..<length segs])"

definition body_violations :: "goevents \<Rightarrow> (string \<Rightarrow> 'err + string) \<Rightarrow> Inputs \<Rightarrow> instant \<Rightarrow> ChainViolation list" where
  "body_violations g gomysql c now =
     (let segs = chain_Segments (goBase g) c; out = csOut (chain_loop g gomysql c now)
      in out @ (if chain_mysql c then checkInteriorHole gomysql c segs out else [])
         @ checkOrder c segs @ checkOffChainRows c @ iPlanned c @ iPlan c)"

definition CheckBody :: "goevents \<Rightarrow> (string \<Rightarrow> 'err + string) \<Rightarrow> Inputs \<Rightarrow> instant \<Rightarrow> ChainViolation list" where
  "CheckBody g gomysql c now =
     (let segs = chain_Segments (goBase g) c
      in sort_key (violation_rank segs)
           (map (stamp_since segs) (dropSizeUnderLegacyFailback (body_violations g gomysql c now))))"

definition chain_Check :: "goevents \<Rightarrow> (string \<Rightarrow> 'err + string) \<Rightarrow> Inputs \<Rightarrow> instant \<Rightarrow> ChainViolation list" where
  "chain_Check g gomysql c now =
     (let body = CheckBody g gomysql c now; i5 = CheckCheckpoint g gomysql c
      in if i5 = [] then body else sort_key (violation_rank (chain_Segments (goBase g) c)) (body @ i5))"

section \<open>The storage verdict\<close>

definition twice_problem :: "Segment list \<Rightarrow> nat \<Rightarrow> Segment \<Rightarrow> Segment \<Rightarrow> StorageProblem" where
  "twice_problem segs oi a b =
     (let detail = ''Source file '' @ nSource (cgNamed b) @ '' is stored twice: '' @ cgName a @ '' and '' @ cgName b
                     @ '' hold the same events, or one of them cannot be read.''
      in zero_problem\<lparr>pSegment := cgName b, pDetail := detail,
           pValid := map cgName (filter (\<lambda>prev. nSource (cgNamed prev) \<noteq> nSource (cgNamed b)) (take oi segs)),
           pMessage := detail @ '' A restore over both would apply the same transactions twice or fail on the bad copy, so replay and the recovery window stop before them, and they and every later segment are left out. Keep the copy that matches the catalog row or object storage, move the other out of the task directory, and the window comes back.''\<rparr>)"

definition sealedTwice :: "goevents \<Rightarrow> Inputs \<Rightarrow> ChainViolation option" where
  "sealedTwice g c =
     (let segs = chain_Segments (goBase g) c;
          repeats = sealedRepeats g c segs (\<lambda>a b. cgLocal a \<and> cgLocal b)
      in case find (\<lambda>i. map_of repeats i \<noteq> None) [0..<length segs] of
           None \<Rightarrow> None
         | Some i \<Rightarrow>
             (let oi = the (map_of repeats i); a = segs ! oi; b = segs ! i
              in Some \<lparr>vKind = I4Overlap, vSegments = [cgName b, cgName a], vEvidence = cgName a @ '' '' @ cgName b,
                   vDetail = sealedTwiceDetail a b, vProblem = Some (twice_problem segs oi a b), vSince = 0\<rparr>))"

definition problem_violation :: "ViolationKind \<Rightarrow> StorageProblem \<Rightarrow> ChainViolation" where
  "problem_violation k p = \<lparr>vKind = k, vSegments = [pSegment p], vEvidence = '''', vDetail = pMessage p, vProblem = Some p, vSince = 0\<rparr>"

definition local_verdict :: "goreplication \<Rightarrow> Inputs \<Rightarrow> ChainViolation option" where
  "local_verdict g c =
     (case iLocal c of
        None \<Rightarrow> None
      | Some l \<Rightarrow>
          (case Damage g (lcDisk l) (cpGTIDSet (iCheckpoint c)) (iStartGTID c) (iFlavor c) of
             Some p \<Rightarrow> Some (problem_violation I1Regression p)
           | None \<Rightarrow> map_option (problem_violation I1Unreadable) (Unreadable g (lcDisk l))))"

definition Health :: "goevents \<Rightarrow> Inputs \<Rightarrow> ChainViolation option" where
  "Health g c =
     (case local_verdict (goBase g) c of
        Some v \<Rightarrow> Some v
      | None \<Rightarrow>
          (case find (\<lambda>v. vKind v = I3LegacyFailback \<or> vKind v = I3StoredHole) (iPlan c) of
             Some v \<Rightarrow> Some v
           | None \<Rightarrow> sealedTwice g c))"

end
