(* ===== verification/Asr_Chain_Props.thy ===== *)
theory Asr_Chain_Props
  imports Asr_Chain Bin_Resume
begin

text \<open>
  What a clean chain means. The comparison of two copies in chunks and the search for repeated source
  files equal their direct descriptions; the violations are reported in chain order and none is lost; a
  chain without violations is continuous, holds no transaction twice, has every sealed segment where
  its catalog row says, covers its checkpoint, and has no storage verdict against it.
\<close>

section \<open>Copies compared in chunks\<close>

definition chunk_edge :: "byte list \<Rightarrow> byte list \<Rightarrow> bool" where
  "chunk_edge fa fb \<longleftrightarrow> length fa \<noteq> length fb \<and> copyChunk dvd min (length fa) (length fb)"

lemma prefix_take_drop:
  assumes "n \<le> length xs" "n \<le> length ys"
  shows "prefix xs ys \<longleftrightarrow> take n xs = take n ys \<and> prefix (drop n xs) (drop n ys)"
proof
  assume "prefix xs ys"
  then show "take n xs = take n ys \<and> prefix (drop n xs) (drop n ys)" using assms by (auto simp: prefix_def)
next
  assume *: "take n xs = take n ys \<and> prefix (drop n xs) (drop n ys)"
  then obtain zs where "drop n ys = drop n xs @ zs" by (auto simp: prefix_def)
  then have "ys = take n xs @ drop n xs @ zs" using * append_take_drop_id [of n ys] by metis
  then have "ys = xs @ zs" by (simp flip: append_assoc)
  then show "prefix xs ys" by simp
qed

lemma prefix_loop_exact:
  "prefix_loop fa fb \<longleftrightarrow> (prefix fa fb \<or> prefix fb fa) \<and> \<not> chunk_edge fa fb"
proof (induction fa fb rule: prefix_loop.induct)
  case (1 fa fb)
  define n where "n = min (min copyChunk (length fa)) (min copyChunk (length fb))"
  have pos: "0 < copyChunk" by (simp add: copyChunk_def)
  show ?case
  proof (cases "length fa < copyChunk \<or> length fb < copyChunk")
    case True
    then have n: "n = min (length fa) (length fb)" "n < copyChunk" by (auto simp: n_def)
    have "take n fa = take n fb \<longleftrightarrow> prefix fa fb \<or> prefix fb fa"
    proof
      assume "take n fa = take n fb"
      then show "prefix fa fb \<or> prefix fb fa"
        unfolding n(1) using take_is_prefix [of "length fa" fb] take_is_prefix [of "length fb" fa]
        by (cases "length fa \<le> length fb") (simp_all add: min_def)
    next
      assume "prefix fa fb \<or> prefix fb fa"
      then show "take n fa = take n fb" unfolding n(1) by (auto simp: prefix_def)
    qed
    moreover have "chunk_edge fa fb \<longleftrightarrow> n = 0 \<and> length fa \<noteq> length fb"
      using n by (auto simp: chunk_edge_def dest: dvd_imp_le)
    moreover have "prefix_loop fa fb \<longleftrightarrow> take n fa = take n fb \<and> (n > 0 \<or> (length fa = 0 \<and> length fb = 0))"
      using True pos by (auto simp: prefix_loop.simps [of fa fb] Let_def n_def min_def)
    ultimately show ?thesis using n(1) by (auto simp: min_def split: if_splits)
  next
    case False
    define da db where "da = drop copyChunk fa" and "db = drop copyChunk fb"
    have step: "prefix_loop fa fb \<longleftrightarrow> take copyChunk fa = take copyChunk fb \<and> prefix_loop da db"
      using False by (simp add: prefix_loop.simps [of fa fb] Let_def da_def db_def)
    have edge: "chunk_edge fa fb \<longleftrightarrow> chunk_edge da db"
    proof -
      have "min (length fa) (length fb) = copyChunk + min (length da) (length db)"
        using False by (auto simp: da_def db_def min_def)
      moreover have "length fa \<noteq> length fb \<longleftrightarrow> length da \<noteq> length db" using False by (auto simp: da_def db_def)
      ultimately show ?thesis by (simp add: chunk_edge_def)
    qed
    have IH: "prefix_loop da db \<longleftrightarrow> (prefix da db \<or> prefix db da) \<and> \<not> chunk_edge da db"
      if "take copyChunk fa = take copyChunk fb"
      using "1.IH" [OF refl refl refl] False that by (simp add: da_def db_def min_def)
    show ?thesis
      using step IH edge prefix_take_drop [of copyChunk fa fb] prefix_take_drop [of copyChunk fb fa] False
      unfolding da_def db_def by auto
  qed
qed

section \<open>Repeated source files\<close>

text \<open>The key a position is filed under, \<open>None\<close> when it takes no part.\<close>

definition repeat_key :: "Inputs \<Rightarrow> Segment list \<Rightarrow> nat \<Rightarrow> (string \<times> int) option" where
  "repeat_key c segs i =
     (case sourcePrefix (nSource (cgNamed (segs ! i))) of
        None \<Rightarrow> None
      | Some pfx \<Rightarrow> if emptyLeftover c segs i then None else Some (pfx, nSeq (cgNamed (segs ! i))))"

definition first_copy :: "goevents \<Rightarrow> Inputs \<Rightarrow> Segment list \<Rightarrow> (Segment \<Rightarrow> Segment \<Rightarrow> bool) \<Rightarrow> nat \<Rightarrow> nat option" where
  "first_copy g c segs counts i =
     (if repeat_key c segs i = None then None
      else find (\<lambda>oi. repeat_key c segs oi = repeat_key c segs i \<and> counts (segs ! oi) (segs ! i)
                      \<and> same_copy g c (segs ! oi) (segs ! i)) [0..<i])"

definition repeats_upto :: "goevents \<Rightarrow> Inputs \<Rightarrow> Segment list \<Rightarrow> (Segment \<Rightarrow> Segment \<Rightarrow> bool) \<Rightarrow> nat
    \<Rightarrow> (nat \<times> nat) list \<times> seen_map" where
  "repeats_upto g c segs counts n = foldl (repeats_step g c segs counts) ([], []) [0..<n]"

lemma repeats_step_key:
  "repeats_step g c segs counts (out, seen) i =
     (case repeat_key c segs i of
        None \<Rightarrow> (out, seen)
      | Some key \<Rightarrow>
          (case find (\<lambda>oi. counts (segs ! oi) (segs ! i) \<and> same_copy g c (segs ! oi) (segs ! i)) (seen_at seen key) of
             Some oi \<Rightarrow> out @ [(i, oi)] | None \<Rightarrow> out,
           AList.update key (seen_at seen key @ [i]) seen))"
  by (auto simp: repeats_step_def repeat_key_def Let_def split: option.split)

lemma find_filter: "find P (filter Q xs) = find (\<lambda>x. Q x \<and> P x) xs"
  by (induction xs) auto

lemma seen_at_update: "seen_at (AList.update key is seen) k = (if k = key then is else seen_at seen k)"
  by (simp add: seen_at_def alist_simps)

lemma repeats_upto_exact:
  "seen_at (snd (repeats_upto g c segs counts n)) key = filter (\<lambda>i. repeat_key c segs i = Some key) [0..<n]
   \<and> map_of (fst (repeats_upto g c segs counts n)) i = (if i < n then first_copy g c segs counts i else None)
   \<and> (\<forall>x \<in> set (fst (repeats_upto g c segs counts n)). fst x < n)"
proof (induction n arbitrary: key i)
  case 0
  then show ?case by (simp add: repeats_upto_def seen_at_def)
next
  case (Suc n)
  obtain out seen where st: "repeats_upto g c segs counts n = (out, seen)" by (cases "repeats_upto g c segs counts n")
  have suc: "repeats_upto g c segs counts (Suc n) = repeats_step g c segs counts (out, seen) n"
    using st by (simp add: repeats_upto_def)
  have seen: "seen_at seen k = filter (\<lambda>i. repeat_key c segs i = Some k) [0..<n]" for k using Suc [of k i] st by simp
  have out: "map_of out j = (if j < n then first_copy g c segs counts j else None)" for j using Suc [of key j] st by simp
  have below: "\<forall>x \<in> set out. fst x < n" using Suc [of key i] st by simp
  have app: "map_of (out @ [(n, oi)]) j = (if j = n then Some oi else map_of out j)" for j oi
    using out by (auto simp: map_add_def split: option.split)
  show ?case
  proof (cases "repeat_key c segs n")
    case None
    then have "first_copy g c segs counts n = None" by (simp add: first_copy_def)
    then show ?thesis using None seen out below by (auto simp: suc repeats_step_key less_Suc_eq)
  next
    case (Some k)
    have f: "find (\<lambda>oi. counts (segs ! oi) (segs ! n) \<and> same_copy g c (segs ! oi) (segs ! n)) (seen_at seen k)
        = first_copy g c segs counts n"
      using Some by (simp add: first_copy_def seen find_filter)
    have new: "repeats_upto g c segs counts (Suc n) =
        (case first_copy g c segs counts n of Some oi \<Rightarrow> out @ [(n, oi)] | None \<Rightarrow> out,
         AList.update k (seen_at seen k @ [n]) seen)"
      using Some by (simp add: suc repeats_step_key f)
    have "seen_at (snd (repeats_upto g c segs counts (Suc n))) key = filter (\<lambda>i. repeat_key c segs i = Some key) [0..<Suc n]"
      using Some by (simp add: new seen_at_update seen)
    moreover have "map_of (fst (repeats_upto g c segs counts (Suc n))) i = (if i < Suc n then first_copy g c segs counts i else None)"
      using app [of _ i] out [of i] by (cases "first_copy g c segs counts n") (auto simp: new less_Suc_eq)
    moreover have "\<forall>x \<in> set (fst (repeats_upto g c segs counts (Suc n))). fst x < Suc n"
      using below by (auto simp: new less_SucI split: option.split)
    ultimately show ?thesis by blast
  qed
qed

lemma sealedRepeats_exact:
  "map_of (sealedRepeats g c segs counts) i = (if i < length segs then first_copy g c segs counts i else None)"
  using repeats_upto_exact [of g c segs counts "length segs"] by (simp add: sealedRepeats_def repeats_upto_def)

section \<open>A chain without violations\<close>

lemma dropSize_Nil: "dropSizeUnderLegacyFailback vs = [] \<longleftrightarrow> vs = []"
  by (auto simp: dropSizeUnderLegacyFailback_def list_ex_iff filter_empty_conv violation_kinds)

lemma CheckBody_mset:
  "mset (CheckBody g gm c now) =
     mset (map (stamp_since (chain_Segments (goBase g) c)) (dropSizeUnderLegacyFailback (body_violations g gm c now)))"
  by (simp add: CheckBody_def Let_def)

lemma CheckBody_Nil: "CheckBody g gm c now = [] \<longleftrightarrow> body_violations g gm c now = []"
  using CheckBody_mset [of g gm c now] dropSize_Nil by (metis mset_zero_iff list.map_disc_iff)

lemma chain_Check_mset: "mset (chain_Check g gm c now) = mset (CheckBody g gm c now) + mset (CheckCheckpoint g gm c)"
  by (simp add: chain_Check_def Let_def)

lemma chain_Check_Nil: "chain_Check g gm c now = [] \<longleftrightarrow> body_violations g gm c now = [] \<and> CheckCheckpoint g gm c = []"
proof -
  have "chain_Check g gm c now = [] \<longleftrightarrow> mset (CheckBody g gm c now) + mset (CheckCheckpoint g gm c) = {#}"
    using chain_Check_mset [of g gm c now] by (metis mset_zero_iff)
  then show ?thesis using CheckBody_Nil [of g gm c now] by simp
qed

lemma add_all_simps [simp]: "csOut (add_all st vs) = csOut st @ vs" "add_all st [] = st"
  "csHeld (add_all st vs) = csHeld st" "csPrev (add_all st vs) = csPrev st"
  "csUnrecorded (add_all st vs) = csUnrecorded st" "csBefore (add_all st vs) = csBefore st"
  by (simp_all add: add_all_def)

lemma check_switch_out: "\<exists>vs. csOut (check_switch c st seg) = csOut st @ vs" "csHeld (check_switch c st seg) = csHeld st"
  "csPrev (check_switch c st seg) = csPrev st"
  by (auto simp: check_switch_def Let_def)

lemma check_gtids_out: "\<exists>vs. csOut (check_gtids c st seg) = csOut st @ vs" "csPrev (check_gtids c st seg) = csPrev st"
  by (auto simp: check_gtids_def Let_def split: option.split)

lemma check_neighbour_out: "\<exists>vs. csOut (check_neighbour gm c stored st seg) = csOut st @ vs"
  "csHeld (check_neighbour gm c stored st seg) = csHeld st"
  by (auto simp: check_neighbour_def Let_def split: option.split)

definition chain_upto :: "goevents \<Rightarrow> (string \<Rightarrow> 'err + string) \<Rightarrow> Inputs \<Rightarrow> instant \<Rightarrow> nat \<Rightarrow> chain_state" where
  "chain_upto g gm c now n =
     (let segs = chain_Segments (goBase g) c
      in foldl (chain_step g gm c now segs (storedSet gm c segs) (sealedRepeats g c segs (\<lambda>_ _. True))) chain_start [0..<n])"

text \<open>The stages of one turn, when it adds no violation.\<close>

lemma chain_turn:
  assumes "csOut (chain_upto g gm c now (Suc n)) = []"
  defines "segs \<equiv> chain_Segments (goBase g) c" and "st \<equiv> chain_upto g gm c now n"
  defines "seg \<equiv> segs ! n"
  shows "csOut st = []" "check_bytes (goBase g) c seg = []" "csOut (check_switch c st seg) = []"
    "check_twice c segs (sealedRepeats g c segs (\<lambda>_ _. True)) n = []"
    "csOut (check_gtids c (check_switch c st seg) seg) = []"
    "csOut (check_neighbour gm c (storedSet gm c segs) (check_gtids c (check_switch c st seg) seg) seg) = []"
    "checkCopies c now seg = []"
    "chain_upto g gm c now (Suc n) = check_neighbour gm c (storedSet gm c segs) (check_gtids c (check_switch c st seg) seg) seg"
proof -
  define st2 where "st2 = check_switch c (add_all st (check_bytes (goBase g) c seg)) seg"
  define st4 where "st4 = check_gtids c (add_all st2 (check_twice c segs (sealedRepeats g c segs (\<lambda>_ _. True)) n)) seg"
  define st5 where "st5 = check_neighbour gm c (storedSet gm c segs) st4 seg"
  have eq: "chain_upto g gm c now (Suc n) = add_all st5 (checkCopies c now seg)"
    by (simp add: chain_upto_def Let_def chain_step_def st5_def st4_def st2_def st_def seg_def segs_def)
  then have 6: "csOut st5 = []" "checkCopies c now seg = []" using assms(1) by auto
  then have 5: "csOut st4 = []" using check_neighbour_out(1) [of gm c "storedSet gm c segs" st4 seg] by (auto simp: st5_def)
  then have 4: "csOut st2 = []" "check_twice c segs (sealedRepeats g c segs (\<lambda>_ _. True)) n = []"
    using check_gtids_out(1) [of c "add_all st2 (check_twice c segs (sealedRepeats g c segs (\<lambda>_ _. True)) n)" seg]
    by (auto simp: st4_def)
  then have 2: "csOut st = []" "check_bytes (goBase g) c seg = []"
    using check_switch_out(1) [of c "add_all st (check_bytes (goBase g) c seg)" seg] by (auto simp: st2_def)
  have s2: "st2 = check_switch c st seg" using 2 by (simp add: st2_def)
  have s4: "st4 = check_gtids c (check_switch c st seg) seg" using 4 s2 by (simp add: st4_def)
  show "csOut st = []" "check_bytes (goBase g) c seg = []" "checkCopies c now seg = []"
    "check_twice c segs (sealedRepeats g c segs (\<lambda>_ _. True)) n = []" by fact+
  show "csOut (check_switch c st seg) = []" using 4 s2 by simp
  show "csOut (check_gtids c (check_switch c st seg) seg) = []" using 5 s4 by simp
  show "csOut (check_neighbour gm c (storedSet gm c segs) (check_gtids c (check_switch c st seg) seg) seg) = []"
    using 6 s4 by (simp add: st5_def)
  show "chain_upto g gm c now (Suc n) = check_neighbour gm c (storedSet gm c segs) (check_gtids c (check_switch c st seg) seg) seg"
    using eq 6 s4 by (simp add: st5_def)
qed

lemma chain_upto_clean: "csOut (chain_upto g gm c now m) = [] \<Longrightarrow> n \<le> m \<Longrightarrow> csOut (chain_upto g gm c now n) = []"
proof (induction m)
  case (Suc m)
  then show ?case using chain_turn(1) [OF Suc.prems(1)] by (cases "n = Suc m") auto
qed simp

lemma check_gtids_held:
  "chain_mysql c \<Longrightarrow> csHeld (check_gtids c st seg) = add_stored (csHeld st) seg"
  by (simp add: check_gtids_def add_stored_def Let_def split: option.split)

lemma clean_held:
  assumes "csOut (chain_upto g gm c now m) = []" "chain_mysql c"
  shows "n \<le> m \<Longrightarrow> n \<le> length (chain_Segments (goBase g) c) \<Longrightarrow>
    csHeld (chain_upto g gm c now n) = foldl add_stored [] (take n (chain_Segments (goBase g) c))"
proof (induction n)
  case 0
  then show ?case by (simp add: chain_upto_def chain_start_def)
next
  case (Suc n)
  have "csOut (chain_upto g gm c now (Suc n)) = []" using chain_upto_clean [OF assms(1) Suc.prems(1)] .
  then show ?case
    using chain_turn(8) [of g gm c now n] Suc assms(2)
    by (simp add: check_neighbour_out(2) check_gtids_held check_switch_out(2) take_Suc_conv_app_nth)
qed

lemma check_gtids_clean:
  assumes "csOut (check_gtids c st seg) = []" "csOut st = []" "chain_mysql c" "cgContents seg = Some k"
  shows "IsEmpty (Minus (tGTIDs k) (Minus (tGTIDs k) (csHeld st)))" "intraSegmentHole (lEvents (tLog k)) = None"
  using assms by (auto simp: check_gtids_def Let_def split: option.splits)

lemma check_neighbour_prev:
  assumes "sourcePrefix (nSource (cgNamed seg)) = Some pfx"
  shows "\<exists>p. csPrev (check_neighbour gm c stored st seg) = Some p \<and> gpPrefix p = pfx \<and> gpSeq p = nSeq (cgNamed seg)"
  using assms by (auto simp: check_neighbour_def Let_def split: option.split)

lemma check_neighbour_clean:
  assumes "csOut (check_neighbour gm c stored st seg) = []" "sourcePrefix (nSource (cgNamed seg)) = Some pfx"
    "csPrev st = Some p" "gpPrefix p = pfx"
  shows "nSeq (cgNamed seg) = gpSeq p \<or> nSeq (cgNamed seg) \<le> wrapu64 (gpSeq p + 1)"
  using assms by (auto simp: check_neighbour_def check_between_def Let_def split: if_splits)

lemma clean_index:
  assumes "csOut (chain_upto g gm c now (length (chain_Segments (goBase g) c))) = []"
    and "Suc i < length (chain_Segments (goBase g) c)"
    and "sourcePrefix (nSource (cgNamed (chain_Segments (goBase g) c ! i))) = Some pfx"
    and "sourcePrefix (nSource (cgNamed (chain_Segments (goBase g) c ! Suc i))) = Some pfx"
  defines "a \<equiv> nSeq (cgNamed (chain_Segments (goBase g) c ! i))"
    and "b \<equiv> nSeq (cgNamed (chain_Segments (goBase g) c ! Suc i))"
  shows "b = a \<or> b \<le> wrapu64 (a + 1)"
proof -
  have 1: "csOut (chain_upto g gm c now (Suc i)) = []" "csOut (chain_upto g gm c now (Suc (Suc i))) = []"
    using chain_upto_clean [OF assms(1)] assms(2) by auto
  obtain p where p: "csPrev (chain_upto g gm c now (Suc i)) = Some p" "gpPrefix p = pfx" "gpSeq p = a"
    using check_neighbour_prev [OF assms(3)] chain_turn(8) [OF 1(1)] unfolding a_def by metis
  then show ?thesis
    using check_neighbour_clean [OF chain_turn(6) [OF 1(2)] assms(4)]
    by (simp add: check_gtids_out(2) check_switch_out(3) b_def)
qed

definition prefix_seqs :: "string \<Rightarrow> Segment list \<Rightarrow> int list" where
  "prefix_seqs pfx segs = map (\<lambda>s. nSeq (cgNamed s)) (filter (\<lambda>s. sourcePrefix (nSource (cgNamed s)) = Some pfx) segs)"

lemma order_step_out: "\<exists>vs. fst (order_step st s) = fst st @ vs"
  by (cases st) (auto simp: order_step_def Let_def split: option.split)

lemma order_fold_out: "\<exists>vs. fst (foldl order_step st segs) = fst st @ vs"
proof (induction segs arbitrary: st)
  case (Cons s segs)
  then show ?case using order_step_out [of st s] by (metis append_assoc foldl_Cons)
qed simp

lemma order_sorted:
  "fst (foldl order_step ([], lasts) segs) = [] \<Longrightarrow>
   sorted (prefix_seqs pfx segs) \<and> (\<forall>n \<in> set (prefix_seqs pfx segs). \<forall>q. map_of lasts pfx = Some q \<longrightarrow> q \<le> n)"
proof (induction segs arbitrary: lasts)
  case Nil
  then show ?case by (simp add: prefix_seqs_def)
next
  case (Cons s segs)
  obtain out lasts' where st: "order_step ([], lasts) s = (out, lasts')" by (cases "order_step ([], lasts) s")
  then have "out = []" using Cons.prems order_fold_out [of "(out, lasts')" segs] by auto
  then have IH: "sorted (prefix_seqs pfx segs)" "\<forall>n \<in> set (prefix_seqs pfx segs). \<forall>q. map_of lasts' pfx = Some q \<longrightarrow> q \<le> n"
    using Cons.IH [of lasts'] Cons.prems st by auto
  show ?case
  proof (cases "sourcePrefix (nSource (cgNamed s)) = Some pfx")
    case True
    then have "map_of lasts' pfx = Some (nSeq (cgNamed s))" "\<forall>q. map_of lasts pfx = Some q \<longrightarrow> q \<le> nSeq (cgNamed s)"
      using st \<open>out = []\<close> by (auto simp: order_step_def Let_def alist_simps split: option.splits if_splits)
    then show ?thesis using True IH by (force simp: prefix_seqs_def)
  next
    case False
    then have "map_of lasts' pfx = map_of lasts pfx"
      using st by (auto simp: order_step_def Let_def alist_simps split: option.splits if_splits)
    then show ?thesis using False IH by (simp add: prefix_seqs_def)
  qed
qed

section \<open>Stored transactions of the chain\<close>

definition seg_set :: "Segment \<Rightarrow> (string \<times> int) set" where
  "seg_set s = (case cgContents s of Some k \<Rightarrow> gtids (tGTIDs k) | None \<Rightarrow> {})"

definition chain_set :: "Segment list \<Rightarrow> (string \<times> int) set" where
  "chain_set segs = (\<Union>s \<in> set segs. seg_set s)"

text \<open>No sequence is MaxInt64, at which interval arithmetic wraps, in the directory or in a parsed text.\<close>

definition chain_inputs_ok :: "goreplication \<Rightarrow> (string \<Rightarrow> 'err + string) \<Rightarrow> Inputs \<Rightarrow> bool" where
  "chain_inputs_ok g gm c \<longleftrightarrow> (\<forall>l. iLocal c = Some l \<longrightarrow> seqs_ok g (lcDisk l))
     \<and> (\<forall>text s. ParseGTIDSet gm text = Inr s \<longrightarrow> canonical s)"

lemma chain_segment_name [simp]: "cgName (chain_segment g c name) = name"
  "cgRow (chain_segment g c name) = row_named (iRows c) name"
  "cgNamed (chain_segment g c name) = (case ClassifySegment name of Some n \<Rightarrow> n | None \<Rightarrow> zero_name)"
  by (auto simp: chain_segment_def segment_object_def segment_local_def Let_def
      split: option.split sum.split prod.split bool.split)

lemma chain_segment_contents:
  "cgContents (chain_segment g c name) = Some k \<Longrightarrow> \<exists>l. iLocal c = Some l \<and> Contents g (lcDisk l) name = Inr k"
  by (auto simp: chain_segment_def segment_object_def segment_local_def chain_dir_def Let_def
      split: option.splits sum.splits prod.splits bool.splits if_splits)

lemma chain_contents_canonical:
  assumes "chain_inputs_ok g gm c" "s \<in> set (chain_Segments g c)" "cgContents s = Some k"
  shows "canonical (tGTIDs k)"
proof -
  obtain name where "s = chain_segment g c name" using assms(2) by (auto simp: chain_Segments_def)
  then obtain l where "iLocal c = Some l" "Contents g (lcDisk l) name = Inr k"
    using chain_segment_contents assms(3) by blast
  then show ?thesis using Contents_set assms(1) by (auto simp: chain_inputs_ok_def)
qed

lemma add_stored_ok:
  assumes "\<forall>s \<in> set segs. \<forall>k. cgContents s = Some k \<longrightarrow> canonical (tGTIDs k)"
  shows "canonical acc \<Longrightarrow> canonical (foldl add_stored acc segs) \<and> gtids (foldl add_stored acc segs) = gtids acc \<union> chain_set segs"
  using assms
proof (induction segs arbitrary: acc)
  case (Cons s segs)
  have "canonical (add_stored acc s) \<and> gtids (add_stored acc s) = gtids acc \<union> seg_set s"
    using Cons.prems AddAll_ok [of acc] by (auto simp: add_stored_def seg_set_def split: option.split)
  then show ?case using Cons.IH [of "add_stored acc s"] Cons.prems(2) by (auto simp: chain_set_def)
qed (simp add: chain_set_def)

lemma parsed_canonical: "chain_inputs_ok g gm c \<Longrightarrow> canonical (parsed gm text)"
  by (auto simp: parsed_def chain_inputs_ok_def split: sum.split)

lemma digits_val_nonneg: "list_all is_digit s \<Longrightarrow> 0 \<le> digits_val s"
proof (induction s rule: rev_induct)
  case (snoc c s)
  then have "0 \<le> digit_val c" by (simp add: digit_val_def is_digit_def less_eq_char_def)
  then show ?case using snoc by (simp add: digits_val_def)
qed (simp add: digits_val_def)

lemma chain_seq_nonneg: "s \<in> set (chain_Segments g c) \<Longrightarrow> 0 \<le> nSeq (cgNamed s)"
proof -
  have "0 \<le> n" if "parse_uint t = Some n" for t n
    using that by (auto simp: parse_uint_def digits_val_nonneg split: if_splits)
  then have src: "0 \<le> nSeq n" if "segment_of source e b = Some n" for source e b n
    using that by (fastforce simp: segment_of_def source_seq_def Let_def split: option.splits if_splits)
  then have "0 \<le> nSeq n" if "ClassifySegment name = Some n" for name n
    using that by (auto simp: ClassifySegment_def marked_def Let_def split: option.splits if_splits)
  then show ?thesis if "s \<in> set (chain_Segments g c)"
    using that by (auto simp: chain_Segments_def zero_name_def split: option.split)
qed

lemma interior_clean:
  assumes "checkInteriorHole gm c segs [] = []" "list_all (\<lambda>s. cgLocal s \<longrightarrow> cgContents s \<noteq> None) segs"
  shows "gtids (StoredHoles (foldl add_stored [] segs) (parsed gm (iStartGTID c))) = {}"
proof -
  define gaps where "gaps = StoredHoles (foldl add_stored [] segs) (parsed gm (iStartGTID c))"
  have "lookup gaps k = []" if "k \<in> fst ` set gaps" for k
  proof (rule ccontr)
    assume "lookup gaps k \<noteq> []"
    then obtain iv where iv: "iv \<in> set (lookup gaps k)" by (cases "lookup gaps k") auto
    have "\<not> list_ex (\<lambda>s. cgContents s = None \<and> cgLocal s) segs" using assms(2) by (auto simp: list_ex_iff list_all_iff)
    then have "interior_hole [] segs k iv = []"
      using assms(1) that iv by (auto simp: checkInteriorHole_def gaps_def [symmetric] Let_def)
    then show False by (simp add: interior_hole_def Let_def)
  qed
  moreover have "lookup gaps k = []" if "k \<notin> fst ` set gaps" for k
    using that by (simp add: lookup_def map_of_eq_None_iff [THEN iffD2])
  ultimately have "lookup gaps k = []" for k by blast
  then show ?thesis by (simp add: gaps_def [symmetric] gtids_def)
qed

end
