(* ===== verification/Asr_Chain_Claims.thy ===== *)
theory Asr_Chain_Claims
  imports Asr_Chain_Props
begin

text \<open>
  The properties of the backup chain: what a chain without violations guarantees, how violations are
  reported, and the copies the chunked comparison misses.
\<close>

section \<open>The parts of a clean check\<close>

lemma clean_parts:
  assumes "chain_Check g gm c now = []"
  defines "segs \<equiv> chain_Segments (goBase g) c"
  shows "csOut (chain_upto g gm c now (length segs)) = []" "chain_mysql c \<Longrightarrow> checkInteriorHole gm c segs [] = []"
    "checkOrder c segs = []" "checkOffChainRows c = []" "iPlan c = []" "CheckCheckpoint g gm c = []"
  using assms(1)
  by (auto simp: chain_Check_Nil body_violations_def Let_def chain_loop_def chain_upto_def segs_def)

lemma clean_turn:
  assumes "chain_Check g gm c now = []" "i < length (chain_Segments (goBase g) c)"
  shows "csOut (chain_upto g gm c now (Suc i)) = []"
  using chain_upto_clean [OF clean_parts(1) [OF assms(1)]] assms(2) by simp

lemma clean_disjoint:
  assumes "chain_Check g gm c now = []" "chain_mysql c" "chain_inputs_ok (goBase g) gm c" "i < j" "j < length (chain_Segments (goBase g) c)"
  shows "seg_set (chain_Segments (goBase g) c ! i) \<inter> seg_set (chain_Segments (goBase g) c ! j) = {}"
proof (cases "cgContents (chain_Segments (goBase g) c ! j)")
  case None
  then show ?thesis by (simp add: seg_set_def)
next
  case (Some k)
  define segs where "segs = chain_Segments (goBase g) c"
  define held where "held = foldl add_stored [] (take j segs)"
  have can: "\<forall>s \<in> set segs. \<forall>k. cgContents s = Some k \<longrightarrow> canonical (tGTIDs k)"
    using chain_contents_canonical [OF assms(3)] by (auto simp: segs_def)
  then have h: "canonical held" "gtids held = chain_set (take j segs)"
    using add_stored_ok [of "take j segs" "[]"] by (auto simp: held_def dest: in_set_takeD)
  have k: "canonical (tGTIDs k)" using can Some assms(5) by (auto simp: segs_def)
  note t = clean_turn [OF assms(1, 5)]
  have "csHeld (check_switch c (chain_upto g gm c now j) (segs ! j)) = held"
    using clean_held [OF clean_parts(1) [OF assms(1)] assms(2), of j] assms(5)
    by (simp add: check_switch_out(2) held_def segs_def)
  then have "IsEmpty (Minus (tGTIDs k) (Minus (tGTIDs k) held))"
    using check_gtids_clean(1) [OF chain_turn(5) [OF t] chain_turn(3) [OF t] assms(2) Some] by (simp add: segs_def)
  then have "gtids (tGTIDs k) \<inter> gtids held = {}"
    using Minus_ok [OF k h(1)] Minus_ok [of "tGTIDs k" "Minus (tGTIDs k) held"] IsEmpty_ok k by auto
  moreover have "seg_set (segs ! i) \<subseteq> gtids held"
  proof -
    have "segs ! i \<in> set (take j segs)" using assms(4, 5) by (auto simp: segs_def in_set_conv_nth intro!: exI [of _ i])
    then show ?thesis by (auto simp: h(2) chain_set_def)
  qed
  moreover have "seg_set (segs ! j) = gtids (tGTIDs k)" using Some by (simp add: seg_set_def segs_def)
  ultimately show ?thesis unfolding segs_def by blast
qed

lemma clean_next_index:
  assumes "chain_Check g gm c now = []" "Suc i < length (chain_Segments (goBase g) c)"
    and "sourcePrefix (nSource (cgNamed (chain_Segments (goBase g) c ! i))) = Some pfx"
    and "sourcePrefix (nSource (cgNamed (chain_Segments (goBase g) c ! Suc i))) = Some pfx"
  shows "nSeq (cgNamed (chain_Segments (goBase g) c ! Suc i)) = nSeq (cgNamed (chain_Segments (goBase g) c ! i))
    \<or> nSeq (cgNamed (chain_Segments (goBase g) c ! Suc i)) = nSeq (cgNamed (chain_Segments (goBase g) c ! i)) + 1"
proof -
  define segs where "segs = chain_Segments (goBase g) c"
  define a b where "a = nSeq (cgNamed (segs ! i))" and "b = nSeq (cgNamed (segs ! Suc i))"
  have "0 \<le> a" using chain_seq_nonneg [of "segs ! i" "goBase g" c] assms(2) by (simp add: segs_def a_def)
  moreover have "wrapu64 (a + 1) \<le> a + 1" using \<open>0 \<le> a\<close> by (simp add: wrapu64_def zmod_le_nonneg_dividend)
  moreover have "b = a \<or> b \<le> wrapu64 (a + 1)"
    using clean_index [OF clean_parts(1) [OF assms(1)] assms(2, 3, 4)] by (simp add: a_def b_def segs_def)
  moreover have "a \<le> b"
  proof -
    have "fst (foldl order_step ([], []) segs) = []"
      using clean_parts(3) [OF assms(1)] by (simp add: checkOrder_def segs_def)
    then have "sorted (prefix_seqs pfx segs)" using order_sorted [of "[]" segs pfx] by simp
    moreover have "segs = take i segs @ segs ! i # segs ! Suc i # drop (Suc (Suc i)) segs"
      using assms(2) by (metis Cons_nth_drop_Suc Suc_lessD append_take_drop_id segs_def)
    ultimately have "sorted (prefix_seqs pfx (take i segs @ segs ! i # segs ! Suc i # drop (Suc (Suc i)) segs))" by simp
    then show ?thesis using assms(3, 4) by (simp add: prefix_seqs_def sorted_append a_def b_def segs_def)
  qed
  ultimately show ?thesis unfolding a_def b_def segs_def by linarith
qed

lemma clean_no_hole:
  assumes "chain_Check g gm c now = []" "chain_mysql c" "chain_inputs_ok (goBase g) gm c"
    and "list_all (\<lambda>s. cgLocal s \<longrightarrow> cgContents s \<noteq> None) (chain_Segments (goBase g) c)"
  shows "{(k, n). n \<in> interior {m. (k, m) \<in> chain_set (chain_Segments (goBase g) c)}} \<subseteq> gtids (parsed gm (iStartGTID c))"
proof -
  define segs where "segs = chain_Segments (goBase g) c"
  have can: "\<forall>s \<in> set segs. \<forall>k. cgContents s = Some k \<longrightarrow> canonical (tGTIDs k)"
    using chain_contents_canonical [OF assms(3)] by (auto simp: segs_def)
  have st: "canonical (foldl add_stored [] segs)" "gtids (foldl add_stored [] segs) = chain_set segs"
    using add_stored_ok [OF can, of "[]"] by auto
  have "gtids (StoredHoles (foldl add_stored [] segs) (parsed gm (iStartGTID c))) = {}"
    using interior_clean [OF clean_parts(2) [OF assms(1, 2)] assms(4)] by (simp add: segs_def)
  then show ?thesis
    using StoredHoles_ok [OF st(1) parsed_canonical [OF assms(3)]] st(2) by (auto simp: segs_def)
qed

text \<open>C17. A MySQL chain for which \<open>Check\<close> reports nothing is continuous: inside one source prefix the
  index stays or advances by one, no transaction is stored by two segments, and, when every local
  file is readable, every sequence missing between two stored ones is in the start set.\<close>

theorem clean_chain_continuous:
  assumes "chain_Check g gm c now = []" and "chain_mysql c" and "chain_inputs_ok (goBase g) gm c"
  defines "segs \<equiv> chain_Segments (goBase g) c"
  shows "(\<forall>i pfx. Suc i < length segs \<and> sourcePrefix (nSource (cgNamed (segs ! i))) = Some pfx
        \<and> sourcePrefix (nSource (cgNamed (segs ! Suc i))) = Some pfx \<longrightarrow>
        nSeq (cgNamed (segs ! Suc i)) \<in> {nSeq (cgNamed (segs ! i)), nSeq (cgNamed (segs ! i)) + 1})
    \<and> (\<forall>i j. i < j \<and> j < length segs \<longrightarrow> seg_set (segs ! i) \<inter> seg_set (segs ! j) = {})
    \<and> (list_all (\<lambda>s. cgLocal s \<longrightarrow> cgContents s \<noteq> None) segs \<longrightarrow>
        {(k, n). n \<in> interior {m. (k, m) \<in> chain_set segs}} \<subseteq> gtids (parsed gm (iStartGTID c)))"
  using clean_next_index [OF assms(1)] clean_disjoint [OF assms(1, 2, 3)] clean_no_hole [OF assms(1, 2, 3)]
  unfolding segs_def by simp

section \<open>Copies\<close>

lemma checkCopies_clean:
  assumes "checkCopies c now seg = []" "\<not> nOpen (cgNamed seg)"
  shows "cgRow seg = None \<Longrightarrow> iNoCatalog c"
    and "cgRow seg = Some row \<Longrightarrow> copy_missing seg row = [] \<and> copy_sizes c seg row = [] \<and> copy_upload c now seg row = []"
  using assms by (auto simp: checkCopies_def split: if_splits option.splits)

lemma copy_missing_clean:
  "copy_missing seg row = [] \<Longrightarrow> (cgLocal seg \<or> uploaded row) \<and>
   (cgObjectListed seg \<and> (cgLocal seg \<longrightarrow> uploaded row) \<longrightarrow> cgObject seg \<noteq> None)"
  by (auto simp: copy_missing_def Let_def split: if_splits)

lemma copy_upload_clean:
  "copy_upload c now seg row = [] \<Longrightarrow> iObjectStorage c \<Longrightarrow>
   (if uploaded row then equal_fold (roChecksum row) ''match''
    else roSealedAt row = 0 \<or> time_sub now (roSealedAt row) \<le> iUploadGrace c)"
  by (auto simp: copy_upload_def Let_def split: if_splits)

lemma clean_segment:
  assumes "chain_Check g gm c now = []" "seg \<in> set (chain_Segments (goBase g) c)"
  shows "checkCopies c now seg = []" "check_bytes (goBase g) c seg = []"
proof -
  obtain i where i: "i < length (chain_Segments (goBase g) c)" "seg = chain_Segments (goBase g) c ! i"
    using assms(2) by (auto simp: in_set_conv_nth)
  show "checkCopies c now seg = []" "check_bytes (goBase g) c seg = []"
    using chain_turn(2, 7) [OF clean_turn [OF assms(1) i(1)]] i(2) by simp_all
qed

lemma check_bytes_clean:
  assumes "check_bytes g c seg = []" "cgLocal seg" "iLocal c = Some l"
  shows "SegmentDamage g (lcDisk l) (cgName seg) = None" "SegmentUnreadable g (lcDisk l) (cgName seg) = None"
  using assms by (auto simp: check_bytes_def Let_def split: option.splits)


section \<open>The checkpoint\<close>

definition chain_header :: "(string \<Rightarrow> 'err + string) \<Rightarrow> Segment list \<Rightarrow> (string \<times> int) set" where
  "chain_header gm segs =
     (case find has_header segs of
        Some s \<Rightarrow> (case cgContents s of Some k \<Rightarrow> gtids (parsed gm (lPrevious (tLog k))) | None \<Rightarrow> {})
      | None \<Rightarrow> {})"

lemma storedSet_ok:
  assumes "chain_inputs_ok g gm c" "segs = chain_Segments g c"
  shows "canonical (storedSet gm c segs)
    \<and> gtids (storedSet gm c segs) = chain_header gm segs \<union> gtids (parsed gm (iStartGTID c)) \<union> chain_set segs"
proof -
  have can: "\<forall>s \<in> set segs. \<forall>k. cgContents s = Some k \<longrightarrow> canonical (tGTIDs k)"
    using chain_contents_canonical [OF assms(1)] assms(2) by auto
  define header where "header = (case find has_header segs of
      Some s \<Rightarrow> (case cgContents s of Some k \<Rightarrow> AddAll [] (parsed gm (lPrevious (tLog k))) | None \<Rightarrow> [])
    | None \<Rightarrow> [])"
  have h: "canonical header \<and> gtids header = chain_header gm segs"
    using AddAll_ok [of "[]"] parsed_canonical [OF assms(1)]
    by (simp add: header_def chain_header_def split: option.split)
  have s: "canonical (AddAll header (parsed gm (iStartGTID c)))
      \<and> gtids (AddAll header (parsed gm (iStartGTID c))) = gtids header \<union> gtids (parsed gm (iStartGTID c))"
    using AddAll_ok [of header] h parsed_canonical [OF assms(1)] by blast
  then show ?thesis
    using add_stored_ok [OF can, of "AddAll header (parsed gm (iStartGTID c))"] h
    by (simp add: storedSet_def header_def [symmetric])
qed

lemma ParseGTIDSet_blank: "ParseGTIDSet gm [] = Inr []"
  by (simp add: ParseGTIDSet_def trim_space_def)

text \<open>C20. \<open>Check\<close> reports the checkpoint of a MySQL chain as ahead in its GTIDs exactly when it lists a
  transaction that is in no segment, not in the first previous-GTIDs header and not in the start set.\<close>

theorem checkpoint_ahead_iff:
  assumes "chain_inputs_ok g gm c" and "ParseGTIDSet gm (trim_space (cpGTIDSet (iCheckpoint c))) = Inr s"
  defines "segs \<equiv> chain_Segments g c"
  shows "checkCheckpointGTID gm c segs (storedSet gm c segs) \<noteq> [] \<longleftrightarrow>
    \<not> gtids s \<subseteq> chain_header gm segs \<union> gtids (parsed gm (iStartGTID c)) \<union> chain_set segs"
proof -
  note st = storedSet_ok [OF assms(1) segs_def [THEN meta_eq_to_obj_eq]]
  have s: "canonical s" using assms(1, 2) by (auto simp: chain_inputs_ok_def)
  have "IsEmpty (Minus s (storedSet gm c segs)) \<longleftrightarrow> gtids s \<subseteq> gtids (storedSet gm c segs)"
    using Minus_ok [OF s] st IsEmpty_ok by auto
  moreover have "trim_space (cpGTIDSet (iCheckpoint c)) = '''' \<Longrightarrow> s = []"
    using assms(2) ParseGTIDSet_blank [of gm] by simp
  ultimately show ?thesis
    using st assms(2) s by (auto simp: checkCheckpointGTID_def Let_def)
qed

section \<open>Reporting\<close>

text \<open>\<open>Check\<close> loses and invents nothing and reports in chain order: its violations are those of the
  body, less size mismatches while a legacy failback is planned and with the sealing time of a late
  upload, and those of the checkpoint, sorted by the chain position of the first segment they name.\<close>

lemma check_reports_all:
  "mset (chain_Check g gm c now) =
     mset (map (stamp_since (chain_Segments (goBase g) c)) (dropSizeUnderLegacyFailback (body_violations g gm c now)))
     + mset (CheckCheckpoint g gm c)
   \<and> sorted (map (violation_rank (chain_Segments (goBase g) c)) (chain_Check g gm c now))"
  using chain_Check_mset [of g gm c now] CheckBody_mset [of g gm c now] by (simp add: chain_Check_def CheckBody_def Let_def)

section \<open>The storage verdict\<close>

lemma unreadable_loop_None:
  "unreadable_loop g d before segs = None \<longleftrightarrow>
   (\<forall>s \<in> set segs. nOpen (gNamed s) \<or> SegmentUnreadable g d (gName s) = None)"
  by (induction segs arbitrary: before) (auto split: option.split)

text \<open>A regular file is answered as one by \<open>Stat\<close>, and no open file has an older epoch than another open one
  of its source: such a leftover is not on the chain order, so \<open>Check\<close> does not look at it.\<close>

definition listed_plainly :: "LocalDir \<Rightarrow> bool" where
  "listed_plainly l \<longleftrightarrow> (\<forall>ls \<in> set (segments_or_none (lcDisk l)).
     (\<exists>sz. lcStat l (gName ls) = Some (True, sz))
     \<and> \<not> (nOpen (gNamed ls) \<and> nEpoch (gNamed ls) < num_of (top_open (segments_or_none (lcDisk l))) (nSource (gNamed ls))))"

lemma ledger_segment_named: "ls \<in> set (segments_or_none d) \<Longrightarrow> ClassifySegment (gName ls) = Some (gNamed ls)"
  by (auto simp: segments_or_none_def Segments_def ledger_segment_def List.map_filter_def split: sum.splits if_splits option.splits)

lemma off_order_clean:
  assumes "off_order segs locals = []" "ls \<in> set locals"
    and "\<not> (nOpen (gNamed ls) \<and> nEpoch (gNamed ls) < num_of (top_open locals) (nSource (gNamed ls)))"
  shows "gName ls \<in> set (map cgName segs)"
proof -
  have "\<forall>x \<in> set locals. (if nOpen (gNamed x) \<and> nEpoch (gNamed x) < num_of (top_open locals) (nSource (gNamed x)) then []
      else emit (gName x \<notin> set (map cgName segs))
        (violation I2OrderInvalid (gName x) (''local segment '' @ gName x @ '' is not on the chain order'') [gName x])) = []"
    using assms(1) unfolding off_order_def concat_eq_Nil_conv set_map by blast
  then show ?thesis using assms(2, 3) by (metis emit_Nil(1))
qed

lemma clean_on_order:
  assumes "chain_Check g gm c now = []" "iLocal c = Some l" "listed_plainly l" "ls \<in> set (segments_or_none (lcDisk l))"
  shows "SegmentDamage (goBase g) (lcDisk l) (gName ls) = None" "SegmentUnreadable (goBase g) (lcDisk l) (gName ls) = None"
proof -
  define locals where "locals = segments_or_none (lcDisk l)"
  have seg: "Segments (lcDisk l) = Inr locals" and dir: "kDir (lcDisk l) \<noteq> ''''"
    using assms(4) by (auto simp: segments_or_none_def locals_def Segments_def split: sum.splits if_splits)
  have "off_order (chain_Segments (goBase g) c) locals = []"
    using clean_parts(3) [OF assms(1)] assms(2) seg by (simp add: checkOrder_def)
  then have "gName ls \<in> set (map cgName (chain_Segments (goBase g) c))"
    using off_order_clean [of _ locals ls] assms(3, 4) by (simp add: listed_plainly_def locals_def)
  then have on: "gName ls \<in> set (iOrder c)" by (auto simp: chain_Segments_def)
  define s where "s = chain_segment (goBase g) c (gName ls)"
  have "s \<in> set (chain_Segments (goBase g) c)" using on by (simp add: chain_Segments_def s_def)
  moreover obtain sz where "lcStat l (gName ls) = Some (True, sz)" using assms(3, 4) by (auto simp: listed_plainly_def)
  then have "cgLocal s" using assms(2) dir
    by (simp add: s_def chain_segment_def segment_object_def segment_local_def chain_dir_def Let_def split: sum.split option.split)
  ultimately show "SegmentDamage (goBase g) (lcDisk l) (gName ls) = None" "SegmentUnreadable (goBase g) (lcDisk l) (gName ls) = None"
    using check_bytes_clean [OF clean_segment(2) [OF assms(1)] _ assms(2), of s] by (simp_all add: s_def)
qed

lemma clean_no_repeat:
  assumes "chain_Check g gm c now = []" "i < length (chain_Segments (goBase g) c)"
  shows "first_copy g c (chain_Segments (goBase g) c) counts i = None"
proof -
  have "first_copy g c (chain_Segments (goBase g) c) (\<lambda>_ _. True) i = None"
    using chain_turn(4) [OF clean_turn [OF assms]] assms(2) sealedRepeats_exact [of g c _ "\<lambda>_ _. True" i]
    by (auto simp: check_twice_def Let_def split: option.splits)
  then show ?thesis by (auto simp: first_copy_def find_None_iff split: if_splits)
qed


section \<open>Copies at a chunk boundary\<close>

lemma bytePrefix_exact:
  "bytePrefix (Some fa) (Some fb) \<longleftrightarrow> 23 \<le> length fa \<and> 23 \<le> length fb \<and> take 4 fa = durableMagic
     \<and> (prefix fa fb \<or> prefix fb fa) \<and> \<not> chunk_edge fa fb"
  by (auto simp: bytePrefix_def prefix_loop_exact minCopyBytes_def)

text \<open>Two files count as copies exactly when both have a magic and at least one event header, one is the
  start of the other and not both their lengths differ and the shorter one is a multiple of 64 KiB: the
  next read of the shorter file then returns nothing and the comparison answers that they differ. So a
  file of 64 KiB and its continuation by one byte are not recognised as copies.\<close>

lemma chunk_copy_missed:
  "bytePrefix (Some fa) (Some fb) = (23 \<le> length fa \<and> 23 \<le> length fb \<and> take 4 fa = durableMagic
      \<and> (prefix fa fb \<or> prefix fb fa) \<and> \<not> (length fa \<noteq> length fb \<and> 65536 dvd min (length fa) (length fb)))
   \<and> \<not> bytePrefix (Some (durableMagic @ replicate 65532 0)) (Some ((durableMagic @ replicate 65532 0) @ [0]))"
proof -
  define x :: "byte list" where "x = durableMagic @ replicate 65532 0"
  have "length x = 65536" by (simp add: x_def durableMagic_def)
  then have "chunk_edge x (x @ [0])" by (simp add: chunk_edge_def copyChunk_def)
  then have "\<not> bytePrefix (Some x) (Some (x @ [0]))" by (simp add: bytePrefix_exact)
  then show ?thesis by (simp add: bytePrefix_exact chunk_edge_def copyChunk_def x_def)
qed

section \<open>A demonstration\<close>

text \<open>One sealed and uploaded segment, then the open one, each with one transaction; the checkpoint lists
  the first.\<close>

definition chain_gm :: "string \<Rightarrow> string + string" where
  "chain_gm t = (if t = demo_server @ '':9'' then Inr t else Inl ''invalid'')"

definition chain_disk :: Disk where
  "chain_disk = \<lparr>kDir = ''/data/t1'', kEntries = Inr [(''bin.000002.open.e3'', False), (''bin.000001'', False)],
     kFile = (\<lambda>n. if n = ''bin.000001'' then Some demo_bytes
                   else if n = ''bin.000002.open.e3'' then Some (durableMagic @ demo_gtid_event 10 68 @ demo_xid_event 87) else None),
     kSealSize = (\<lambda>_. None)\<rparr>"

definition chain_local :: LocalDir where
  "chain_local = \<lparr>lcDisk = chain_disk, lcStat = (\<lambda>n. map_option (\<lambda>bs. (True, int (length bs))) (kFile chain_disk n))\<rparr>"

definition chain_row :: Row where
  "chain_row = \<lparr>roName = ''bin.000001'', roSource = ''bin.000001'', roEpoch = 3, roSealed = True, roSize = 68,
     roUploadState = ''UPLOADED'', roChecksum = ''match'', roObjectKey = ''t1/bin.000001'', roCreatedAt = 5,
     roSealedAt = 6, roRetentionRemoved = False\<rparr>"

definition demo_chain :: Inputs where
  "demo_chain = ChainOf \<lparr>iFlavor = [], iStartGTID = [],
     iCheckpoint = \<lparr>cpGTIDSet = demo_server @ '':9'', cpFile = ''bin.000002'', cpPos = 87\<rparr>,
     iOrder = [''bin.000001'', ''bin.000002.open.e3''], iRows = [chain_row], iNoCatalog = False,
     iLocal = Some chain_local, iObjects = Some [(''t1/bin.000001'', 68)], iObjectPrefixes = None,
     iObjectStorage = True, iUploadGrace = 0, iSwitches = [], iPlanned = [], iPlan = []\<rparr>"

lemma demo_chain_clean: "chain_Check demo_events chain_gm demo_chain 7 = []"
  by code_simp

lemma chain_disk_contents:
  "map lEvents (List.map_filter (\<lambda>n. case Contents demo_go chain_disk n of Inl _ \<Rightarrow> None | Inr c \<Rightarrow> Some (tLog c))
     [''bin.000001'', ''bin.000002.open.e3'']) =
   [[\<lparr>evUUID = demo_server, evSeq = 9, evOffset = 24, evWhen = unix_time 7\<rparr>],
    [\<lparr>evUUID = demo_server, evSeq = 10, evOffset = 4, evWhen = unix_time 7\<rparr>]]"
  by code_simp

lemma chain_disk_seqs: "seqs_ok demo_go chain_disk"
  unfolding seqs_ok_def
proof (intro allI impI ballI)
  fix name c ev
  assume c: "Contents demo_go chain_disk name = Inr c" "ev \<in> set (lEvents (tLog c))"
  then have "name = ''bin.000001'' \<or> name = ''bin.000002.open.e3''"
    by (auto simp: Contents_def chain_disk_def split: if_splits)
  with c chain_disk_contents show "evSeq ev < max_int64"
    by (auto simp: map_filter_simps max_int64_def split: sum.splits option.splits)
qed

lemma chain_checkpoint_set: "ParseGTIDSet chain_gm (demo_server @ '':9'') = Inr [(demo_server, [GTIDRange 9 9])]"
  by code_simp

lemma demo_server_trim: "trim_space (demo_server @ '':9'') = demo_server @ '':9''"
  by code_simp

lemma chain_gm_canonical: "ParseGTIDSet chain_gm text = Inr s \<Longrightarrow> canonical s"
proof -
  assume p: "ParseGTIDSet chain_gm text = Inr s"
  have "canonical [(demo_server, [GTIDRange 9 9])]"
    by (simp add: canonical_def demo_server_def range_ok_def max_int64_def)
  moreover have "s = [] \<or> s = [(demo_server, [GTIDRange 9 9])]"
  proof (cases "trim_space text = demo_server @ '':9''")
    case True
    then have "ParseGTIDSet chain_gm text = ParseGTIDSet chain_gm (demo_server @ '':9'')"
      by (simp add: ParseGTIDSet_def demo_server_trim)
    then show ?thesis using p chain_checkpoint_set by simp
  next
    case False
    then show ?thesis using p by (auto simp: ParseGTIDSet_def Let_def chain_gm_def split: if_splits)
  qed
  ultimately show ?thesis by auto
qed

lemma demo_chain_fields: "iLocal demo_chain = Some chain_local" "iStartGTID demo_chain = []" "goBase demo_events = demo_go"
  "cpGTIDSet (iCheckpoint demo_chain) = demo_server @ '':9''" "iOrder demo_chain = [''bin.000001'', ''bin.000002.open.e3'']"
  by (simp_all add: demo_chain_def ChainOf_def demo_events_def)

lemma demo_chain_ok: "chain_inputs_ok demo_go chain_gm demo_chain" "chain_mysql demo_chain"
  using chain_disk_seqs chain_gm_canonical
  by (auto simp: chain_inputs_ok_def demo_chain_fields chain_local_def chain_mysql_def demo_chain_def ChainOf_def trim_space_def)

theorem clean_chain_continuous_witness:
  "seg_set (chain_Segments demo_go demo_chain ! 0) \<inter> seg_set (chain_Segments demo_go demo_chain ! 1) = {}
   \<and> length (chain_Segments demo_go demo_chain) = 2"
proof -
  have len: "length (chain_Segments demo_go demo_chain) = 2" by (simp add: chain_Segments_def demo_chain_fields)
  have "\<forall>i j. i < j \<and> j < length (chain_Segments demo_go demo_chain) \<longrightarrow>
      seg_set (chain_Segments demo_go demo_chain ! i) \<inter> seg_set (chain_Segments demo_go demo_chain ! j) = {}"
    using clean_chain_continuous [OF demo_chain_clean demo_chain_ok(2)] demo_chain_ok(1) by (simp add: demo_chain_fields)
  from this [rule_format, of 0 1] show ?thesis using len by simp
qed



theorem checkpoint_ahead_iff_witness:
  "{(demo_server, 9)} \<subseteq> chain_header chain_gm (chain_Segments demo_go demo_chain)
     \<union> gtids (parsed chain_gm []) \<union> chain_set (chain_Segments demo_go demo_chain)"
proof -
  have "trim_space (cpGTIDSet (iCheckpoint demo_chain)) = demo_server @ '':9''"
    by (simp add: demo_chain_fields demo_server_trim)
  then have "ParseGTIDSet chain_gm (trim_space (cpGTIDSet (iCheckpoint demo_chain))) = Inr [(demo_server, [GTIDRange 9 9])]"
    using chain_checkpoint_set by simp
  note iff = checkpoint_ahead_iff [OF demo_chain_ok(1) this]
  have "checkCheckpointGTID chain_gm demo_chain (chain_Segments demo_go demo_chain)
      (storedSet chain_gm demo_chain (chain_Segments demo_go demo_chain)) = []"
    using clean_parts(6) [OF demo_chain_clean] demo_chain_ok(2) by (simp add: CheckCheckpoint_def Let_def demo_chain_fields)
  moreover have "gtids [(demo_server, [GTIDRange 9 9])] = {(demo_server, 9)}"
    by (auto simp: gtids_def lookup_def split: if_splits)
  ultimately show ?thesis using iff by (simp add: demo_chain_fields)
qed

definition blind_bytes :: "byte list" where
  "blind_bytes = durableMagic @ demo_header 15 20 @ [0] @ demo_header 35 20 @ [0]"

definition blind_chain :: Inputs where
  "blind_chain = demo_chain\<lparr>iOrder := [''bin.000001''], iRows := [chain_row\<lparr>roSize := 44\<rparr>],
     iObjects := Some [(''t1/bin.000001'', 44)], iCheckpoint := \<lparr>cpGTIDSet = [], cpFile = [], cpPos = 0\<rparr>,
     iLocal := Some \<lparr>lcDisk = chain_disk\<lparr>kEntries := Inr [(''bin.000001'', False)],
                        kFile := (\<lambda>n. if n = ''bin.000001'' then Some blind_bytes else None)\<rparr>,
                     lcStat = (\<lambda>n. if n = ''bin.000001'' then Some (True, 44) else None)\<rparr>\<rparr>"


end
