(* ===== verification/Rep_Gtid.thy ===== *)
theory Rep_Gtid
  imports Bin_Tail
begin

text \<open>
  What a replication run remembers of the events it copies: the executed GTID set written on a
  checkpoint (\<open>internal/replication/gtid_checkpoint.go\<close>) and the transaction framing that decides when
  a checkpoint may be written (\<open>internal/replication/txn_boundary.go\<close>).

  A \<open>*T\<close> receiver that the sources guard against \<open>nil\<close> is taken as present, and so is the header of an
  event. The typed bodies of go-mysql are the constructors of \<open>EventBody\<close>; its decoders and its GTID
  sets are parameters. Of a pending GTID set the sources only ask whether it is there and print it, so
  it is kept as the text it prints.
\<close>

section \<open>Events of the dump\<close>

datatype EventBody =
    NoBody
  | GenericEvent "byte list"
  | FormatDescriptionEvent byte
  | GTIDEvent "string option"
  | GtidTaggedLogEvent "string option"
  | QueryEvent string
  | PreviousGTIDsEvent
  | MariadbGTIDEvent "string option" bool
  | MariadbGTIDListEvent "string list"
  | OtherEvent

text \<open>The text of a GTID body is the one \<open>GTIDNext\<close> prints, \<open>None\<close> when it returns an error; the flag of a
  MariaDB GTID is \<open>IsStandalone\<close>.\<close>

record BinlogEvent =
  beType :: byte
  beServerID :: int
  beLogPos :: "32 word"
  beEventSize :: "32 word"
  beFlags :: "16 word"
  beTimestamp :: int
  beRaw :: "byte list"
  beBody :: EventBody

text \<open>The decoders of go-mysql, \<open>None\<close> when \<open>Decode\<close> returns an error.\<close>

record godecoders = goevents +
  decodeGTIDEvent :: "byte list \<Rightarrow> string option option"
  decodeTaggedEvent :: "byte list \<Rightarrow> string option option"
  decodeQueryEvent :: "byte list \<Rightarrow> string option"
  decodeMariadbGTIDEvent :: "int \<Rightarrow> byte list \<Rightarrow> (string option \<times> bool) option"
  decodeMariadbListEvent :: "byte list \<Rightarrow> string list option"

section \<open>The executed set\<close>

record 's executedGTID =
  exFlavor :: string
  exSet :: "'s option"
  exPending :: "string option"
  exInTxn :: bool
  exCrc32 :: bool

definition ex_union :: "'s gosets \<Rightarrow> 's executedGTID \<Rightarrow> string \<Rightarrow> 's executedGTID" where
  "ex_union m t gtid =
     (let gtid = trim_space gtid
      in if gtid = [] then t
         else case exSet t of
                None \<Rightarrow> (case parseSet m (exFlavor t) gtid of None \<Rightarrow> t | Some s \<Rightarrow> t\<lparr>exSet := Some s\<rparr>)
              | Some s \<Rightarrow> t\<lparr>exSet := Some (updateSet m s gtid)\<rparr>)"

definition newExecutedGTID :: "'s gosets \<Rightarrow> string \<Rightarrow> string \<Rightarrow> 's executedGTID" where
  "newExecutedGTID m flavor seed =
     (let flavor = (if flavor = [] then ''mysql'' else flavor)
      in ex_union m \<lparr>exFlavor = flavor, exSet = None, exPending = None, exInTxn = False, exCrc32 = False\<rparr> seed)"

definition gtidSeed :: "string \<Rightarrow> string \<Rightarrow> bool \<Rightarrow> string" where
  "gtidSeed taskGTID storedGTID ok =
     (if ok \<and> trim_space storedGTID \<noteq> [] then trim_space storedGTID else trim_space taskGTID)"

definition ex_current :: "'s gosets \<Rightarrow> 's executedGTID \<Rightarrow> string" where
  "ex_current m t = (case exSet t of None \<Rightarrow> [] | Some s \<Rightarrow> if emptySet m s then [] else setText m s)"

definition gtidEventTyped :: "EventBody \<Rightarrow> bool" where
  "gtidEventTyped b = (case b of GTIDEvent _ \<Rightarrow> True | GtidTaggedLogEvent _ \<Rightarrow> True | QueryEvent _ \<Rightarrow> True
     | PreviousGTIDsEvent \<Rightarrow> True | MariadbGTIDEvent _ _ \<Rightarrow> True | MariadbGTIDListEvent _ \<Rightarrow> True | _ \<Rightarrow> False)"

definition eventBody :: "'s executedGTID \<Rightarrow> BinlogEvent \<Rightarrow> byte list" where
  "eventBody t ev =
     (let raw = beRaw ev;
          body = drop EventHeaderSize raw;
          fromRaw = (if length raw \<le> EventHeaderSize then []
                     else if exCrc32 t \<and> length body \<ge> BinlogChecksumLength
                     then take (length body - BinlogChecksumLength) body else body)
      in case beBody ev of GenericEvent d \<Rightarrow> if d \<noteq> [] then d else fromRaw | _ \<Rightarrow> fromRaw)"

definition decodeQueryBody :: "'x godecoders_scheme \<Rightarrow> byte list \<Rightarrow> string option" where
  "decodeQueryBody g body =
     (if length body < 13 then None
      else (let statusVars = nat (little_endian (slice 11 13 body)); schemaLen = unat (body ! 8);
                need = 13 + statusVars + schemaLen + 1
            in if length body < need then None else decodeQueryEvent g body))"

definition mariadbGTIDListBodyOK :: "byte list \<Rightarrow> bool" where
  "mariadbGTIDListBodyOK body \<longleftrightarrow>
     length body \<ge> 4 \<and> int (length body) - 4 \<ge> (little_endian (slice 0 4 body) mod 268435456) * 16"

text \<open>\<open>None\<close> stands for \<open>(nil, false)\<close>: the event needs no decoding.\<close>

definition decodeRaw :: "'x godecoders_scheme \<Rightarrow> 's executedGTID \<Rightarrow> BinlogEvent \<Rightarrow> BinlogEvent option" where
  "decodeRaw g t ev =
     (let ty = beType ev;
          body = eventBody t ev;
          typed = (\<lambda>d. Some (case d of None \<Rightarrow> ev | Some b \<Rightarrow> ev\<lparr>beBody := b\<rparr>))
      in if gtidEventTyped (beBody ev) then None
         else if ty = GTID_EVENT (goBase g) then
           typed (if length body < 1 + SidLength + 8 then None else map_option GTIDEvent (decodeGTIDEvent g body))
         else if ty = GTID_TAGGED_LOG_EVENT g then typed (map_option GtidTaggedLogEvent (decodeTaggedEvent g body))
         else if ty = QUERY_EVENT g then typed (map_option QueryEvent (decodeQueryBody g body))
         else if ty = PREVIOUS_GTIDS_EVENT (goBase g) then
           typed (map_option (\<lambda>_. PreviousGTIDsEvent) (decodePrevious (goBase g) body))
         else if ty = MARIADB_GTID_EVENT g then
           typed (if length body < 13 then None
                  else if and (body ! 12) (FL_GROUP_COMMIT_ID g) \<noteq> 0 \<and> length body < 21 then None
                  else map_option (\<lambda>(text, alone). MariadbGTIDEvent text alone)
                         (decodeMariadbGTIDEvent g (beServerID ev) body))
         else if ty = MARIADB_GTID_LIST_EVENT g then
           typed (if \<not> mariadbGTIDListBodyOK body then None
                  else map_option MariadbGTIDListEvent (decodeMariadbListEvent g body))
         else None)"

definition decoded :: "'x godecoders_scheme \<Rightarrow> 's executedGTID \<Rightarrow> BinlogEvent \<Rightarrow> BinlogEvent" where
  "decoded g t ev = (case decodeRaw g t ev of None \<Rightarrow> ev | Some ev' \<Rightarrow> ev')"

definition ex_commit :: "'s gosets \<Rightarrow> 's executedGTID \<Rightarrow> 's executedGTID" where
  "ex_commit m t =
     (case exPending t of
        None \<Rightarrow> t\<lparr>exInTxn := False\<rparr>
      | Some p \<Rightarrow> (ex_union m t p)\<lparr>exPending := None, exInTxn := False\<rparr>)"

definition noteGTID :: "'s gosets \<Rightarrow> 's executedGTID \<Rightarrow> EventBody \<Rightarrow> 's executedGTID" where
  "noteGTID m t b =
     (let closed = t\<lparr>exPending := None, exInTxn := False\<rparr>
      in case b of
           GTIDEvent (Some gtid) \<Rightarrow> t\<lparr>exPending := Some gtid, exInTxn := False\<rparr>
         | GtidTaggedLogEvent (Some gtid) \<Rightarrow> t\<lparr>exPending := Some gtid, exInTxn := False\<rparr>
         | MariadbGTIDEvent (Some gtid) alone \<Rightarrow>
             if alone then (ex_union m t gtid)\<lparr>exPending := None, exInTxn := False\<rparr>
             else t\<lparr>exPending := Some gtid, exInTxn := True\<rparr>
         | _ \<Rightarrow> closed)"

definition noteQuery :: "'s gosets \<Rightarrow> 's executedGTID \<Rightarrow> EventBody \<Rightarrow> 's executedGTID" where
  "noteQuery m t b =
     (case b of
        QueryEvent q \<Rightarrow>
          if exPending t = None then t
          else (case TransactionQueryEffect q (exInTxn t) of
                  QueryBegins \<Rightarrow> t\<lparr>exInTxn := True\<rparr>
                | QueryCommits \<Rightarrow> ex_commit m t
                | QueryInside \<Rightarrow> t)
      | _ \<Rightarrow> t)"

definition ex_note :: "'s gosets \<Rightarrow> 'x godecoders_scheme \<Rightarrow> 's executedGTID \<Rightarrow> BinlogEvent \<Rightarrow> 's executedGTID" where
  "ex_note m g t ev =
     (let ty = beType ev; b = beBody (decoded g t ev)
      in if ty = FORMAT_DESCRIPTION_EVENT (goBase g) then
           (case beBody ev of
              FormatDescriptionEvent alg \<Rightarrow> t\<lparr>exCrc32 := (alg = CHECKSUM_ALG_CRC32 (goBase g))\<rparr>
            | _ \<Rightarrow> t)
         else if ty = ANONYMOUS_GTID_EVENT g then t\<lparr>exPending := None, exInTxn := False\<rparr>
         else if ty = GTID_EVENT (goBase g) \<or> ty = GTID_TAGGED_LOG_EVENT g \<or> ty = MARIADB_GTID_EVENT g then noteGTID m t b
         else if ty = PREVIOUS_GTIDS_EVENT (goBase g) then t
         else if ty = MARIADB_GTID_LIST_EVENT g then
           (case b of MariadbGTIDListEvent gs \<Rightarrow> foldl (ex_union m) t gs | _ \<Rightarrow> t)
         else if ty = XID_EVENT g \<or> ty = XA_PREPARE_LOG_EVENT g \<or> ty = TRANSACTION_PAYLOAD_EVENT g then ex_commit m t
         else if ty = QUERY_EVENT g then noteQuery m t b
         else t)"

definition body_gtid :: "EventBody \<Rightarrow> string option" where
  "body_gtid b = (case b of GTIDEvent x \<Rightarrow> x | GtidTaggedLogEvent x \<Rightarrow> x | MariadbGTIDEvent x _ \<Rightarrow> x | _ \<Rightarrow> None)"

definition peekGTID :: "'x godecoders_scheme \<Rightarrow> 's executedGTID \<Rightarrow> BinlogEvent \<Rightarrow> string option" where
  "peekGTID g t ev =
     (let ty = beType ev
      in if ty = GTID_EVENT (goBase g) \<or> ty = GTID_TAGGED_LOG_EVENT g \<or> ty = MARIADB_GTID_EVENT g then
           (case body_gtid (beBody (decoded g t ev)) of
              None \<Rightarrow> None
            | Some gtid \<Rightarrow> if trim_space gtid = [] then None else Some (trim_space gtid))
         else None)"

definition ex_contains :: "'s gosets \<Rightarrow> ('s \<Rightarrow> 's \<Rightarrow> bool) \<Rightarrow> 's executedGTID \<Rightarrow> string \<Rightarrow> bool" where
  "ex_contains m Contain t gtid =
     (case exSet t of
        None \<Rightarrow> False
      | Some s \<Rightarrow>
          (let gtid = trim_space gtid
           in if gtid = [] then False
              else case parseSet m (exFlavor t) gtid of None \<Rightarrow> False | Some one \<Rightarrow> Contain s one))"

definition endsTransaction :: "'x godecoders_scheme \<Rightarrow> 's executedGTID \<Rightarrow> BinlogEvent \<Rightarrow> bool" where
  "endsTransaction g t ev =
     (let ty = beType ev
      in if ty = XID_EVENT g \<or> ty = XA_PREPARE_LOG_EVENT g \<or> ty = TRANSACTION_PAYLOAD_EVENT g then True
         else if ty = QUERY_EVENT g then
           (case beBody (decoded g t ev) of
              QueryEvent q \<Rightarrow> TransactionQueryEffect q True = QueryCommits
            | _ \<Rightarrow> False)
         else False)"

definition absorbTail :: "'s gosets \<Rightarrow> 's executedGTID \<Rightarrow> OpenTail \<Rightarrow> 's executedGTID" where
  "absorbTail m t tail =
     (let t = (foldl (ex_union m) t (Durable tail))\<lparr>exPending := None, exInTxn := False\<rparr>;
          gtid = trim_space (otPartialGTID tail)
      in if gtid \<noteq> [] \<and> \<not> otTruncate tail then
           (case parseSet m (exFlavor t) gtid of
              None \<Rightarrow> t
            | Some s \<Rightarrow> t\<lparr>exPending := Some (setText m s), exInTxn := otPartialInTxn tail\<rparr>)
         else t)"

text \<open>An error of the dump: its code when it is a \<open>MyError\<close>, and its text.\<close>

record dump_error =
  deCode :: "int option"
  deText :: string

definition str_contains :: "string \<Rightarrow> string \<Rightarrow> bool" where
  "str_contains s sub \<longleftrightarrow> sub = [] \<or> list_ex (occurs_at s sub) [0..<length s]"

definition mysqlError1236 :: "dump_error option \<Rightarrow> bool" where
  "mysqlError1236 err =
     (case err of
        None \<Rightarrow> False
      | Some e \<Rightarrow> deCode e = Some 1236 \<or> str_contains (deText e) ''ERROR 1236'' \<or> str_contains (deText e) ''Error 1236'')"

section \<open>Transaction boundaries\<close>

record txnBoundary =
  tbInTxn :: bool
  tbBegun :: bool
  tbOpenedAt :: instant
  tbWarnedAt :: instant
  tbEvents :: int

definition tb_zero :: txnBoundary where
  "tb_zero = \<lparr>tbInTxn = False, tbBegun = False, tbOpenedAt = 0, tbWarnedAt = 0, tbEvents = 0\<rparr>"

definition tb_open :: "instant \<Rightarrow> txnBoundary \<Rightarrow> txnBoundary" where
  "tb_open now b = b\<lparr>tbInTxn := True, tbBegun := False, tbOpenedAt := now, tbWarnedAt := 0, tbEvents := 0\<rparr>"

definition tb_close :: "txnBoundary \<Rightarrow> txnBoundary" where
  "tb_close b = b\<lparr>tbInTxn := False, tbBegun := False, tbEvents := 0\<rparr>"

definition tb_event :: "txnBoundary \<Rightarrow> txnBoundary" where
  "tb_event b = b\<lparr>tbEvents := tbEvents b + 1\<rparr>"

definition tb_query :: "txnBoundary \<Rightarrow> string \<Rightarrow> instant \<Rightarrow> txnBoundary \<times> bool" where
  "tb_query b q now =
     (case TransactionQueryEffect q (tbBegun b) of
        QueryBegins \<Rightarrow> ((if tbInTxn b then b else tb_open now b)\<lparr>tbBegun := True\<rparr>, False)
      | QueryCommits \<Rightarrow> (tb_close b, True)
      | QueryInside \<Rightarrow> (tb_event b, False))"

definition tb_observe :: "'x godecoders_scheme \<Rightarrow> txnBoundary \<Rightarrow> BinlogEvent \<Rightarrow> (BinlogEvent \<Rightarrow> BinlogEvent option) option
    \<Rightarrow> instant \<Rightarrow> txnBoundary \<times> bool" where
  "tb_observe g b ev decode now =
     (let ty = beType ev;
          rest = (if tbInTxn b then (tb_event b, False) else (b, True))
      in if ty = GTID_EVENT (goBase g) \<or> ty = GTID_TAGGED_LOG_EVENT g \<or> ty = ANONYMOUS_GTID_EVENT g
            \<or> ty = MARIADB_GTID_EVENT g then (tb_open now b, False)
         else if ty = XID_EVENT g \<or> ty = XA_PREPARE_LOG_EVENT g \<or> ty = TRANSACTION_PAYLOAD_EVENT g then (tb_close b, True)
         else if ty = QUERY_EVENT g then
           (case beBody ev of
              QueryEvent q \<Rightarrow> tb_query b q now
            | _ \<Rightarrow> (case (case decode of None \<Rightarrow> None | Some d \<Rightarrow> d ev) of
                     Some ev' \<Rightarrow> (case beBody ev' of QueryEvent q \<Rightarrow> tb_query b q now | _ \<Rightarrow> rest)
                   | None \<Rightarrow> rest))
         else rest)"

definition warnLong :: "duration \<Rightarrow> txnBoundary \<Rightarrow> instant \<Rightarrow> txnBoundary \<times> bool" where
  "warnLong longTxnWarnAfter b now =
     (if \<not> tbInTxn b \<or> longTxnWarnAfter \<le> 0 \<or> time_sub now (tbOpenedAt b) < longTxnWarnAfter then (b, False)
      else if tbWarnedAt b \<noteq> 0 \<and> time_sub now (tbWarnedAt b) < longTxnWarnAfter then (b, False)
      else (b\<lparr>tbWarnedAt := now\<rparr>, True))"

end
