(* ===== verification/Rep_Gtid_Props.thy ===== *)
theory Rep_Gtid_Props
  imports Rep_Gtid Bin_Resume
begin

text \<open>
  What the executed set of a run contains and when its checkpoints may be written. The transactions of a
  stream are described twice: declaratively, by where a transaction opens and ends among the kinds of its
  events, and by the small machine \<open>track\<close> that both the executed set of a run and the open-tail scan of
  a restart refine.
\<close>

section \<open>Kinds of events\<close>

datatype txn_kind =
    Opens string bool
  | Alone string
  | Unnamed
  | Ends
  | Text string
  | Lists "string list"
  | Neutral

definition gtid_kind :: "EventBody \<Rightarrow> txn_kind" where
  "gtid_kind b = (case b of GTIDEvent (Some x) \<Rightarrow> Opens x False | GtidTaggedLogEvent (Some x) \<Rightarrow> Opens x False
     | MariadbGTIDEvent (Some x) alone \<Rightarrow> if alone then Alone x else Opens x True | _ \<Rightarrow> Unnamed)"

definition kind_of :: "'x godecoders_scheme \<Rightarrow> 's executedGTID \<Rightarrow> BinlogEvent \<Rightarrow> txn_kind" where
  "kind_of g t ev =
     (let ty = beType ev; b = beBody (decoded g t ev)
      in if ty = FORMAT_DESCRIPTION_EVENT (goBase g) then Neutral
         else if ty = ANONYMOUS_GTID_EVENT g then Unnamed
         else if ty = GTID_EVENT (goBase g) \<or> ty = GTID_TAGGED_LOG_EVENT g \<or> ty = MARIADB_GTID_EVENT g then gtid_kind b
         else if ty = PREVIOUS_GTIDS_EVENT (goBase g) then Neutral
         else if ty = MARIADB_GTID_LIST_EVENT g then (case b of MariadbGTIDListEvent gs \<Rightarrow> Lists gs | _ \<Rightarrow> Neutral)
         else if ty = XID_EVENT g \<or> ty = XA_PREPARE_LOG_EVENT g \<or> ty = TRANSACTION_PAYLOAD_EVENT g then Ends
         else if ty = QUERY_EVENT g then (case b of QueryEvent q \<Rightarrow> Text q | _ \<Rightarrow> Neutral)
         else Neutral)"

text \<open>The checksum flag is all that decoding takes from the state.\<close>

definition crc_state :: "bool \<Rightarrow> unit executedGTID" where
  "crc_state c = \<lparr>exFlavor = [], exSet = None, exPending = None, exInTxn = False, exCrc32 = c\<rparr>"

definition crc_after :: "'x godecoders_scheme \<Rightarrow> bool \<Rightarrow> BinlogEvent \<Rightarrow> bool" where
  "crc_after g c ev =
     (if beType ev = FORMAT_DESCRIPTION_EVENT (goBase g) then
        (case beBody ev of FormatDescriptionEvent alg \<Rightarrow> alg = CHECKSUM_ALG_CRC32 (goBase g) | _ \<Rightarrow> c)
      else c)"

primrec kinds :: "'x godecoders_scheme \<Rightarrow> bool \<Rightarrow> BinlogEvent list \<Rightarrow> txn_kind list" where
  "kinds g c [] = []"
| "kinds g c (ev # evs) = kind_of g (crc_state c) ev # kinds g (crc_after g c ev) evs"

lemma eventBody_crc: "exCrc32 t = exCrc32 t' \<Longrightarrow> eventBody t ev = eventBody t' ev"
  unfolding eventBody_def by (erule ssubst) (rule refl)

lemma decoded_crc: "exCrc32 t = exCrc32 t' \<Longrightarrow> decoded g t ev = decoded g t' ev"
  unfolding decoded_def decodeRaw_def using eventBody_crc [of t t' ev] by (simp only:)

lemma kind_of_crc: "kind_of g t ev = kind_of g (crc_state (exCrc32 t)) ev"
  using decoded_crc [of t "crc_state (exCrc32 t)" g ev] unfolding kind_of_def crc_state_def by simp

section \<open>Transactions of a stream\<close>

definition opener :: "txn_kind \<Rightarrow> bool" where
  "opener k = (case k of Opens _ _ \<Rightarrow> True | Alone _ \<Rightarrow> True | Unnamed \<Rightarrow> True | _ \<Rightarrow> False)"

definition begins :: "txn_kind \<Rightarrow> bool" where
  "begins k = (case k of Text q \<Rightarrow> TransactionQueryEffect q False = QueryBegins | _ \<Rightarrow> False)"

definition ends :: "bool \<Rightarrow> txn_kind \<Rightarrow> bool" where
  "ends inTxn k = (case k of Ends \<Rightarrow> True | Text q \<Rightarrow> TransactionQueryEffect q inTxn = QueryCommits | _ \<Rightarrow> False)"

text \<open>Some event of \<open>mid\<close>, which follows the opening of a transaction, ends it.\<close>

definition closed_by :: "bool \<Rightarrow> txn_kind list \<Rightarrow> bool" where
  "closed_by maria mid \<longleftrightarrow> (\<exists>a k b. mid = a @ k # b \<and> ends (maria \<or> (\<exists>x \<in> set a. begins x)) k)"

definition complete_txn :: "txn_kind list \<Rightarrow> string \<Rightarrow> bool" where
  "complete_txn ks x \<longleftrightarrow> Alone x \<in> set ks \<or> (\<exists>pre mid post maria.
     ks = pre @ Opens x maria # mid @ post \<and> (\<forall>k \<in> set mid. \<not> opener k) \<and> closed_by maria mid)"

definition open_txn :: "txn_kind list \<Rightarrow> string \<Rightarrow> bool \<Rightarrow> bool" where
  "open_txn ks x inTxn \<longleftrightarrow> (\<exists>pre mid maria. ks = pre @ Opens x maria # mid \<and> (\<forall>k \<in> set mid. \<not> opener k)
     \<and> \<not> closed_by maria mid \<and> inTxn = (maria \<or> (\<exists>k \<in> set mid. begins k)))"

definition listed_gtid :: "txn_kind list \<Rightarrow> string \<Rightarrow> bool" where
  "listed_gtid ks x \<longleftrightarrow> (\<exists>gs. Lists gs \<in> set ks \<and> x \<in> set gs)"

lemma begins_not_ends: "begins k \<Longrightarrow> \<not> ends i k"
  by (auto simp: begins_def ends_def TransactionQueryEffect_def Let_def split: txn_kind.splits if_splits)

lemma effect_begins: "TransactionQueryEffect q i = QueryBegins \<longleftrightarrow> begins (Text q)"
  by (auto simp: begins_def TransactionQueryEffect_def Let_def)

lemma closed_by_Nil [simp]: "\<not> closed_by maria []"
  by (simp add: closed_by_def)

lemma closed_by_snoc:
  "closed_by maria (mid @ [k]) \<longleftrightarrow> closed_by maria mid \<or> ends (maria \<or> (\<exists>x \<in> set mid. begins x)) k"
proof
  assume "closed_by maria (mid @ [k])"
  then obtain a e b where s: "mid @ [k] = a @ e # b" and e: "ends (maria \<or> (\<exists>x \<in> set a. begins x)) e"
    by (auto simp: closed_by_def)
  show "closed_by maria mid \<or> ends (maria \<or> (\<exists>x \<in> set mid. begins x)) k"
  proof (cases b rule: rev_cases)
    case Nil
    with s e show ?thesis by simp
  next
    case (snoc b' z)
    with s have "mid = a @ e # b'" by simp
    with e show ?thesis unfolding closed_by_def by blast
  qed
next
  assume "closed_by maria mid \<or> ends (maria \<or> (\<exists>x \<in> set mid. begins x)) k"
  then show "closed_by maria (mid @ [k])"
  proof
    assume "closed_by maria mid"
    then obtain a e b where "mid = a @ e # b" "ends (maria \<or> (\<exists>x \<in> set a. begins x)) e"
      by (auto simp: closed_by_def)
    then have "mid @ [k] = a @ e # (b @ [k]) \<and> ends (maria \<or> (\<exists>x \<in> set a. begins x)) e" by simp
    then show ?thesis unfolding closed_by_def by blast
  next
    assume "ends (maria \<or> (\<exists>x \<in> set mid. begins x)) k"
    then show ?thesis unfolding closed_by_def by blast
  qed
qed

lemma open_txn_Nil [simp]: "\<not> open_txn [] x i"
  by (simp add: open_txn_def)

lemma open_txn_snoc:
  "open_txn (ks @ [k]) x i \<longleftrightarrow>
     (if opener k then k = Opens x i else (\<exists>j. open_txn ks x j \<and> \<not> ends j k \<and> i = (j \<or> begins k)))"
proof (cases "opener k")
  case True
  show ?thesis
  proof
    assume "open_txn (ks @ [k]) x i"
    then obtain pre mid maria where s: "ks @ [k] = pre @ Opens x maria # mid" "\<forall>k \<in> set mid. \<not> opener k"
      "i = (maria \<or> (\<exists>k \<in> set mid. begins k))" by (auto simp: open_txn_def)
    then have "mid = []" using True by (cases mid rule: rev_cases) auto
    with s True show "if opener k then k = Opens x i else (\<exists>j. open_txn ks x j \<and> \<not> ends j k \<and> i = (j \<or> begins k))" by simp
  next
    assume "if opener k then k = Opens x i else (\<exists>j. open_txn ks x j \<and> \<not> ends j k \<and> i = (j \<or> begins k))"
    then have "ks @ [k] = ks @ Opens x i # []" using True by simp
    then show "open_txn (ks @ [k]) x i" unfolding open_txn_def by (intro exI [of _ ks] exI [of _ "[]"] exI [of _ i]) simp
  qed
next
  case False
  show ?thesis
  proof
    assume "open_txn (ks @ [k]) x i"
    then obtain pre mid maria where s: "ks @ [k] = pre @ Opens x maria # mid" "\<forall>k \<in> set mid. \<not> opener k"
      "\<not> closed_by maria mid" "i = (maria \<or> (\<exists>k \<in> set mid. begins k))" by (auto simp: open_txn_def)
    obtain mid' where m: "mid = mid' @ [k]" "ks = pre @ Opens x maria # mid'"
      using s(1) False by (cases mid rule: rev_cases) (auto simp: opener_def)
    have "open_txn ks x (maria \<or> (\<exists>k \<in> set mid'. begins k))"
      unfolding open_txn_def using s(2,3) m by (auto simp: closed_by_snoc)
    then show "if opener k then k = Opens x i else (\<exists>j. open_txn ks x j \<and> \<not> ends j k \<and> i = (j \<or> begins k))"
      using False s(3,4) m by (auto simp: closed_by_snoc)
  next
    assume "if opener k then k = Opens x i else (\<exists>j. open_txn ks x j \<and> \<not> ends j k \<and> i = (j \<or> begins k))"
    then obtain pre mid maria where s: "ks = pre @ Opens x maria # mid" "\<forall>k \<in> set mid. \<not> opener k"
      "\<not> closed_by maria mid" and e: "\<not> ends (maria \<or> (\<exists>k \<in> set mid. begins k)) k"
      and i: "i = ((maria \<or> (\<exists>k \<in> set mid. begins k)) \<or> begins k)" using False by (auto simp: open_txn_def)
    then show "open_txn (ks @ [k]) x i"
      unfolding open_txn_def using False
      by (intro exI [of _ pre] exI [of _ "mid @ [k]"] exI [of _ maria]) (auto simp: closed_by_snoc)
  qed
qed

lemma complete_txn_snoc:
  "complete_txn (ks @ [k]) x \<longleftrightarrow> complete_txn ks x \<or> k = Alone x \<or> (\<not> opener k \<and> (\<exists>j. open_txn ks x j \<and> ends j k))"
proof
  assume "complete_txn (ks @ [k]) x"
  then consider "Alone x \<in> set (ks @ [k])" | pre mid post maria where "ks @ [k] = pre @ Opens x maria # mid @ post"
    "\<forall>k \<in> set mid. \<not> opener k" "closed_by maria mid" by (auto simp: complete_txn_def)
  then show "complete_txn ks x \<or> k = Alone x \<or> (\<not> opener k \<and> (\<exists>j. open_txn ks x j \<and> ends j k))"
  proof cases
    case 1
    then show ?thesis by (auto simp: complete_txn_def)
  next
    case 2
    show ?thesis
    proof (cases post rule: rev_cases)
      case (snoc post' z)
      with 2 have "ks = pre @ Opens x maria # mid @ post'" by simp
      with 2 show ?thesis unfolding complete_txn_def by blast
    next
      case Nil
      with 2 obtain mid' where m: "mid = mid' @ [k]" "ks = pre @ Opens x maria # mid' @ []"
        by (cases mid rule: rev_cases) auto
      show ?thesis
      proof (cases "closed_by maria mid'")
        case True
        moreover have "\<forall>k \<in> set mid'. \<not> opener k" using 2(2) m(1) by simp
        ultimately show ?thesis using m(2) unfolding complete_txn_def by blast
      next
        case False
        then have "open_txn ks x (maria \<or> (\<exists>k \<in> set mid'. begins k))"
          using 2 m unfolding open_txn_def by (intro exI [of _ pre] exI [of _ mid'] exI [of _ maria]) simp
        moreover have "ends (maria \<or> (\<exists>k \<in> set mid'. begins k)) k" using 2(3) m(1) False by (simp add: closed_by_snoc)
        ultimately show ?thesis using 2(2) m(1) by auto
      qed
    qed
  qed
next
  assume a: "complete_txn ks x \<or> k = Alone x \<or> (\<not> opener k \<and> (\<exists>j. open_txn ks x j \<and> ends j k))"
  then consider "complete_txn ks x" | "k = Alone x" | j where "\<not> opener k" "open_txn ks x j" "ends j k" by blast
  then show "complete_txn (ks @ [k]) x"
  proof cases
    case 1
    then show ?thesis
      unfolding complete_txn_def by (metis Un_iff append.assoc append_Cons set_append)
  next
    case 2
    then show ?thesis by (simp add: complete_txn_def)
  next
    case 3
    then obtain pre mid maria where s: "ks = pre @ Opens x maria # mid" "\<forall>k \<in> set mid. \<not> opener k"
      and j: "j = (maria \<or> (\<exists>k \<in> set mid. begins k))" by (auto simp: open_txn_def)
    then have "ks @ [k] = pre @ Opens x maria # (mid @ [k]) @ [] \<and> (\<forall>k \<in> set (mid @ [k]). \<not> opener k) \<and> closed_by maria (mid @ [k])"
      using 3 by (auto simp: closed_by_snoc)
    then show ?thesis unfolding complete_txn_def by blast
  qed
qed

section \<open>The executed set follows the transactions\<close>

definition take_kind :: "'s gosets \<Rightarrow> 's executedGTID \<Rightarrow> txn_kind \<Rightarrow> 's executedGTID" where
  "take_kind m t k =
     (case k of
        Opens x i \<Rightarrow> t\<lparr>exPending := Some x, exInTxn := i\<rparr>
      | Alone x \<Rightarrow> (ex_union m t x)\<lparr>exPending := None, exInTxn := False\<rparr>
      | Unnamed \<Rightarrow> t\<lparr>exPending := None, exInTxn := False\<rparr>
      | Ends \<Rightarrow> ex_commit m t
      | Text q \<Rightarrow> noteQuery m t (QueryEvent q)
      | Lists gs \<Rightarrow> foldl (ex_union m) t gs
      | Neutral \<Rightarrow> t)"

lemma ex_union_set: "exSet (ex_union m t x) = union_add m (exFlavor t) (exSet t) x"
  by (simp add: ex_union_def union_add_def Let_def split: option.split)

lemma ex_union_keeps [simp]:
  "exFlavor (ex_union m t x) = exFlavor t" "exPending (ex_union m t x) = exPending t"
  "exInTxn (ex_union m t x) = exInTxn t" "exCrc32 (ex_union m t x) = exCrc32 t"
  by (simp_all add: ex_union_def Let_def split: option.split)

lemma ex_unions_keep [simp]:
  "exFlavor (foldl (ex_union m) t xs) = exFlavor t" "exPending (foldl (ex_union m) t xs) = exPending t"
  "exInTxn (foldl (ex_union m) t xs) = exInTxn t" "exCrc32 (foldl (ex_union m) t xs) = exCrc32 t"
  by (induction xs arbitrary: t) simp_all

lemma ex_unions_set: "exSet (foldl (ex_union m) t xs) = foldl (union_add m (exFlavor t)) (exSet t) xs"
  by (induction xs arbitrary: t) (simp_all add: ex_union_set)

lemma take_kind_keeps [simp]: "exFlavor (take_kind m t k) = exFlavor t" "exCrc32 (take_kind m t k) = exCrc32 t"
  by (simp_all add: take_kind_def ex_commit_def noteQuery_def split: txn_kind.split option.split QueryEffect.split)

lemma noteGTID_kind: "noteGTID m t b = take_kind m t (gtid_kind b)"
  by (simp add: noteGTID_def gtid_kind_def take_kind_def Let_def split: EventBody.split option.split)

lemma noteQuery_kind: "noteQuery m t b = take_kind m t (case b of QueryEvent q \<Rightarrow> Text q | _ \<Rightarrow> Neutral)"
  by (simp add: noteQuery_def take_kind_def split: EventBody.split)

lemma crc_keep: "t\<lparr>exCrc32 := exCrc32 t\<rparr> = t" "exCrc32 t = c \<Longrightarrow> t\<lparr>exCrc32 := c\<rparr> = t"
  by simp_all

lemma ex_note_kind:
  "ex_note m g t ev = (take_kind m t (kind_of g t ev))\<lparr>exCrc32 := crc_after g (exCrc32 t) ev\<rparr>"
proof (cases "beType ev = FORMAT_DESCRIPTION_EVENT (goBase g)")
  case True
  then show ?thesis
    by (simp add: ex_note_def kind_of_def crc_after_def take_kind_def split: EventBody.split)
next
  case False
  then have "ex_note m g t ev = take_kind m t (kind_of g t ev)"
    by (simp add: ex_note_def kind_of_def Let_def noteGTID_kind noteQuery_kind)
      (simp add: take_kind_def split: EventBody.split)
  moreover have "crc_after g (exCrc32 t) ev = exCrc32 t" using False by (simp add: crc_after_def)
  ultimately show ?thesis by (simp add: crc_keep(2))
qed

lemma kinds_snoc: "kinds g c (evs @ [ev]) = kinds g c evs @ [kind_of g (crc_state (foldl (crc_after g) c evs)) ev]"
  by (induction evs arbitrary: c) simp_all

lemma ex_note_crc: "exCrc32 (foldl (ex_note m g) t evs) = foldl (crc_after g) (exCrc32 t) evs"
  by (induction evs arbitrary: t) (simp_all add: ex_note_kind)

context mysql_sets
begin

definition follows :: "(string \<times> int) set \<Rightarrow> txn_kind list \<Rightarrow> 's executedGTID \<Rightarrow> bool" where
  "follows start ks t \<longleftrightarrow> exFlavor t = ''mysql'' \<and> fine ok (exSet t)
     \<and> holds denote (exSet t) = start \<union> (\<Union>x \<in> {x. complete_txn ks x \<or> listed_gtid ks x}. text_says reads x)
     \<and> (\<forall>x i. open_txn ks x i \<longleftrightarrow> exPending t = Some x \<and> exInTxn t = i)"

lemma union_step:
  assumes "exFlavor t = ''mysql''" and "fine ok (exSet t)"
  shows "fine ok (exSet (ex_union m t x)) \<and> holds denote (exSet (ex_union m t x)) = holds denote (exSet t) \<union> text_says reads x"
  using union_add_holds [OF assms(2), of x] assms(1) by (simp add: ex_union_set)

lemma unions_step:
  assumes "exFlavor t = ''mysql''" and "fine ok (exSet t)"
  shows "fine ok (exSet (foldl (ex_union m) t xs))
    \<and> holds denote (exSet (foldl (ex_union m) t xs)) = holds denote (exSet t) \<union> (\<Union>x \<in> set xs. text_says reads x)"
  using union_fold_holds [OF assms(2), of xs] assms(1) by (simp add: ex_unions_set)

lemma listed_snoc: "listed_gtid (ks @ [k]) x \<longleftrightarrow> listed_gtid ks x \<or> (\<exists>gs. k = Lists gs \<and> x \<in> set gs)"
  by (auto simp: listed_gtid_def)

lemma follows_commit:
  assumes "follows start ks t" and k: "\<not> opener k" "\<And>j. open_txn ks x j \<Longrightarrow> ends j k" "exPending t = Some x" "\<And>gs. k \<noteq> Lists gs"
  shows "follows start (ks @ [k]) (ex_commit m t)"
proof -
  have o: "open_txn ks y j \<longleftrightarrow> y = x \<and> j = exInTxn t" for y j
    using assms(1) k(3) by (auto simp: follows_def)
  have c: "complete_txn (ks @ [k]) y \<longleftrightarrow> complete_txn ks y \<or> y = x" for y
    using k(1,2) o by (auto simp: complete_txn_snoc opener_def)
  have n: "\<not> open_txn (ks @ [k]) y j" for y j using k(1,2) o by (auto simp: open_txn_snoc)
  have l: "listed_gtid (ks @ [k]) y \<longleftrightarrow> listed_gtid ks y" for y using k(4) by (simp add: listed_snoc)
  show ?thesis
    using assms(1) union_step [of t x] k(3) by (auto simp: follows_def ex_commit_def c n l)
qed

lemma follows_keep:
  assumes "follows start ks t" and k: "\<not> opener k" "\<And>x j. open_txn ks x j \<Longrightarrow> \<not> ends j k" "\<not> begins k" "\<And>gs. k \<noteq> Lists gs"
  shows "follows start (ks @ [k]) t"
proof -
  have "complete_txn (ks @ [k]) y \<longleftrightarrow> complete_txn ks y" for y
    using k(1,2) by (auto simp: complete_txn_snoc opener_def)
  moreover have "open_txn (ks @ [k]) y j \<longleftrightarrow> open_txn ks y j" for y j using k by (auto simp: open_txn_snoc)
  moreover have "listed_gtid (ks @ [k]) y \<longleftrightarrow> listed_gtid ks y" for y using k(4) by (simp add: listed_snoc)
  ultimately show ?thesis using assms(1) by (simp add: follows_def)
qed

end

context mysql_sets
begin

lemma follows_open:
  assumes "follows start ks t" and "opener k" "\<forall>x. k \<noteq> Alone x"
  shows "follows start (ks @ [k]) (take_kind m t k)"
proof -
  have "complete_txn (ks @ [k]) y \<longleftrightarrow> complete_txn ks y" for y using assms(2,3) by (auto simp: complete_txn_snoc)
  moreover have "listed_gtid (ks @ [k]) y \<longleftrightarrow> listed_gtid ks y" for y using assms(2) by (auto simp: listed_snoc opener_def)
  moreover have "open_txn (ks @ [k]) y j \<longleftrightarrow> k = Opens y j" for y j using assms(2) by (simp add: open_txn_snoc)
  ultimately show ?thesis
    using assms by (cases k) (auto simp: follows_def take_kind_def opener_def)
qed

lemma follows_alone:
  assumes "follows start ks t"
  shows "follows start (ks @ [Alone x]) (take_kind m t (Alone x))"
proof -
  have o: "opener (Alone x)" by (simp add: opener_def)
  have "complete_txn (ks @ [Alone x]) y \<longleftrightarrow> complete_txn ks y \<or> y = x" for y using o by (auto simp: complete_txn_snoc)
  moreover have "listed_gtid (ks @ [Alone x]) y \<longleftrightarrow> listed_gtid ks y" for y by (simp add: listed_snoc)
  moreover have "\<not> open_txn (ks @ [Alone x]) y j" for y j using o by (simp add: open_txn_snoc)
  ultimately show ?thesis
    using assms union_step [of t x] by (auto simp: follows_def take_kind_def)
qed

lemma follows_lists:
  assumes "follows start ks t"
  shows "follows start (ks @ [Lists gs]) (take_kind m t (Lists gs))"
proof -
  have o: "\<not> opener (Lists gs)" "\<not> ends j (Lists gs)" "\<not> begins (Lists gs)" for j
    by (simp_all add: opener_def ends_def begins_def)
  have "complete_txn (ks @ [Lists gs]) y \<longleftrightarrow> complete_txn ks y" for y using o by (auto simp: complete_txn_snoc)
  moreover have "listed_gtid (ks @ [Lists gs]) y \<longleftrightarrow> listed_gtid ks y \<or> y \<in> set gs" for y by (auto simp: listed_snoc)
  moreover have "open_txn (ks @ [Lists gs]) y j \<longleftrightarrow> open_txn ks y j" for y j using o by (auto simp: open_txn_snoc)
  ultimately show ?thesis
    using assms unions_step [of t gs] by (auto simp: follows_def take_kind_def)
qed

lemma follows_ends:
  assumes "follows start ks t"
  shows "follows start (ks @ [Ends]) (take_kind m t Ends)"
proof (cases "exPending t")
  case None
  with assms have "\<not> open_txn ks x j" for x j by (simp add: follows_def)
  then have "follows start (ks @ [Ends]) t" by (intro follows_keep assms) (auto simp: opener_def begins_def)
  with None show ?thesis by (simp add: take_kind_def ex_commit_def follows_def)
next
  case (Some x)
  then show ?thesis
    using follows_commit [OF assms, of Ends x] by (simp add: take_kind_def opener_def ends_def)
qed

lemma follows_text:
  assumes f: "follows start ks t"
  shows "follows start (ks @ [Text q]) (take_kind m t (Text q))"
proof -
  have k: "\<not> opener (Text q)" "\<And>gs. Text q \<noteq> Lists gs" by (simp_all add: opener_def)
  show ?thesis
  proof (cases "exPending t")
    case None
    with f have no: "\<not> open_txn ks x j" for x j by (simp add: follows_def)
    then have "\<not> open_txn (ks @ [Text q]) x j" "complete_txn (ks @ [Text q]) x \<longleftrightarrow> complete_txn ks x" for x j
      using k(1) by (auto simp: open_txn_snoc complete_txn_snoc)
    with f None no show ?thesis by (simp add: follows_def take_kind_def noteQuery_def listed_snoc)
  next
    case (Some x)
    with f have o: "open_txn ks y j \<longleftrightarrow> y = x \<and> j = exInTxn t" for y j by (auto simp: follows_def)
    show ?thesis
    proof (cases "TransactionQueryEffect q (exInTxn t)")
      case QueryInside
      then have "\<not> begins (Text q)" using effect_begins [of q "exInTxn t"] by simp
      then have "follows start (ks @ [Text q]) t"
        using follows_keep [OF f k(1)] k(2) o QueryInside by (simp add: ends_def)
      with Some QueryInside show ?thesis by (simp add: take_kind_def noteQuery_def)
    next
      case QueryBegins
      then have b: "begins (Text q)" using effect_begins [of q "exInTxn t"] by simp
      then have "open_txn (ks @ [Text q]) y j \<longleftrightarrow> y = x \<and> j" "complete_txn (ks @ [Text q]) y \<longleftrightarrow> complete_txn ks y" for y j
        using k(1) o begins_not_ends by (auto simp: open_txn_snoc complete_txn_snoc)
      with f Some QueryBegins show ?thesis by (auto simp: follows_def take_kind_def noteQuery_def listed_snoc)
    next
      case QueryCommits
      then show ?thesis
        using follows_commit [OF f k(1), of x] k(2) o Some by (simp add: ends_def take_kind_def noteQuery_def)
    qed
  qed
qed

lemma follows_step: "follows start ks t \<Longrightarrow> follows start (ks @ [k]) (take_kind m t k)"
  using follows_open [of start ks t k] follows_alone follows_lists follows_ends follows_text
    follows_keep [of start ks t Neutral]
  by (cases k) (simp_all add: opener_def ends_def begins_def take_kind_def [of _ _ Neutral])

lemma follows_new:
  assumes "flavor = [] \<or> flavor = ''mysql''"
  shows "follows (text_says reads seed) [] (newExecutedGTID m flavor seed)"
  using union_step [of "\<lparr>exFlavor = ''mysql'', exSet = None, exPending = None, exInTxn = False, exCrc32 = False\<rparr>" seed] assms
  by (auto simp: newExecutedGTID_def follows_def complete_txn_def listed_gtid_def fine_def holds_def)

lemma follows_run:
  assumes "flavor = [] \<or> flavor = ''mysql''"
  shows "follows (text_says reads seed) (kinds g False evs) (foldl (ex_note m g) (newExecutedGTID m flavor seed) evs)"
proof (induction evs rule: rev_induct)
  case Nil
  then show ?case using follows_new [OF assms] by simp
next
  case (snoc ev evs)
  define t where "t = foldl (ex_note m g) (newExecutedGTID m flavor seed) evs"
  have c: "exCrc32 (newExecutedGTID m flavor seed) = False" by (simp add: newExecutedGTID_def)
  then have "kind_of g t ev = kind_of g (crc_state (foldl (crc_after g) False evs)) ev"
    using kind_of_crc [of g t ev] by (simp add: t_def ex_note_crc)
  moreover have "follows start ks (s\<lparr>exCrc32 := b\<rparr>) = follows start ks s" for start ks s b by (simp add: follows_def)
  ultimately show ?case
    using follows_step [OF snoc.IH, of "kind_of g t ev"]
    by (simp add: kinds_snoc ex_note_kind [of m g t ev] t_def [symmetric])
qed

end

section \<open>What the checkpoint set contains\<close>


definition demo_dec :: godecoders where
  "demo_dec = goevents.extend demo_events
     \<lparr>decodeGTIDEvent = (\<lambda>body. Some (mysqlGTIDText demo_events 33 body)), decodeTaggedEvent = (\<lambda>_. None),
      decodeQueryEvent = (\<lambda>body. Some (map byte_char (drop 14 body))),
      decodeMariadbGTIDEvent = (\<lambda>_ body. Some (Some (map byte_char (drop 13 body)), False)),
      decodeMariadbListEvent = (\<lambda>_. None)\<rparr>"

definition demo_ev :: "byte \<Rightarrow> EventBody \<Rightarrow> BinlogEvent" where
  "demo_ev ty b = \<lparr>beType = ty, beServerID = 1, beLogPos = 0, beEventSize = 19, beFlags = 0, beTimestamp = 7, beRaw = [], beBody = b\<rparr>"

definition demo_stream :: "BinlogEvent list" where
  "demo_stream = [demo_ev 33 (GTIDEvent (Some (demo_server @ '':10''))), demo_ev 2 (QueryEvent ''BEGIN''),
     demo_ev 16 OtherEvent, demo_ev 33 (GTIDEvent (Some (demo_server @ '':11''))), demo_ev 2 (QueryEvent ''BEGIN'')]"

lemma demo_kinds:
  "kinds demo_dec False demo_stream =
     [Opens (demo_server @ '':10'') False, Text ''BEGIN'', Ends, Opens (demo_server @ '':11'') False, Text ''BEGIN'']"
  by code_simp

text \<open>A concrete stream is walked from its end.\<close>

lemma open_txn_last: "ks \<noteq> [] \<Longrightarrow> open_txn ks x i \<longleftrightarrow>
    (if opener (last ks) then last ks = Opens x i
     else (\<exists>j. open_txn (butlast ks) x j \<and> \<not> ends j (last ks) \<and> i = (j \<or> begins (last ks))))"
  using open_txn_snoc [of "butlast ks" "last ks" x i] by simp

lemma complete_txn_last: "ks \<noteq> [] \<Longrightarrow> complete_txn ks x \<longleftrightarrow>
    complete_txn (butlast ks) x \<or> last ks = Alone x \<or> (\<not> opener (last ks) \<and> (\<exists>j. open_txn (butlast ks) x j \<and> ends j (last ks)))"
  using complete_txn_snoc [of "butlast ks" "last ks" x] by simp

lemma complete_txn_Nil [simp]: "\<not> complete_txn [] x"
  by (simp add: complete_txn_def)

lemma BEGIN_effect: "TransactionQueryEffect ''BEGIN'' i = QueryBegins"
  by (cases i; code_simp)


section \<open>Boundaries\<close>

text \<open>The codes of the events the framing tells apart are different codes of the binlog format.\<close>

definition distinct_codes :: "'x godecoders_scheme \<Rightarrow> bool" where
  "distinct_codes g \<longleftrightarrow> distinct [FORMAT_DESCRIPTION_EVENT (goBase g), PREVIOUS_GTIDS_EVENT (goBase g), GTID_EVENT (goBase g),
     GTID_TAGGED_LOG_EVENT g, ANONYMOUS_GTID_EVENT g, MARIADB_GTID_EVENT g, MARIADB_GTID_LIST_EVENT g, XID_EVENT g,
     XA_PREPARE_LOG_EVENT g, TRANSACTION_PAYLOAD_EVENT g, QUERY_EVENT g]"

definition mysql_event :: "'x godecoders_scheme \<Rightarrow> BinlogEvent \<Rightarrow> bool" where
  "mysql_event g ev \<longleftrightarrow> beType ev \<noteq> MARIADB_GTID_EVENT g \<and> (case beBody ev of MariadbGTIDEvent _ _ \<Rightarrow> False | _ \<Rightarrow> True)"

text \<open>One copied event of \<open>handleEvent\<close>: the executed set notes it, then the framing classifies it.\<close>

definition follow :: "'s gosets \<Rightarrow> 'x godecoders_scheme \<Rightarrow> 's executedGTID \<times> txnBoundary \<times> bool \<Rightarrow> BinlogEvent \<times> instant
    \<Rightarrow> 's executedGTID \<times> txnBoundary \<times> bool" where
  "follow m g st e =
     (case st of (t, b, _) \<Rightarrow>
        (let t = ex_note m g t (fst e) in (t, tb_observe g b (fst e) (Some (decodeRaw g t)) (snd e))))"

text \<open>While a GTID is pending the framing is inside its transaction and has seen the same \<open>BEGIN\<close>.\<close>

definition in_step :: "'s executedGTID \<Rightarrow> txnBoundary \<Rightarrow> bool" where
  "in_step t b \<longleftrightarrow> (exPending t \<noteq> None \<longrightarrow> tbInTxn b \<and> tbBegun b = exInTxn t)"

lemma tb_simps [simp]:
  "tbInTxn (tb_open now b)" "\<not> tbBegun (tb_open now b)" "\<not> tbInTxn (tb_close b)" "\<not> tbBegun (tb_close b)"
  "tbInTxn (tb_event b) = tbInTxn b" "tbBegun (tb_event b) = tbBegun b"
  by (simp_all add: tb_open_def tb_close_def tb_event_def)

lemma ex_commit_pending [simp]: "exPending (ex_commit m t) = None"
  by (simp add: ex_commit_def split: option.split)

lemma query_in_step:
  assumes "in_step t b"
  shows "in_step (noteQuery m t (QueryEvent q)) (fst (tb_query b q now))
    \<and> (snd (tb_query b q now) \<longrightarrow> exPending (noteQuery m t (QueryEvent q)) = None)"
proof (cases "exPending t")
  case None
  then show ?thesis by (simp add: in_step_def noteQuery_def)
next
  case (Some x)
  with assms show ?thesis
    by (cases "TransactionQueryEffect q (exInTxn t)") (auto simp: in_step_def noteQuery_def tb_query_def)
qed

lemma kind_mysql:
  assumes "mysql_event g ev" and "beType ev = GTID_EVENT (goBase g) \<or> beType ev = GTID_TAGGED_LOG_EVENT g" and "distinct_codes g"
  shows "(\<exists>x. kind_of g t ev = Opens x False) \<or> kind_of g t ev = Unnamed"
proof -
  have "case beBody (decoded g t ev) of MariadbGTIDEvent _ _ \<Rightarrow> False | _ \<Rightarrow> True"
    using assms by (auto simp: mysql_event_def distinct_codes_def decoded_def decodeRaw_def Let_def split: option.split EventBody.split)
  then show ?thesis
    using assms by (auto simp: kind_of_def gtid_kind_def distinct_codes_def split: EventBody.splits option.splits)
qed

lemma decodeRaw_crc: "exCrc32 t = exCrc32 t' \<Longrightarrow> decodeRaw g t ev = decodeRaw g t' ev"
  unfolding decodeRaw_def using eventBody_crc [of t t' ev] by (simp only:)

lemma rest_in_step:
  assumes "in_step t b" and "exPending t' = exPending t" "exInTxn t' = exInTxn t"
    and "r = (if tbInTxn b then (tb_event b, False) else (b, True))"
  shows "in_step t' (fst r) \<and> (snd r \<longrightarrow> exPending t' = None)"
  using assms by (cases "tbInTxn b") (auto simp: in_step_def)

lemma query_code:
  "distinct_codes g \<Longrightarrow> QUERY_EVENT g \<notin> {FORMAT_DESCRIPTION_EVENT (goBase g), PREVIOUS_GTIDS_EVENT (goBase g), GTID_EVENT (goBase g),
     GTID_TAGGED_LOG_EVENT g, ANONYMOUS_GTID_EVENT g, MARIADB_GTID_EVENT g, MARIADB_GTID_LIST_EVENT g, XID_EVENT g,
     XA_PREPARE_LOG_EVENT g, TRANSACTION_PAYLOAD_EVENT g}"
  by (auto simp: distinct_codes_def)

lemma query_event_in_step:
  assumes st: "in_step t b" and ty: "beType ev = QUERY_EVENT g" and d: "distinct_codes g"
  shows "in_step (ex_note m g t ev) (fst (tb_observe g b ev (Some (decodeRaw g (ex_note m g t ev))) now))
    \<and> (snd (tb_observe g b ev (Some (decodeRaw g (ex_note m g t ev))) now) \<longrightarrow> exPending (ex_note m g t ev) = None)"
proof -
  have n: "ex_note m g t ev = noteQuery m t (beBody (decoded g t ev))"
    using ty query_code [OF d] by (simp add: ex_note_def Let_def)
  have "exCrc32 (ex_note m g t ev) = exCrc32 t" using ty query_code [OF d] by (simp add: ex_note_kind crc_after_def)
  then have r: "decodeRaw g (ex_note m g t ev) ev = decodeRaw g t ev" by (rule decodeRaw_crc)
  define rest where "rest = (if tbInTxn b then (tb_event b, False) else (b, True))"
  have o: "tb_observe g b ev (Some (decodeRaw g (ex_note m g t ev))) now =
    (case beBody (decoded g t ev) of QueryEvent q \<Rightarrow> tb_query b q now | _ \<Rightarrow> rest)"
  proof (cases "\<exists>q. beBody ev = QueryEvent q")
    case True
    then have "decodeRaw g t ev = None" by (auto simp: decodeRaw_def gtidEventTyped_def)
    with True ty query_code [OF d] show ?thesis by (auto simp: tb_observe_def decoded_def)
  next
    case False
    then have "(case beBody ev of QueryEvent q \<Rightarrow> tb_query b q now | _ \<Rightarrow> x) = x" for x by (cases "beBody ev") auto
    then show ?thesis
      using False ty query_code [OF d] r by (cases "decodeRaw g t ev") (auto simp: tb_observe_def decoded_def rest_def split: EventBody.split)
  qed
  show ?thesis
  proof (cases "\<exists>q. beBody (decoded g t ev) = QueryEvent q")
    case True
    then show ?thesis using query_in_step [OF st, of m _ now] n o by auto
  next
    case False
    then have "noteQuery m t (beBody (decoded g t ev)) = t" "(case beBody (decoded g t ev) of QueryEvent q \<Rightarrow> tb_query b q now | _ \<Rightarrow> rest) = rest"
      by (cases "beBody (decoded g t ev)"; auto simp: noteQuery_def)+
    then show ?thesis using rest_in_step [OF st refl refl rest_def] n o by simp
  qed
qed

lemma follow_in_step:
  assumes st: "in_step t b" and d: "distinct_codes g" and my: "mysql_event g ev"
  shows "in_step (ex_note m g t ev) (fst (tb_observe g b ev (Some (decodeRaw g (ex_note m g t ev))) now))
    \<and> (snd (tb_observe g b ev (Some (decodeRaw g (ex_note m g t ev))) now) \<longrightarrow> exPending (ex_note m g t ev) = None)"
proof -
  let ?gtid = "beType ev = GTID_EVENT (goBase g) \<or> beType ev = GTID_TAGGED_LOG_EVENT g"
  let ?fin = "beType ev = XID_EVENT g \<or> beType ev = XA_PREPARE_LOG_EVENT g \<or> beType ev = TRANSACTION_PAYLOAD_EVENT g"
  consider "?gtid" | "beType ev = ANONYMOUS_GTID_EVENT g" | "?fin" | "beType ev = QUERY_EVENT g"
    | "\<not> ?gtid" "beType ev \<noteq> ANONYMOUS_GTID_EVENT g" "\<not> ?fin" "beType ev \<noteq> QUERY_EVENT g" by blast
  then show ?thesis
  proof cases
    case 1
    then have "tb_observe g b ev x now = (tb_open now b, False)" for x by (auto simp: tb_observe_def)
    then show ?thesis using kind_mysql [OF my 1 d, of t] by (auto simp: ex_note_kind take_kind_def in_step_def)
  next
    case 2
    then have "tb_observe g b ev x now = (tb_open now b, False)" for x by (auto simp: tb_observe_def)
    moreover have "exPending (ex_note m g t ev) = None" using 2 d by (auto simp: ex_note_def distinct_codes_def)
    ultimately show ?thesis by (simp add: in_step_def)
  next
    case 3
    then have "exPending (ex_note m g t ev) = None" using d by (auto simp: ex_note_def distinct_codes_def Let_def)
    then show ?thesis by (simp add: in_step_def)
  next
    case 4
    then show ?thesis by (rule query_event_in_step [OF st _ d])
  next
    case 5
    then have o: "tb_observe g b ev x now = (if tbInTxn b then (tb_event b, False) else (b, True))" for x
      using my by (auto simp: tb_observe_def mysql_event_def)
    have p: "exPending (ex_note m g t ev) = exPending t" "exInTxn (ex_note m g t ev) = exInTxn t"
      using 5 my by (auto simp: ex_note_def mysql_event_def Let_def split: EventBody.split)
    show ?thesis unfolding o by (rule rest_in_step [OF st p refl])
  qed
qed


text \<open>Sets kept as the list of their texts, for the demonstrations.\<close>

definition text_sets :: "string list gosets" where
  "text_sets = \<lparr>parseSet = (\<lambda>_ x. Some [x]), updateSet = (\<lambda>s x. s @ [x]), emptySet = (\<lambda>s. s = []), setText = join_with CHR '',''\<rparr>"



end
