(* ===== verification/Rep_Restart.thy ===== *)
theory Rep_Restart
  imports Rep_Gtid_Props
begin

text \<open>
  A restart reads back what the run remembered. The run notes the events of the dump in memory
  (\<open>gtid_checkpoint.go\<close>), a restart scans the bytes of the open segment (\<open>open_tail.go\<close>) and absorbs the
  scan into the stored set; the two agree on the executed set and on the unfinished transaction.
\<close>

section \<open>The events of a file as the dump delivered them\<close>

text \<open>In raw mode go-mysql parses the format description only; every other body stays in the raw bytes.\<close>

definition as_dumped :: "godecoders \<Rightarrow> raw_event \<Rightarrow> BinlogEvent" where
  "as_dumped g e =
     (let hdr = fst (snd e); body = snd (snd e)
      in \<lparr>beType = hdr ! 4, beServerID = little_endian (slice 5 9 hdr), beLogPos = word_of_int (event_pos e),
          beEventSize = word_of_int (event_size e), beFlags = word_of_int (little_endian (slice 17 19 hdr)),
          beTimestamp = little_endian (slice 0 4 hdr), beRaw = hdr @ body,
          beBody = (if hdr ! 4 = FORMAT_DESCRIPTION_EVENT (goBase g)
                    then (case decodeFormat (goBase g) body of Some alg \<Rightarrow> FormatDescriptionEvent alg | None \<Rightarrow> NoBody)
                    else NoBody)\<rparr>)"

definition payload_of :: "bool \<Rightarrow> byte list \<Rightarrow> byte list" where
  "payload_of crc body = (if crc \<and> length body \<ge> BinlogChecksumLength then take (length body - BinlogChecksumLength) body else body)"

text \<open>go-mysql and the scanner's own readers agree on one MySQL event: they read the same GTID and a query
  text with the same effect, and a format description decodes.\<close>

definition event_agrees :: "godecoders \<Rightarrow> bool \<Rightarrow> raw_event \<Rightarrow> bool" where
  "event_agrees g crc e \<longleftrightarrow>
     (let ty = fst (snd e) ! 4; body = snd (snd e); payload = payload_of crc body; ge = goevents.truncate g
      in length (fst (snd e)) = EventHeaderSize \<and> ty \<noteq> MARIADB_GTID_EVENT g \<and> ty \<noteq> MARIADB_GTID_LIST_EVENT g
         \<and> (ty = FORMAT_DESCRIPTION_EVENT (goBase g) \<longrightarrow> length body \<ge> 57 \<and> decodeFormat (goBase g) body \<noteq> None)
         \<and> (ty = GTID_EVENT (goBase g) \<longrightarrow>
              mysqlGTIDText ge ty payload = (if length payload < 1 + SidLength + 8 then None
                                             else case decodeGTIDEvent g payload of Some (Some x) \<Rightarrow> Some x | _ \<Rightarrow> None))
         \<and> (ty = GTID_TAGGED_LOG_EVENT g \<longrightarrow>
              mysqlGTIDText ge ty payload = (case decodeTaggedEvent g payload of Some (Some x) \<Rightarrow> Some x | _ \<Rightarrow> None))
         \<and> (ty = QUERY_EVENT g \<longrightarrow>
              TransactionQueryEffect (case decodeQueryBody g payload of Some q \<Rightarrow> q | None \<Rightarrow> []) True
                = TransactionQueryEffect (queryText payload) True
              \<and> TransactionQueryEffect (case decodeQueryBody g payload of Some q \<Rightarrow> q | None \<Rightarrow> []) False
                = TransactionQueryEffect (queryText payload) False))"

primrec events_agree :: "godecoders \<Rightarrow> bool \<Rightarrow> raw_event list \<Rightarrow> bool" where
  "events_agree g crc [] = True"
| "events_agree g crc (e # es) = (event_agrees g crc e \<and> events_agree g (crc_after g crc (as_dumped g e)) es)"

section \<open>The simulation\<close>

definition reads_back :: "'s gosets \<Rightarrow> string \<Rightarrow> 's option \<Rightarrow> 's executedGTID \<Rightarrow> tail_state \<Rightarrow> bool" where
  "reads_back m flavor start t s \<longleftrightarrow> exFlavor t = flavor \<and> exCrc32 t = tsCrc32 s
     \<and> exSet t = foldl (union_add m flavor) start (tsGTIDs s)
     \<and> exPending t = (if tsPending s = [] then None else Some (tsPending s))
     \<and> (tsPending s \<noteq> [] \<longrightarrow> exInTxn t = tsInTxn s)"

lemma mysqlGTIDText_not_empty: "mysqlGTIDText g t body = Some x \<Longrightarrow> x \<noteq> []"
  by (auto simp: mysqlGTIDText_def Let_def split: if_splits option.splits)

lemma truncate_codes [simp]:
  "goBase (goevents.truncate g) = goBase g" "MARIADB_GTID_LIST_EVENT (goevents.truncate g) = MARIADB_GTID_LIST_EVENT g"
  "MARIADB_GTID_EVENT (goevents.truncate g) = MARIADB_GTID_EVENT g" "GTID_TAGGED_LOG_EVENT (goevents.truncate g) = GTID_TAGGED_LOG_EVENT g"
  "ANONYMOUS_GTID_EVENT (goevents.truncate g) = ANONYMOUS_GTID_EVENT g" "XID_EVENT (goevents.truncate g) = XID_EVENT g"
  "XA_PREPARE_LOG_EVENT (goevents.truncate g) = XA_PREPARE_LOG_EVENT g"
  "TRANSACTION_PAYLOAD_EVENT (goevents.truncate g) = TRANSACTION_PAYLOAD_EVENT g" "QUERY_EVENT (goevents.truncate g) = QUERY_EVENT g"
  by (simp_all add: goevents.truncate_def)

lemma tail_note_keeps [simp]:
  "tsGTIDs (tail_note s o' p) = tsGTIDs s" "tsPending (tail_note s o' p) = tsPending s"
  "tsInTxn (tail_note s o' p) = tsInTxn s" "tsCrc32 (tail_note s o' p) = tsCrc32 s"
  by (simp_all add: tail_note_def Let_def)

lemma reads_back_note: "reads_back m fl st t (tail_note s o' p) = reads_back m fl st t s"
  by (simp add: reads_back_def)

lemma as_dumped_simps [simp]: "beType (as_dumped g e) = fst (snd e) ! 4" "beRaw (as_dumped g e) = fst (snd e) @ snd (snd e)"
  by (simp_all add: as_dumped_def Let_def)

lemma dumped_body:
  assumes "fst (snd e) ! 4 \<noteq> FORMAT_DESCRIPTION_EVENT (goBase g)" and "length (fst (snd e)) = EventHeaderSize"
  shows "beBody (as_dumped g e) = NoBody" "eventBody t (as_dumped g e) = payload_of (exCrc32 t) (snd (snd e))"
proof -
  show b: "beBody (as_dumped g e) = NoBody" using assms(1) by (simp add: as_dumped_def Let_def)
  show "eventBody t (as_dumped g e) = payload_of (exCrc32 t) (snd (snd e))"
    using assms(2) by (auto simp: eventBody_def b payload_of_def BinlogChecksumLength_def Let_def)
qed

lemma commit_reads_back:
  assumes "reads_back m fl st t s"
  shows "reads_back m fl st (ex_commit m t) (tail_commit s)"
  using assms by (auto simp: reads_back_def ex_commit_def tail_commit_def ex_union_set split: option.split)

lemma open_reads_back:
  assumes "reads_back m fl st t s" and "x \<noteq> []"
  shows "reads_back m fl st (t\<lparr>exPending := Some x, exInTxn := False\<rparr>)
    (tail_open (s\<lparr>tsPending := [], tsInTxn := False\<rparr>) x a b c)"
  using assms by (simp add: reads_back_def tail_open_def)

lemma closed_reads_back:
  assumes "reads_back m fl st t s"
  shows "reads_back m fl st (t\<lparr>exPending := None, exInTxn := False\<rparr>) (s\<lparr>tsPending := [], tsInTxn := False\<rparr>)"
  using assms by (simp add: reads_back_def)

lemma gtid_reads_back:
  assumes r: "reads_back m fl st t s" and a: "event_agrees g (tsCrc32 s) e" and d: "distinct_codes g"
    and ty: "fst (snd e) ! 4 = GTID_EVENT (goBase g) \<or> fst (snd e) ! 4 = GTID_TAGGED_LOG_EVENT g"
  shows "reads_back m fl st (ex_note m g t (as_dumped g e)) (tail_switch (goevents.truncate g) s (fst (snd e)) (snd (snd e)) o' sz p)"
proof -
  let ?ty = "fst (snd e) ! 4" and ?p = "payload_of (tsCrc32 s) (snd (snd e))"
  have n: "?ty \<notin> {FORMAT_DESCRIPTION_EVENT (goBase g), PREVIOUS_GTIDS_EVENT (goBase g), MARIADB_GTID_LIST_EVENT g, ANONYMOUS_GTID_EVENT g,
      MARIADB_GTID_EVENT g}" using ty d by (auto simp: distinct_codes_def)
  have len: "length (fst (snd e)) = EventHeaderSize" using a by (simp add: event_agrees_def Let_def)
  have b: "beBody (as_dumped g e) = NoBody" "eventBody t (as_dumped g e) = ?p"
    using dumped_body(1) [of e g] dumped_body(2) [of e g t] n len r by (simp_all add: reads_back_def)
  have tail: "tail_switch (goevents.truncate g) s (fst (snd e)) (snd (snd e)) o' sz p =
    (case mysqlGTIDText (goevents.truncate g) ?ty ?p of
       Some gtid \<Rightarrow> tail_open (s\<lparr>tsPending := [], tsInTxn := False\<rparr>) gtid o' sz p
     | None \<Rightarrow> s\<lparr>tsPending := [], tsInTxn := False\<rparr>)"
    using n ty by (auto simp: tail_switch_def Let_def payload_of_def)
  have note': "ex_note m g t (as_dumped g e) = noteGTID m t (beBody (decoded g t (as_dumped g e)))"
    using n ty by (auto simp: ex_note_def Let_def)
  have dec: "noteGTID m t (beBody (decoded g t (as_dumped g e))) =
    (case mysqlGTIDText (goevents.truncate g) ?ty ?p of
       Some x \<Rightarrow> t\<lparr>exPending := Some x, exInTxn := False\<rparr> | None \<Rightarrow> t\<lparr>exPending := None, exInTxn := False\<rparr>)"
  proof (cases "?ty = GTID_EVENT (goBase g)")
    case True
    then show ?thesis
      using a b by (auto simp: decoded_def decodeRaw_def gtidEventTyped_def event_agrees_def noteGTID_def Let_def split: option.splits)
  next
    case False
    then have "?ty = GTID_TAGGED_LOG_EVENT g" using ty by simp
    with False show ?thesis
      using a b by (auto simp: decoded_def decodeRaw_def gtidEventTyped_def event_agrees_def noteGTID_def Let_def split: option.splits)
  qed
  show ?thesis
    unfolding note' dec tail
    using open_reads_back [OF r] closed_reads_back [OF r] mysqlGTIDText_not_empty by (auto split: option.split)
qed

lemma query_reads_back:
  assumes r: "reads_back m fl st t s" and a: "event_agrees g (tsCrc32 s) e" and d: "distinct_codes g"
    and ty: "fst (snd e) ! 4 = QUERY_EVENT g"
  shows "reads_back m fl st (ex_note m g t (as_dumped g e)) (tail_switch (goevents.truncate g) s (fst (snd e)) (snd (snd e)) o' sz p)"
proof -
  let ?p = "payload_of (tsCrc32 s) (snd (snd e))"
  note n = query_code [OF d]
  have len: "length (fst (snd e)) = EventHeaderSize" using a by (simp add: event_agrees_def Let_def)
  have b: "beBody (as_dumped g e) = NoBody" "eventBody t (as_dumped g e) = ?p"
    using dumped_body(1) [of e g] dumped_body(2) [of e g t] n len r ty by (simp_all add: reads_back_def)
  define q where "q = (case decodeQueryBody g ?p of Some q \<Rightarrow> q | None \<Rightarrow> [])"
  have eff: "TransactionQueryEffect q i = TransactionQueryEffect (queryText ?p) i" for i
    using a ty by (cases i) (simp_all add: event_agrees_def Let_def q_def)
  have nil: "TransactionQueryEffect [] i = QueryInside" for i by (simp add: TransactionQueryEffect_def trim_space_def to_upper_def before_any_def)
  have tail: "tail_switch (goevents.truncate g) s (fst (snd e)) (snd (snd e)) o' sz p =
    (if tsPending s = [] then s
     else (case TransactionQueryEffect q (tsInTxn s) of
             QueryBegins \<Rightarrow> s\<lparr>tsInTxn := True\<rparr> | QueryCommits \<Rightarrow> tail_commit s | QueryInside \<Rightarrow> s))"
    using n ty unfolding eff by (auto simp: tail_switch_def Let_def payload_of_def)
  have body: "beBody (decoded g t (as_dumped g e)) = (case decodeQueryBody g ?p of Some q \<Rightarrow> QueryEvent q | None \<Rightarrow> NoBody)"
    using n ty b by (auto simp: decoded_def decodeRaw_def gtidEventTyped_def Let_def split: option.split)
  have "ex_note m g t (as_dumped g e) =
    (if exPending t = None then t
     else (case TransactionQueryEffect q (exInTxn t) of
             QueryBegins \<Rightarrow> t\<lparr>exInTxn := True\<rparr> | QueryCommits \<Rightarrow> ex_commit m t | QueryInside \<Rightarrow> t))"
    using n ty body by (auto simp: ex_note_def Let_def noteQuery_def q_def nil split: option.split)
  then show ?thesis
    unfolding tail using r commit_reads_back [OF r]
    by (cases "TransactionQueryEffect q (tsInTxn s)") (auto simp: reads_back_def split: option.splits)
qed

lemma switch_reads_back:
  assumes r: "reads_back m fl st t s" and a: "event_agrees g (tsCrc32 s) e" and d: "distinct_codes g"
  shows "reads_back m fl st (ex_note m g t (as_dumped g e))
    (tail_switch (goevents.truncate g) s (fst (snd e))
       (if tailNeedsBody (goevents.truncate g) (fst (snd e) ! 4) then snd (snd e) else []) o' sz p)"
proof -
  let ?ty = "fst (snd e) ! 4"
  have my: "?ty \<noteq> MARIADB_GTID_EVENT g" "?ty \<noteq> MARIADB_GTID_LIST_EVENT g" using a by (simp_all add: event_agrees_def Let_def)
  consider "?ty = GTID_EVENT (goBase g) \<or> ?ty = GTID_TAGGED_LOG_EVENT g" | "?ty = QUERY_EVENT g"
    | "?ty = FORMAT_DESCRIPTION_EVENT (goBase g)" | "?ty = PREVIOUS_GTIDS_EVENT (goBase g)" | "?ty = ANONYMOUS_GTID_EVENT g"
    | "?ty = XID_EVENT g \<or> ?ty = XA_PREPARE_LOG_EVENT g \<or> ?ty = TRANSACTION_PAYLOAD_EVENT g"
    | "?ty \<notin> {GTID_EVENT (goBase g), GTID_TAGGED_LOG_EVENT g, QUERY_EVENT g, FORMAT_DESCRIPTION_EVENT (goBase g),
         PREVIOUS_GTIDS_EVENT (goBase g), ANONYMOUS_GTID_EVENT g, XID_EVENT g, XA_PREPARE_LOG_EVENT g, TRANSACTION_PAYLOAD_EVENT g}"
    by blast
  then show ?thesis
  proof cases
    case 1
    then show ?thesis using gtid_reads_back [OF r a d 1] by (auto simp: tailNeedsBody_def)
  next
    case 2
    then show ?thesis using query_reads_back [OF r a d 2] by (simp add: tailNeedsBody_def)
  next
    case 3
    moreover have "length (snd (snd e)) \<ge> 57" "decodeFormat (goBase g) (snd (snd e)) \<noteq> None"
      using a 3 by (simp_all add: event_agrees_def Let_def)
    ultimately show ?thesis
      using r by (auto simp: tail_switch_def Let_def ex_note_def as_dumped_def tailNeedsBody_def reads_back_def fdChecksum_def)
  next
    case 4
    then have "?ty \<noteq> FORMAT_DESCRIPTION_EVENT (goBase g)" "?ty \<noteq> ANONYMOUS_GTID_EVENT g" "?ty \<noteq> GTID_EVENT (goBase g)"
      "?ty \<noteq> GTID_TAGGED_LOG_EVENT g" using d by (auto simp: distinct_codes_def)
    then show ?thesis
      using r 4 my by (simp add: ex_note_def tail_switch_def Let_def tailNeedsBody_def reads_back_def split: option.split)
  next
    case 5
    then have "?ty \<noteq> FORMAT_DESCRIPTION_EVENT (goBase g)" "?ty \<noteq> PREVIOUS_GTIDS_EVENT (goBase g)" using d by (auto simp: distinct_codes_def)
    then show ?thesis using closed_reads_back [OF r] 5 my by (simp add: ex_note_def tail_switch_def Let_def)
  next
    case 6
    then have "?ty \<noteq> FORMAT_DESCRIPTION_EVENT (goBase g)" "?ty \<noteq> PREVIOUS_GTIDS_EVENT (goBase g)" "?ty \<noteq> ANONYMOUS_GTID_EVENT g"
      "?ty \<noteq> GTID_EVENT (goBase g)" "?ty \<noteq> GTID_TAGGED_LOG_EVENT g" using d by (auto simp: distinct_codes_def)
    then show ?thesis using commit_reads_back [OF r] 6 my by (simp add: ex_note_def tail_switch_def Let_def)
  next
    case 7
    then have "ex_note m g t (as_dumped g e) = t" using my by (simp add: ex_note_def Let_def)
    then show ?thesis using r 7 my by (simp add: tail_switch_def Let_def)
  qed
qed

lemma run_reads_back:
  assumes "reads_back m fl st t s" and "events_agree g (tsCrc32 s) es" and d: "distinct_codes g"
  shows "reads_back m fl st (foldl (ex_note m g) t (map (as_dumped g) es)) (foldl (tail_note_event (goevents.truncate g)) s es)"
  using assms(1,2)
proof (induction es arbitrary: t s)
  case (Cons e es)
  define s1 where "s1 = tail_note_event (goevents.truncate g) s e"
  have r: "reads_back m fl st (ex_note m g t (as_dumped g e)) s1"
    unfolding s1_def tail_note_event_def tail_event_def reads_back_note
    using switch_reads_back [OF Cons.prems(1) _ d] Cons.prems(2) by simp
  moreover have "tsCrc32 s1 = crc_after g (tsCrc32 s) (as_dumped g e)"
    using r Cons.prems(1) by (simp add: reads_back_def ex_note_kind)
  ultimately show ?case using Cons.IH [of "ex_note m g t (as_dumped g e)" s1] Cons.prems(2) by (simp add: s1_def)
qed simp

section \<open>The restart\<close>

text \<open>C12. A restart continues where the run stopped: on a segment of MySQL events that both readers can read, the
  set a restart gets by absorbing the scan of the file is the executed set the run held in memory after
  its last event, and the unfinished transaction of the scan is the one the run had pending.\<close>

theorem restart_reads_back:
  assumes "distinct_codes g" and "events_agree g False (segment_events bs)"
    and "ScanOpenTail (goevents.truncate g) path (segment_bytes bs) = Some tail"
    and "start = newExecutedGTID m flavor seed"
    and "t = foldl (ex_note m g) start (map (as_dumped g) (segment_events bs))"
  shows "exSet (absorbTail m start tail) = exSet t
    \<and> exPending t = (if otPartialGTID tail = [] then None else Some (otPartialGTID tail))
    \<and> (otPartialGTID tail \<noteq> [] \<longrightarrow> exInTxn t = otPartialInTxn tail)"
proof -
  define s where "s = foldl (tail_note_event (goevents.truncate g)) tail_start (segment_events bs)"
  have "reads_back m (exFlavor start) (exSet start) start tail_start"
    by (simp add: assms(4) reads_back_def newExecutedGTID_def tail_start_def Let_def)
  then have r: "reads_back m (exFlavor start) (exSet start) t s"
    unfolding assms(5) s_def using run_reads_back [OF _ _ assms(1), of m _ _ start tail_start "segment_events bs"] assms(2)
    by (simp add: tail_start_def)
  have "tail_result path s = Some tail"
    using assms(3) by (simp add: ScanOpenTail_fold segment_events_def s_def split: if_splits)
  then have tl: "otGTIDs tail = tsGTIDs s" "otPartialGTID tail = tsPending s" "otPartialInTxn tail = (tsPending s \<noteq> [] \<and> tsInTxn s)"
    by (auto simp: tail_result_def Let_def split: if_splits)
  have "exSet (absorbTail m start tail) = foldl (union_add m (exFlavor start)) (exSet start) (otGTIDs tail)"
    by (simp add: absorbTail_def Let_def Durable_def ex_unions_set split: option.split)
  with r tl show ?thesis by (auto simp: reads_back_def)
qed

lemma demo_dec_events [simp]: "goevents.truncate demo_dec = demo_events"
  by (simp add: demo_dec_def goevents.truncate_def goevents.extend_def demo_events_def)

lemma demo_segment:
  "segment_events demo_tail_bytes =
     [(4, take 19 (demo_gtid_event 9 68), drop 19 (demo_gtid_event 9 68)), (48, demo_xid_event 87, []),
      (67, take 19 (demo_gtid_event 10 131), drop 19 (demo_gtid_event 10 131))]"
  by code_simp

lemma demo_codes: "distinct_codes demo_dec"
  by code_simp

lemma demo_dec_codes:
  "FORMAT_DESCRIPTION_EVENT (goBase demo_dec) = 15" "GTID_EVENT (goBase demo_dec) = 33" "GTID_TAGGED_LOG_EVENT demo_dec = 42"
  "MARIADB_GTID_EVENT demo_dec = 162" "MARIADB_GTID_LIST_EVENT demo_dec = 163" "QUERY_EVENT demo_dec = 2"
  "decodeGTIDEvent demo_dec body = Some (mysqlGTIDText demo_events 33 body)"
  by (simp_all add: demo_dec_def goevents.extend_def demo_events_def demo_go_def)

lemma demo_event_agrees:
  assumes "length hdr = EventHeaderSize" and "hdr ! 4 = 33 \<or> hdr ! 4 = 16"
  shows "event_agrees demo_dec crc (off, hdr, body)"
  using assms by (auto simp: event_agrees_def demo_dec_codes mysqlGTIDText_def demo_events_def demo_go_def Let_def split: option.split)

lemma demo_agree: "events_agree demo_dec False (segment_events demo_tail_bytes)"
  by (simp add: demo_segment demo_event_agrees demo_gtid_event_def demo_xid_event_def EventHeaderSize_def)

theorem restart_reads_back_witness:
  "exSet (absorbTail text_sets (newExecutedGTID text_sets [] []) demo_tail)
     = exSet (foldl (ex_note text_sets demo_dec) (newExecutedGTID text_sets [] []) (map (as_dumped demo_dec) (segment_events demo_tail_bytes)))
   \<and> exPending (foldl (ex_note text_sets demo_dec) (newExecutedGTID text_sets [] []) (map (as_dumped demo_dec) (segment_events demo_tail_bytes)))
     = Some (demo_server @ '':10'')"
proof -
  have p: "otPartialGTID demo_tail = demo_server @ '':10''" by (simp add: demo_tail_def demo_server_def)
  show ?thesis
    using restart_reads_back [OF demo_codes demo_agree, of "''s''" demo_tail _ text_sets "[]" "[]", OF _ refl refl] demo_tail_scan p by (simp add: demo_server_def)
qed

end
