(* ===== verification/Rep_Fence.thy ===== *)
theory Rep_Fence
  imports Bin_Segment
begin

text \<open>
  The write fence of a run: the lease table (\<open>internal/tasks/memory_lease.go\<close>), the worker's own view of
  its lease (\<open>LeaseClock\<close> of \<open>internal/tasks/write_fence.go\<close>), the checks a run's side effects pass
  (\<open>internal/replication/write_fence.go\<close>) and the fence of a task row (\<open>CheckTaskRowFence\<close> of
  \<open>internal/tasks/fenced_persist.go\<close>).

  A Go map is an association list, a \<open>nil\<close> pointer or interface \<open>None\<close>. The clock a component reads is
  the argument \<open>now\<close>; adding a duration to an instant is plain addition.
\<close>

section \<open>The lease table\<close>

record memoryLeaseRow =
  mlOwner :: string
  mlEpoch :: int64
  mlExpire :: instant

type_synonym MemoryLease = "memoryLeaseRow go_map"

text \<open>The result pairs of the methods are the table after the call and what the call returns; no method
  returns an error.\<close>

definition ml_Acquire :: "instant \<Rightarrow> MemoryLease \<Rightarrow> string \<Rightarrow> string \<Rightarrow> duration \<Rightarrow> MemoryLease \<times> int64 \<times> bool" where
  "ml_Acquire now m taskID workerID ttl =
     (case map_of m taskID of
        None \<Rightarrow> (AList.update taskID \<lparr>mlOwner = workerID, mlEpoch = 1, mlExpire = now + ttl\<rparr> m, 1, True)
      | Some row \<Rightarrow>
          if mlExpire row > now \<and> mlOwner row \<noteq> [] then (m, mlEpoch row, mlOwner row = workerID)
          else (let epoch = (if mlOwner row \<noteq> workerID then mlEpoch row + 1 else mlEpoch row)
                in (AList.update taskID \<lparr>mlOwner = workerID, mlEpoch = epoch, mlExpire = now + ttl\<rparr> m, epoch, True)))"

definition ml_Renew :: "instant \<Rightarrow> MemoryLease \<Rightarrow> string \<Rightarrow> string \<Rightarrow> int64 \<Rightarrow> instant \<Rightarrow> duration \<Rightarrow> MemoryLease \<times> bool" where
  "ml_Renew clock m taskID workerID epoch now ttl =
     (case map_of m taskID of
        None \<Rightarrow> (m, False)
      | Some row \<Rightarrow>
          if mlOwner row \<noteq> workerID \<or> mlEpoch row \<noteq> epoch then (m, False)
          else (AList.update taskID (row\<lparr>mlExpire := (if now = 0 then clock else now) + ttl\<rparr>) m, True))"

definition ml_Release :: "instant \<Rightarrow> MemoryLease \<Rightarrow> string \<Rightarrow> string \<Rightarrow> int64 \<Rightarrow> MemoryLease \<times> bool" where
  "ml_Release now m taskID workerID epoch =
     (case map_of m taskID of
        None \<Rightarrow> (m, False)
      | Some row \<Rightarrow>
          if mlOwner row \<noteq> workerID \<or> mlEpoch row \<noteq> epoch then (m, False)
          else (AList.update taskID (row\<lparr>mlOwner := [], mlExpire := now\<rparr>) m, True))"

definition ml_Verify :: "instant \<Rightarrow> MemoryLease \<Rightarrow> string \<Rightarrow> string \<Rightarrow> int64 \<Rightarrow> bool" where
  "ml_Verify now m taskID workerID epoch =
     (case map_of m taskID of
        None \<Rightarrow> False
      | Some row \<Rightarrow> mlOwner row = workerID \<and> mlEpoch row = epoch \<and> mlExpire row > now)"

definition ViewLease :: "MemoryLease \<Rightarrow> string \<Rightarrow> string \<times> int64 \<times> bool" where
  "ViewLease m taskID = (case map_of m taskID of None \<Rightarrow> ([], 0, False) | Some row \<Rightarrow> (mlOwner row, mlEpoch row, True))"

section \<open>The lease clock of a worker\<close>

record leaseClockEntry =
  lcEpoch :: int64
  lcConfirmedAt :: instant
  lcTtl :: duration
  lcLost :: bool

type_synonym LeaseClock = "leaseClockEntry go_map"

definition lc_Confirm :: "LeaseClock \<Rightarrow> string \<Rightarrow> int64 \<Rightarrow> instant \<Rightarrow> duration \<Rightarrow> LeaseClock" where
  "lc_Confirm c taskID epoch at ttl =
     (if taskID = [] \<or> epoch \<le> 0 \<or> ttl \<le> 0 then c
      else case map_of c taskID of
             Some cur \<Rightarrow>
               if lcEpoch cur > epoch then c
               else if lcEpoch cur = epoch \<and> (lcLost cur \<or> at < lcConfirmedAt cur) then c
               else AList.update taskID \<lparr>lcEpoch = epoch, lcConfirmedAt = at, lcTtl = ttl, lcLost = False\<rparr> c
           | None \<Rightarrow> AList.update taskID \<lparr>lcEpoch = epoch, lcConfirmedAt = at, lcTtl = ttl, lcLost = False\<rparr> c)"

definition lc_Lost :: "LeaseClock \<Rightarrow> string \<Rightarrow> int64 \<Rightarrow> bool" where
  "lc_Lost c taskID epoch =
     (if taskID = [] \<or> epoch \<le> 0 then False
      else case map_of c taskID of None \<Rightarrow> False | Some cur \<Rightarrow> lcLost cur \<and> lcEpoch cur = epoch)"

definition lc_Lose :: "LeaseClock \<Rightarrow> string \<Rightarrow> int64 \<Rightarrow> LeaseClock" where
  "lc_Lose c taskID epoch =
     (if taskID = [] then c
      else case map_of c taskID of
             Some cur \<Rightarrow>
               if lcEpoch cur > epoch then c
               else AList.update taskID (cur\<lparr>lcEpoch := epoch, lcLost := True\<rparr>) c
           | None \<Rightarrow> AList.update taskID \<lparr>lcEpoch = epoch, lcConfirmedAt = 0, lcTtl = 0, lcLost = True\<rparr> c)"

text \<open>\<open>ttl*4/5\<close> on \<open>int64\<close>: the product wraps, the quotient is cut towards zero.\<close>

definition trusted_for :: "duration \<Rightarrow> duration" where
  "trusted_for ttl = (let x = wrap64 (ttl * 4) in if x < 0 then - (- x div 5) else x div 5)"

definition lc_Fresh :: "instant \<Rightarrow> LeaseClock \<Rightarrow> string \<Rightarrow> int64 \<Rightarrow> bool" where
  "lc_Fresh now c taskID epoch =
     (case map_of c taskID of
        None \<Rightarrow> False
      | Some cur \<Rightarrow>
          if lcLost cur \<or> lcEpoch cur \<noteq> epoch then False
          else time_sub now (lcConfirmedAt cur) < trusted_for (lcTtl cur))"

section \<open>What a run checks\<close>

record fenced_task =
  ftID :: string
  ftOwner :: string
  ftEpoch :: int64

datatype run_error =
    LeaseHandoff run_error
  | WriteFenced string
  | NotExist string
  | OtherError string

definition fenceWrite :: "instant \<Rightarrow> LeaseClock option \<Rightarrow> fenced_task \<Rightarrow> string \<Rightarrow> run_error option" where
  "fenceWrite now fence task boundary =
     (case fence of
        None \<Rightarrow> None
      | Some c \<Rightarrow>
          if ftEpoch task \<le> 0 \<or> lc_Fresh now c (ftID task) (ftEpoch task) then None
          else Some (LeaseHandoff (WriteFenced boundary)))"

definition openEpochPath :: "string \<Rightarrow> int64 \<Rightarrow> bool" where
  "openEpochPath path epoch =
     (if epoch \<le> 0 \<or> path = [] then False
      else case ClassifySegment (path_base path) of None \<Rightarrow> False | Some named \<Rightarrow> nOpen named \<and> nEpoch named = epoch)"

text \<open>The verifier's answer is \<open>Inl\<close> when it returns an error.\<close>

definition openEpochGone :: "LeaseClock option \<Rightarrow> (string \<Rightarrow> string \<Rightarrow> int64 \<Rightarrow> run_error + bool) option \<Rightarrow> fenced_task \<Rightarrow> bool" where
  "openEpochGone fence verify task =
     (if ftEpoch task \<le> 0 then False
      else if (case fence of None \<Rightarrow> False | Some c \<Rightarrow> lc_Lost c (ftID task) (ftEpoch task)) then True
      else if ftOwner task = [] then False
      else case verify of
             None \<Rightarrow> False
           | Some v \<Rightarrow> v (ftID task) (ftOwner task) (ftEpoch task) = Inr False)"

definition missingOpenHandoff :: "LeaseClock option \<Rightarrow> (string \<Rightarrow> string \<Rightarrow> int64 \<Rightarrow> run_error + bool) option \<Rightarrow> fenced_task
    \<Rightarrow> string \<Rightarrow> run_error option \<Rightarrow> run_error option" where
  "missingOpenHandoff fence verify task path err =
     (case err of
        Some (NotExist e) \<Rightarrow>
          if openEpochPath path (ftEpoch task) \<and> openEpochGone fence verify task
          then Some (LeaseHandoff (NotExist e)) else err
      | _ \<Rightarrow> err)"

section \<open>The fence of a task row\<close>

record TaskRowFenceInput =
  rfLeaseFound :: bool
  rfLeaseOwner :: string
  rfLeaseEpoch :: int64
  rfRowFound :: bool
  rfRowOwner :: string
  rfRowEpoch :: int64

text \<open>\<open>True\<close> is the \<open>nil\<close> error, \<open>False\<close> is \<open>ErrFenced\<close>.\<close>

definition CheckTaskRowFence :: "TaskRowFenceInput \<Rightarrow> string \<Rightarrow> int64 \<Rightarrow> bool" where
  "CheckTaskRowFence i owner epoch =
     (if rfLeaseFound i \<and> rfLeaseOwner i \<noteq> [] then rfLeaseOwner i = owner \<and> rfLeaseEpoch i = epoch
      else if rfLeaseFound i then rfLeaseEpoch i = epoch
      else if \<not> rfRowFound i \<or> rfRowEpoch i \<le> 0 \<or> rfRowOwner i = [] then True
      else rfRowOwner i = owner \<and> rfRowEpoch i = epoch)"

section \<open>A cluster of workers\<close>

text \<open>
  The scheduler's use of the two (\<open>scheduler_lifecycle.go\<close>, \<open>scheduler_cluster_lease.go\<close>): a call to the
  table is sent at some instant and answered later, and a granted call confirms the worker's clock with
  the instant before it was sent. Every worker uses the same \<open>ttl\<close>.
\<close>

record cluster =
  clNow :: instant
  clTable :: MemoryLease
  clClocks :: "string \<Rightarrow> LeaseClock"

datatype lease_event =
    Tick duration
  | AcquireBy string string instant
  | RenewBy string string int64 instant
  | ReleaseBy string string int64
  | LoseBy string string int64

definition set_clock :: "cluster \<Rightarrow> string \<Rightarrow> LeaseClock \<Rightarrow> cluster" where
  "set_clock s w c = s\<lparr>clClocks := (clClocks s)(w := c)\<rparr>"

definition lease_step :: "duration \<Rightarrow> cluster \<Rightarrow> lease_event \<Rightarrow> cluster" where
  "lease_step ttl s e =
     (case e of
        Tick d \<Rightarrow> s\<lparr>clNow := clNow s + d\<rparr>
      | AcquireBy w task sent \<Rightarrow>
          (case ml_Acquire (clNow s) (clTable s) task w ttl of
             (m, epoch, True) \<Rightarrow> set_clock (s\<lparr>clTable := m\<rparr>) w (lc_Confirm (clClocks s w) task epoch sent ttl)
           | (m, epoch, False) \<Rightarrow> s\<lparr>clTable := m\<rparr>)
      | RenewBy w task epoch sent \<Rightarrow>
          (case ml_Renew (clNow s) (clTable s) task w epoch sent ttl of
             (m, True) \<Rightarrow> set_clock (s\<lparr>clTable := m\<rparr>) w (lc_Confirm (clClocks s w) task epoch sent ttl)
           | (m, False) \<Rightarrow> s\<lparr>clTable := m\<rparr>)
      | ReleaseBy w task epoch \<Rightarrow> s\<lparr>clTable := fst (ml_Release (clNow s) (clTable s) task w epoch)\<rparr>
      | LoseBy w task epoch \<Rightarrow> set_clock s w (lc_Lose (clClocks s w) task epoch))"

definition no_leases :: cluster where
  "no_leases = \<lparr>clNow = 1, clTable = [], clClocks = (\<lambda>_. [])\<rparr>"

end
