(* ===== verification/Rep_Fence_Props.thy ===== *)
theory Rep_Fence_Props
  imports Rep_Fence
begin

text \<open>
  The write fence is sound: a worker whose clock calls its epoch fresh holds the unexpired lease of that
  epoch, so two workers never pass the fence for one task together, as long as a worker does not acquire
  a lease it still holds. The last section shows what happens when it does.
\<close>

section \<open>What the cluster admits\<close>

definition holds_lease :: "cluster \<Rightarrow> string \<Rightarrow> string \<Rightarrow> bool" where
  "holds_lease s w task = (case map_of (clTable s) task of None \<Rightarrow> False | Some row \<Rightarrow> mlOwner row = w \<and> mlExpire row > clNow s)"

text \<open>Time does not go back, a call is answered after it was sent, the calls of a worker are sent in order,
  a worker acquires only a lease it does not hold and releases an epoch only after its clock has lost it.\<close>

definition lease_ok :: "cluster \<Rightarrow> lease_event \<Rightarrow> bool" where
  "lease_ok s e =
     (case e of
        Tick d \<Rightarrow> 0 \<le> d
      | AcquireBy w task sent \<Rightarrow> w \<noteq> [] \<and> 0 < sent \<and> sent \<le> clNow s \<and> \<not> holds_lease s w task
      | RenewBy w task epoch sent \<Rightarrow> w \<noteq> [] \<and> 0 < sent \<and> sent \<le> clNow s
          \<and> (case map_of (clClocks s w) task of None \<Rightarrow> True | Some cur \<Rightarrow> lcConfirmedAt cur \<le> sent)
      | ReleaseBy w task epoch \<Rightarrow>
          (case map_of (clClocks s w) task of None \<Rightarrow> True | Some cur \<Rightarrow> lcLost cur \<or> lcEpoch cur \<noteq> epoch)
      | LoseBy w task epoch \<Rightarrow> True)"

definition entry_ok :: "duration \<Rightarrow> cluster \<Rightarrow> string \<Rightarrow> string \<Rightarrow> leaseClockEntry \<Rightarrow> bool" where
  "entry_ok ttl s w task cur \<longleftrightarrow> w \<noteq> [] \<and> lcTtl cur = ttl
     \<and> (\<exists>row. map_of (clTable s) task = Some row \<and> lcEpoch cur \<le> mlEpoch row
          \<and> ((mlOwner row = w \<and> mlEpoch row = lcEpoch cur \<and> lcConfirmedAt cur + ttl \<le> mlExpire row)
             \<or> lcConfirmedAt cur + ttl \<le> clNow s))"

definition lease_inv :: "duration \<Rightarrow> cluster \<Rightarrow> bool" where
  "lease_inv ttl s \<longleftrightarrow>
     (\<forall>w task cur. map_of (clClocks s w) task = Some cur \<longrightarrow> \<not> lcLost cur \<longrightarrow> entry_ok ttl s w task cur)"

lemma lease_invD: "lease_inv ttl s \<Longrightarrow> map_of (clClocks s w) task = Some cur \<Longrightarrow> \<not> lcLost cur \<Longrightarrow> entry_ok ttl s w task cur"
  by (simp add: lease_inv_def)

text \<open>An entry after \<open>Confirm\<close> is the confirmation or was there before.\<close>

lemma Confirm_entry:
  assumes "map_of (lc_Confirm c task epoch at ttl) x = Some cur"
  shows "(x = task \<and> cur = \<lparr>lcEpoch = epoch, lcConfirmedAt = at, lcTtl = ttl, lcLost = False\<rparr>) \<or> map_of c x = Some cur"
  using assms by (auto simp: lc_Confirm_def alist_simps split: if_splits option.splits)

lemma Confirm_replaces:
  assumes "map_of (lc_Confirm c task epoch at ttl) task = Some cur"
    and "cur \<noteq> \<lparr>lcEpoch = epoch, lcConfirmedAt = at, lcTtl = ttl, lcLost = False\<rparr>"
  shows "map_of c task = Some cur \<and> (task = [] \<or> epoch \<le> 0 \<or> ttl \<le> 0 \<or> epoch < lcEpoch cur \<or> lcLost cur
    \<or> (lcEpoch cur = epoch \<and> at < lcConfirmedAt cur))"
  using assms by (auto simp: lc_Confirm_def alist_simps split: if_splits option.splits)

lemma Lose_entry:
  assumes "map_of (lc_Lose c task epoch) x = Some cur" "\<not> lcLost cur"
  shows "map_of c x = Some cur"
  using assms by (auto simp: lc_Lose_def alist_simps split: if_splits option.splits)

section \<open>Every event keeps the invariant\<close>

lemma entry_ok_tick: "entry_ok ttl s w task cur \<Longrightarrow> 0 \<le> d \<Longrightarrow> entry_ok ttl (s\<lparr>clNow := clNow s + d\<rparr>) w task cur"
  by (auto simp: entry_ok_def)

lemma entry_ok_set_clock [simp]: "entry_ok ttl (set_clock s v c) w task cur = entry_ok ttl s w task cur"
  by (simp add: entry_ok_def set_clock_def)

lemma tick_keeps: "lease_inv ttl s \<Longrightarrow> 0 \<le> d \<Longrightarrow> lease_inv ttl (s\<lparr>clNow := clNow s + d\<rparr>)"
  unfolding lease_inv_def by (simp add: entry_ok_tick)

lemma lose_keeps:
  assumes "lease_inv ttl s"
  shows "lease_inv ttl (set_clock s w (lc_Lose (clClocks s w) task epoch))"
  unfolding lease_inv_def
proof (intro allI impI)
  fix v x cur
  assume "map_of (clClocks (set_clock s w (lc_Lose (clClocks s w) task epoch)) v) x = Some cur" "\<not> lcLost cur"
  then have "map_of (clClocks s v) x = Some cur" "\<not> lcLost cur"
    using Lose_entry [of "clClocks s w" task epoch x cur] by (auto simp: set_clock_def split: if_splits)
  with assms show "entry_ok ttl (set_clock s w (lc_Lose (clClocks s w) task epoch)) v x cur" by (simp add: lease_invD)
qed

text \<open>A row that changes hands: the entries of the other workers have run out.\<close>

lemma granted_keeps:
  assumes inv: "lease_inv ttl s" and w: "w \<noteq> []"
    and old: "\<And>row. map_of (clTable s) task = Some row \<Longrightarrow> mlEpoch row \<le> mlEpoch new \<and> (mlOwner row = [] \<or> mlExpire row \<le> clNow s)"
    and new: "mlOwner new = w" "sent + ttl \<le> mlExpire new"
  shows "lease_inv ttl (set_clock (s\<lparr>clTable := AList.update task new (clTable s)\<rparr>) w
    (lc_Confirm (clClocks s w) task (mlEpoch new) sent ttl))"
  unfolding lease_inv_def
proof (intro allI impI)
  let ?s = "set_clock (s\<lparr>clTable := AList.update task new (clTable s)\<rparr>) w (lc_Confirm (clClocks s w) task (mlEpoch new) sent ttl)"
  fix w' x cur
  assume c: "map_of (clClocks ?s w') x = Some cur" "\<not> lcLost cur"
  show "entry_ok ttl ?s w' x cur"
  proof (cases "w' = w \<and> x = task \<and> cur = \<lparr>lcEpoch = mlEpoch new, lcConfirmedAt = sent, lcTtl = ttl, lcLost = False\<rparr>")
    case True
    then show ?thesis using new w by (auto simp: entry_ok_def set_clock_def alist_simps)
  next
    case False
    then have "map_of (clClocks s w') x = Some cur"
      using c Confirm_entry [of "clClocks s w" task "mlEpoch new" sent ttl x cur] by (auto simp: set_clock_def split: if_splits)
    then have e: "entry_ok ttl s w' x cur" using inv c(2) by (auto dest: lease_invD)
    show ?thesis
    proof (cases "x = task")
      case True
      then obtain row where row: "map_of (clTable s) task = Some row" "lcEpoch cur \<le> mlEpoch row" "w' \<noteq> []" "lcTtl cur = ttl"
        "(mlOwner row = w' \<and> lcConfirmedAt cur + ttl \<le> mlExpire row) \<or> lcConfirmedAt cur + ttl \<le> clNow s"
        using e by (auto simp: entry_ok_def)
      then have "lcConfirmedAt cur + ttl \<le> clNow s" "lcEpoch cur \<le> mlEpoch new" using old [of row] by auto
      with row True show ?thesis by (simp add: entry_ok_def set_clock_def alist_simps)
    next
      case False
      then show ?thesis using e by (simp add: entry_ok_def set_clock_def alist_simps)
    qed
  qed
qed

lemma acquire_keeps:
  assumes inv: "lease_inv ttl s" and ok: "lease_ok s (AcquireBy w task sent)"
  shows "lease_inv ttl (lease_step ttl s (AcquireBy w task sent))"
proof -
  have w: "w \<noteq> []" and sent: "sent \<le> clNow s" using ok by (simp_all add: lease_ok_def)
  show ?thesis
  proof (cases "map_of (clTable s) task")
    case None
    then show ?thesis
      using granted_keeps [OF inv w, of task "\<lparr>mlOwner = w, mlEpoch = 1, mlExpire = clNow s + ttl\<rparr>" sent] sent
      by (simp add: lease_step_def ml_Acquire_def)
  next
    case (Some row)
    show ?thesis
    proof (cases "mlExpire row > clNow s \<and> mlOwner row \<noteq> []")
      case True
      then have "mlOwner row \<noteq> w" using ok Some by (simp add: lease_ok_def holds_lease_def)
      with Some True inv show ?thesis by (simp add: lease_step_def ml_Acquire_def)
    next
      case False
      define new where "new = \<lparr>mlOwner = w, mlEpoch = (if mlOwner row \<noteq> w then mlEpoch row + 1 else mlEpoch row), mlExpire = clNow s + ttl\<rparr>"
      have "lease_step ttl s (AcquireBy w task sent) = set_clock (s\<lparr>clTable := AList.update task new (clTable s)\<rparr>) w
          (lc_Confirm (clClocks s w) task (mlEpoch new) sent ttl)"
        using Some False by (auto simp: lease_step_def ml_Acquire_def Let_def new_def)
      then show ?thesis
        using granted_keeps [OF inv w, of task new sent] Some False sent by (auto simp: new_def)
    qed
  qed
qed

lemma renew_keeps:
  assumes inv: "lease_inv ttl s" and ok: "lease_ok s (RenewBy w task epoch sent)"
  shows "lease_inv ttl (lease_step ttl s (RenewBy w task epoch sent))"
proof (cases "\<exists>row. map_of (clTable s) task = Some row \<and> mlOwner row = w \<and> mlEpoch row = epoch")
  case False
  then show ?thesis using inv by (auto simp: lease_step_def ml_Renew_def split: option.split)
next
  case True
  then obtain row where row: "map_of (clTable s) task = Some row" "mlOwner row = w" "mlEpoch row = epoch" by blast
  have w: "w \<noteq> []" "sent \<noteq> 0" using ok by (simp_all add: lease_ok_def)
  define new where "new = row\<lparr>mlExpire := sent + ttl\<rparr>"
  define s' where "s' = set_clock (s\<lparr>clTable := AList.update task new (clTable s)\<rparr>) w (lc_Confirm (clClocks s w) task epoch sent ttl)"
  have "lease_inv ttl s'"
    unfolding lease_inv_def
  proof (intro allI impI)
    fix w' x cur
    assume c: "map_of (clClocks s' w') x = Some cur" "\<not> lcLost cur"
    show "entry_ok ttl s' w' x cur"
    proof (cases "w' = w \<and> x = task \<and> cur = \<lparr>lcEpoch = epoch, lcConfirmedAt = sent, lcTtl = ttl, lcLost = False\<rparr>")
      case True
      then show ?thesis using row w by (auto simp: entry_ok_def s'_def new_def set_clock_def alist_simps)
    next
      case False
      then have o: "map_of (clClocks s w') x = Some cur"
        using c Confirm_entry [of "clClocks s w" task epoch sent ttl x cur] by (auto simp: s'_def set_clock_def split: if_splits)
      then have e: "entry_ok ttl s w' x cur" using inv c(2) by (auto dest: lease_invD)
      have "lcConfirmedAt cur \<le> sent" if "w' = w" "x = task" using ok o that by (simp add: lease_ok_def)
      with e row show ?thesis by (cases "x = task"; cases "w' = w") (auto simp: entry_ok_def s'_def new_def set_clock_def alist_simps)
    qed
  qed
  moreover have "lease_step ttl s (RenewBy w task epoch sent) = s'"
    using row w by (simp add: lease_step_def ml_Renew_def s'_def new_def)
  ultimately show ?thesis by simp
qed

lemma release_keeps:
  assumes inv: "lease_inv ttl s" and ok: "lease_ok s (ReleaseBy w task epoch)"
  shows "lease_inv ttl (lease_step ttl s (ReleaseBy w task epoch))"
proof (cases "\<exists>row. map_of (clTable s) task = Some row \<and> mlOwner row = w \<and> mlEpoch row = epoch")
  case False
  then show ?thesis using inv by (auto simp: lease_step_def ml_Release_def split: option.split)
next
  case True
  then obtain row where row: "map_of (clTable s) task = Some row" "mlOwner row = w" "mlEpoch row = epoch" by blast
  show ?thesis
    unfolding lease_inv_def
  proof (intro allI impI)
    fix w' x cur
    assume c: "map_of (clClocks (lease_step ttl s (ReleaseBy w task epoch)) w') x = Some cur" "\<not> lcLost cur"
    then have o: "map_of (clClocks s w') x = Some cur" by (simp add: lease_step_def)
    then have e: "entry_ok ttl s w' x cur" using inv c(2) by (auto dest: lease_invD)
    have "lcEpoch cur \<noteq> epoch" if "w' = w" "x = task" using ok o c(2) that by (simp add: lease_ok_def)
    with e row show "entry_ok ttl (lease_step ttl s (ReleaseBy w task epoch)) w' x cur"
      by (cases "x = task"; cases "w' = w") (auto simp: entry_ok_def lease_step_def ml_Release_def alist_simps)
  qed
qed

interpretation lease: machine "lease_step ttl" lease_ok "lease_inv ttl" for ttl
proof unfold_locales
  show "lease_inv ttl (lease_step ttl s e)" if "lease_inv ttl s" "lease_ok s e" for s e
    using that acquire_keeps renew_keeps release_keeps tick_keeps [of ttl s] lose_keeps [of ttl s]
    by (cases e) (auto simp: lease_step_def [of _ _ "Tick _"] lease_step_def [of _ _ "LoseBy _ _ _"] lease_ok_def [of _ "Tick _"])
qed

section \<open>The fence\<close>

lemma trusted_for_less: "0 < ttl \<Longrightarrow> ttl * 4 \<le> max_int64 \<Longrightarrow> 0 \<le> trusted_for ttl \<and> trusted_for ttl < ttl \<and> trusted_for ttl \<le> max_int64"
  by (simp add: trusted_for_def Let_def max_int64_def min_int64_def) linarith

lemma fresh_in_window:
  assumes "lc_Fresh now c task epoch" and "\<And>cur. map_of c task = Some cur \<Longrightarrow> \<not> lcLost cur \<Longrightarrow> lcTtl cur = ttl"
    and "0 < ttl" "ttl * 4 \<le> max_int64"
  obtains cur where "map_of c task = Some cur" "\<not> lcLost cur" "lcEpoch cur = epoch" "now < lcConfirmedAt cur + ttl"
proof -
  obtain cur where c: "map_of c task = Some cur" "\<not> lcLost cur" "lcEpoch cur = epoch" "time_sub now (lcConfirmedAt cur) < trusted_for (lcTtl cur)"
    using assms(1) by (auto simp: lc_Fresh_def split: option.splits if_splits)
  moreover have "now < lcConfirmedAt cur + ttl"
    using c assms(2) [OF c(1,2)] trusted_for_less [OF assms(3,4)] by (auto simp: time_sub_def)
  ultimately show ?thesis using that by blast
qed

lemma no_leases_inv [simp]: "lease_inv ttl no_leases"
  by (simp add: lease_inv_def no_leases_def)

lemma fresh_row:
  assumes "lease_inv ttl s" and "0 < ttl" "ttl * 4 \<le> max_int64" and f: "lc_Fresh (clNow s) (clClocks s w) task epoch"
  shows "w \<noteq> [] \<and> (\<exists>row. map_of (clTable s) task = Some row \<and> mlOwner row = w \<and> mlEpoch row = epoch \<and> clNow s < mlExpire row)"
proof -
  have "lcTtl cur = ttl" if "map_of (clClocks s w) task = Some cur" "\<not> lcLost cur" for cur
    using lease_invD [OF assms(1) that] by (simp add: entry_ok_def)
  then obtain cur where c: "map_of (clClocks s w) task = Some cur" "\<not> lcLost cur" "lcEpoch cur = epoch"
    "clNow s < lcConfirmedAt cur + ttl" using fresh_in_window [OF f _ assms(2,3)] by metis
  from lease_invD [OF assms(1) c(1,2)] c(3,4) show ?thesis by (auto simp: entry_ok_def)
qed


definition demo_history :: "lease_event list" where
  "demo_history = [AcquireBy ''a'' ''t'' 1, Tick 120, AcquireBy ''b'' ''t'' 121, Tick 20, RenewBy ''b'' ''t'' 2 130, Tick 60]"



section \<open>Handoffs\<close>

text \<open>A missing open segment ends a run as a handoff exactly when the path is the open file of the run's own
  epoch and that epoch is lost on the local clock or the verifier answers that the row has moved; every other
  error, and a missing file while the verifier cannot answer, is returned unchanged.\<close>

lemma missing_open_handoff_iff:
  "(\<exists>e. missingOpenHandoff fence verify task path (Some err) = Some (LeaseHandoff e) \<and> err \<noteq> LeaseHandoff e)
   \<longleftrightarrow> (\<exists>e. err = NotExist e) \<and> openEpochPath path (ftEpoch task)
      \<and> ((\<exists>c. fence = Some c \<and> lc_Lost c (ftID task) (ftEpoch task))
         \<or> (ftOwner task \<noteq> [] \<and> (\<exists>v. verify = Some v \<and> v (ftID task) (ftOwner task) (ftEpoch task) = Inr False)))"
  by (cases err; cases fence; cases verify)
    (auto simp: missingOpenHandoff_def openEpochGone_def openEpochPath_def split: if_splits)

end
